(* ===== verification/Polay_Prelude.thy ===== *)
theory Polay_Prelude
  imports Main "HOL-Library.Word" "HOL-Library.Finite_Map" "HOL-Library.Sublist"
begin

section \<open>Prelude: machine integers, results, finite maps, bytes\<close>

text \<open>
  What every component of the development shares.

  \<^item> The integer types of the sources (\<open>u8\<close> to \<open>u128\<close>, \<open>i64\<close>) at their width, with the
    checked and saturating operations of the Rust standard library. The node is built with
    \<^verbatim>\<open>cargo build --release\<close> (README, Dockerfile, scripts), whose plain \<open>+\<close>, \<open>-\<close>, \<open>*\<close> on
    integers wrap around: exactly the operations of \<open>'a word\<close>.
  \<^item> Fallible code: a \<open>result\<close> is an \<open>Ok\<close>, an \<open>Err\<close> or a panic (an index out of range, a
    division by zero). Handlers return it next to the store they leave behind, because nothing
    in the sources rolls a store back when a handler fails.
  \<^item> The persistent maps of the chain state are finite maps (\<open>fmap\<close>); \<open>fmsum\<close> adds a quantity
    up over the entries of one, which is how supply and conservation are stated.
  \<^item> Byte encodings of fixed-width integers, used by the storage keys and the hash inputs.
\<close>

named_theorems state_defs \<open>definitions of the typed reads and writes of the chain state\<close>
named_theorems unat_simps \<open>operations on machine integers, read as natural numbers\<close>

subsection \<open>Integer types\<close>

type_synonym u8 = "8 word"
type_synonym u16 = "16 word"
type_synonym u32 = "32 word"
type_synonym u64 = "64 word"
type_synonym u128 = "128 word"
type_synonym i64 = "64 word"

text \<open>The largest value of a width is the word of all ones.\<close>

definition checked_add :: "'a::len word \<Rightarrow> 'a word \<Rightarrow> 'a word option" where
  "checked_add a b = (if unat a + unat b < 2 ^ LENGTH('a) then Some (a + b) else None)"

definition checked_sub :: "'a::len word \<Rightarrow> 'a word \<Rightarrow> 'a word option" where
  "checked_sub a b = (if b \<le> a then Some (a - b) else None)"

definition saturating_add :: "'a::len word \<Rightarrow> 'a word \<Rightarrow> 'a word" where
  "saturating_add a b = (if unat a + unat b < 2 ^ LENGTH('a) then a + b else - 1)"

definition saturating_sub :: "'a::len word \<Rightarrow> 'a word \<Rightarrow> 'a word" where
  "saturating_sub a b = (if b \<le> a then a - b else 0)"

definition saturating_mul :: "'a::len word \<Rightarrow> 'a word \<Rightarrow> 'a word" where
  "saturating_mul a b = (if unat a * unat b < 2 ^ LENGTH('a) then a * b else - 1)"

text \<open>\<open>i64::saturating_add\<close>: the sum of the signed readings, clamped to the signed range.\<close>

definition saturating_add_signed :: "'a::len word \<Rightarrow> 'a word \<Rightarrow> 'a word" where
  "saturating_add_signed a b =
     (let s = sint a + sint b in
      if s < - (2 ^ (LENGTH('a) - 1)) then word_of_int (- (2 ^ (LENGTH('a) - 1)))
      else if 2 ^ (LENGTH('a) - 1) \<le> s then word_of_int (2 ^ (LENGTH('a) - 1) - 1)
      else a + b)"

text \<open>
  The idiom \<^verbatim>\<open>((x as u128) * bps as u128 / 10_000) as u64\<close>: a share of \<open>x\<close> in basis points,
  computed in 128 bits and truncated back.
\<close>

definition bps_share :: "u64 \<Rightarrow> u16 \<Rightarrow> u64" where
  "bps_share x bps = ucast ((ucast x * ucast bps :: u128) div 10000)"

lemma unat_max [unat_simps]: "unat (- 1 :: 'a::len word) = 2 ^ LENGTH('a) - 1"
  by (simp add: unsigned_minus_1_eq_mask mask_eq_exp_minus_1)

lemma unat_saturating_add [unat_simps]:
  "unat (saturating_add a b) = min (unat a + unat b) (2 ^ LENGTH('a) - 1)" for a b :: "'a::len word"
  by (auto simp: saturating_add_def unat_max unat_word_ariths min_def)

lemma unat_saturating_sub [unat_simps]:
  "unat (saturating_sub a b) = unat a - unat b" for a b :: "'a::len word"
  by (auto simp: saturating_sub_def unat_sub word_le_nat_alt not_le)

lemma unat_saturating_mul [unat_simps]:
  "unat (saturating_mul a b) = min (unat a * unat b) (2 ^ LENGTH('a) - 1)" for a b :: "'a::len word"
proof (cases "unat a * unat b < 2 ^ LENGTH('a)")
  case True
  then have "unat (a * b) = unat a * unat b" by (simp add: unat_word_ariths)
  with True show ?thesis by (simp add: saturating_mul_def)
next
  case False
  then show ?thesis by (simp add: saturating_mul_def unat_max)
qed

lemma checked_sub_Some [simp]: "b \<le> a \<Longrightarrow> checked_sub a b = Some (a - b)"
  by (simp add: checked_sub_def)

lemma checked_sub_None_iff [simp]: "checked_sub a b = None \<longleftrightarrow> a < b"
  by (auto simp: checked_sub_def not_le)

lemma checked_sub_SomeD: "checked_sub a b = Some c \<Longrightarrow> b \<le> a \<and> c = a - b"
  by (auto simp: checked_sub_def split: if_splits)

lemma unat_le_max: "unat (w :: 'a::len word) \<le> 2 ^ LENGTH('a) - 1"
proof -
  have "unat w < 2 ^ LENGTH('a)" by (rule unsigned_less)
  then show ?thesis by linarith
qed

lemma unat_u64_bound: "unat (w :: u64) < 2 ^ 64"
  using unsigned_less [of w] by simp

lemma unat_u16_bound: "unat (w :: u16) < 2 ^ 16"
  using unsigned_less [of w] by simp

text \<open>
  The product of a \<open>u64\<close> and a \<open>u16\<close> always fits in 128 bits, so the share is the exact
  quotient, truncated only when it exceeds 64 bits; below 10000 basis points it never does.
\<close>

lemma unat_ucast_mod: "unat (ucast (w :: 'a::len word) :: 'b::len word) = unat w mod 2 ^ LENGTH('b)"
  by (simp add: unsigned_ucast_eq take_bit_eq_mod)

lemma unat_bps_share_mod:
  "unat (bps_share x bps) = (unat x * unat bps div 10000) mod 2 ^ 64"
proof -
  have "unat x * unat bps < 2 ^ 64 * 2 ^ 16"
    by (intro mult_strict_mono unat_u64_bound unat_u16_bound) auto
  moreover have "unat (ucast x :: u128) = unat x" "unat (ucast bps :: u128) = unat bps"
    using unat_u64_bound [of x] unat_u16_bound [of bps] by (simp_all add: unat_ucast_mod)
  ultimately have "unat (ucast x * ucast bps :: u128) = unat x * unat bps"
    by (simp add: unat_word_ariths)
  then have "unat ((ucast x * ucast bps :: u128) div 10000) = unat x * unat bps div 10000"
    by (simp add: unat_div)
  then show ?thesis
    by (simp add: bps_share_def unat_ucast_mod)
qed

lemma unat_bps_share:
  assumes "unat bps \<le> 10000"
  shows "unat (bps_share x bps) = unat x * unat bps div 10000"
proof -
  have "unat x * unat bps div 10000 \<le> unat x * 10000 div 10000"
    using assms by (intro div_le_mono mult_le_mono2)
  then have "unat x * unat bps div 10000 < 2 ^ 64"
    using unat_u64_bound [of x] by linarith
  then show ?thesis
    by (simp add: unat_bps_share_mod)
qed

lemma bps_share_le: "unat bps \<le> 10000 \<Longrightarrow> bps_share x bps \<le> x"
proof -
  assume *: "unat bps \<le> 10000"
  then have "unat x * unat bps div 10000 \<le> unat x * 10000 div 10000"
    by (intro div_le_mono mult_le_mono2)
  with * show ?thesis
    by (simp add: word_le_nat_alt unat_bps_share)
qed

text \<open>Two shares that together are at most the whole do not exceed it.\<close>

lemma bps_shares_le:
  assumes "unat b + unat c \<le> 10000"
  shows "unat (bps_share x b) + unat (bps_share x c) \<le> unat x"
proof -
  have "unat x * unat b div 10000 + unat x * unat c div 10000
      \<le> (unat x * unat b + unat x * unat c) div 10000"
    by (simp only: div_add1_eq [of "unat x * unat b"])
  also have "\<dots> \<le> unat x * 10000 div 10000"
    using assms by (intro div_le_mono) (simp add: add_mult_distrib2 [symmetric] del: mult_le_cancel1)
  finally show ?thesis
    using assms by (simp add: unat_bps_share)
qed

subsection \<open>Results\<close>

datatype ('e, 'a) result = Ok 'a | Err 'e | Panic

fun is_ok :: "('e, 'a) result \<Rightarrow> bool" where
  "is_ok (Ok _) = True"
| "is_ok (Err _) = False"
| "is_ok Panic = False"

text \<open>\<open>Option::unwrap_or\<close> (and its lazy variant).\<close>

definition unwrap_or :: "'a option \<Rightarrow> 'a \<Rightarrow> 'a" where
  "unwrap_or x d = (case x of None \<Rightarrow> d | Some v \<Rightarrow> v)"

lemma unwrap_or_simps [simp]:
  "unwrap_or None d = d"
  "unwrap_or (Some v) d = v"
  by (simp_all add: unwrap_or_def)

subsection \<open>Sums over finite maps\<close>

definition fmsum :: "('v \<Rightarrow> nat) \<Rightarrow> ('k, 'v) fmap \<Rightarrow> nat" where
  "fmsum f m = (\<Sum>k\<in>fmdom' m. f (the (fmlookup m k)))"

text \<open>What a key contributes to the sum.\<close>

definition fmcontrib :: "('v \<Rightarrow> nat) \<Rightarrow> ('k, 'v) fmap \<Rightarrow> 'k \<Rightarrow> nat" where
  "fmcontrib f m k = (case fmlookup m k of None \<Rightarrow> 0 | Some v \<Rightarrow> f v)"

lemma fmcontrib_simps [simp]:
  "fmlookup m k = None \<Longrightarrow> fmcontrib f m k = 0"
  "fmlookup m k = Some v \<Longrightarrow> fmcontrib f m k = f v"
  by (simp_all add: fmcontrib_def)

lemma fmcontrib_upd [simp]:
  "fmcontrib f (fmupd k v m) k' = (if k = k' then f v else fmcontrib f m k')"
  by (simp add: fmcontrib_def)

lemma fmsum_empty [simp]: "fmsum f fmempty = 0"
  by (simp add: fmsum_def)

lemma fmsum_split: "fmsum f m = fmcontrib f m k + (\<Sum>k'\<in>fmdom' m - {k}. f (the (fmlookup m k')))"
proof (cases "k \<in> fmdom' m")
  case True
  then obtain v where "fmlookup m k = Some v" by (auto simp: fmlookup_dom'_iff)
  with True show ?thesis by (simp add: fmsum_def sum.remove [of _ k])
next
  case False
  then have "fmlookup m k = None" by auto
  with False show ?thesis by (simp add: fmsum_def)
qed

lemma fmcontrib_le_fmsum: "fmcontrib f m k \<le> fmsum f m"
  by (simp add: fmsum_split [of f m k])

lemma fmsum_ge: "fmlookup m k = Some v \<Longrightarrow> f v \<le> fmsum f m"
  using fmcontrib_le_fmsum [of f m k] by simp

text \<open>Updating one key replaces its contribution.\<close>

lemma fmsum_upd_add: "fmsum f (fmupd k v m) + fmcontrib f m k = fmsum f m + f v"
proof -
  have "(\<Sum>k'\<in>fmdom' (fmupd k v m) - {k}. f (the (fmlookup (fmupd k v m) k')))
      = (\<Sum>k'\<in>fmdom' m - {k}. f (the (fmlookup m k')))"
    by (rule sum.cong) auto
  then show ?thesis
    using fmsum_split [of f "fmupd k v m" k] fmsum_split [of f m k] by simp
qed

lemma fmsum_upd: "fmsum f (fmupd k v m) = fmsum f m - fmcontrib f m k + f v"
  using fmsum_upd_add [of f k v m] fmcontrib_le_fmsum [of f m k] by linarith

lemma fmsum_drop: "fmsum f (fmdrop k m) = fmsum f m - fmcontrib f m k"
proof -
  have "(\<Sum>k'\<in>fmdom' m - {k}. f (the (fmlookup (fmdrop k m) k')))
      = (\<Sum>k'\<in>fmdom' m - {k}. f (the (fmlookup m k')))"
    by (rule sum.cong) auto
  then show ?thesis
    by (simp add: fmsum_def [of f "fmdrop k m"] fmsum_split [of f m k])
qed

text \<open>Two different keys are summed separately.\<close>

lemma fmsum_two_le:
  assumes "k \<noteq> k'"
  shows "fmcontrib f m k + fmcontrib f m k' \<le> fmsum f m"
proof -
  have "fmcontrib f m k' \<le> fmsum f (fmdrop k m)"
    using fmcontrib_le_fmsum [of f "fmdrop k m" k'] assms by (simp add: fmcontrib_def)
  then show ?thesis
    using fmcontrib_le_fmsum [of f m k] by (simp add: fmsum_drop)
qed

lemma fmlookup_fmdrop [simp]: "fmlookup (fmdrop k m) k' = (if k = k' then None else fmlookup m k')"
  by simp

subsection \<open>Bytes of machine integers and strings\<close>

text \<open>
  \<open>to_be_bytes\<close> and \<open>to_le_bytes\<close> of a word of \<open>n\<close> bytes. A Rust \<open>String\<close> is its UTF-8 bytes,
  the characters of a \<open>string\<close>.
\<close>

definition be_bytes :: "nat \<Rightarrow> 'a::len word \<Rightarrow> u8 list" where
  "be_bytes n w = map (\<lambda>i. ucast (drop_bit (8 * (n - 1 - i)) w)) [0..<n]"

definition le_bytes :: "nat \<Rightarrow> 'a::len word \<Rightarrow> u8 list" where
  "le_bytes n w = map (\<lambda>i. ucast (drop_bit (8 * i) w)) [0..<n]"

definition str_bytes :: "string \<Rightarrow> u8 list" where
  "str_bytes s = map of_char s"

lemma length_be_bytes [simp]: "length (be_bytes n w) = n"
  by (simp add: be_bytes_def)

lemma length_le_bytes [simp]: "length (le_bytes n w) = n"
  by (simp add: le_bytes_def)

lemma le_bytes_inj:
  assumes "le_bytes n v = le_bytes n w" and "LENGTH('a) \<le> 8 * n"
  shows "v = (w :: 'a::len word)"
proof (rule bit_word_eqI)
  fix k
  assume k: "k < LENGTH('a)"
  then have "k div 8 < n"
    using assms(2) by (simp add: less_mult_imp_div_less mult.commute)
  then have "(ucast (drop_bit (8 * (k div 8)) v) :: u8) = ucast (drop_bit (8 * (k div 8)) w)"
    using arg_cong [OF assms(1), of "\<lambda>bs. bs ! (k div 8)"] by (simp add: le_bytes_def)
  then have "bit (ucast (drop_bit (8 * (k div 8)) v) :: u8) (k mod 8)
      = bit (ucast (drop_bit (8 * (k div 8)) w) :: u8) (k mod 8)"
    by simp
  then show "bit v k \<longleftrightarrow> bit w k"
    by (simp add: bit_ucast_iff bit_drop_bit_eq)
qed

lemma be_bytes_rev_le: "be_bytes n w = rev (le_bytes n w)"
  by (rule nth_equalityI) (simp_all add: be_bytes_def le_bytes_def rev_nth)

lemma be_bytes_inj: "be_bytes n v = be_bytes n w \<Longrightarrow> LENGTH('a) \<le> 8 * n \<Longrightarrow> v = (w :: 'a::len word)"
  by (simp add: be_bytes_rev_le le_bytes_inj)

lemma str_bytes_inj: "str_bytes s = str_bytes t \<Longrightarrow> s = t"
proof -
  have "inj (of_char :: char \<Rightarrow> u8)"
  proof (rule injI)
    fix c d :: char
    assume eq: "(of_char c :: u8) = of_char d"
    have "unat (of_char c :: u8) = of_char c" "unat (of_char d :: u8) = of_char d"
      by (simp_all add: of_char_def unat_of_nat)
    with eq show "c = d"
      by (metis of_char_eq_iff)
  qed
  then show "str_bytes s = str_bytes t \<Longrightarrow> s = t"
    by (simp add: str_bytes_def inj_map_eq_map)
qed

subsection \<open>Ordered scans of a finite map\<close>

lemma map_fst_scan: "map fst (sorted_list_of_fmap m) = sorted_list_of_fset (fmdom m)"
  by (simp add: sorted_list_of_fmap_def comp_def)

lemma distinct_keys_scan: "distinct (map fst (sorted_list_of_fmap m))"
  by (simp add: map_fst_scan sorted_list_of_fset.rep_eq)

lemma sorted_keys_scan: "sorted (map fst (sorted_list_of_fmap m))"
  by (simp add: map_fst_scan sorted_list_of_fset.rep_eq)

lemma set_scan: "set (sorted_list_of_fmap m) = {(k, v). fmlookup m k = Some v}"
  using map_of_eq_Some_iff [OF distinct_keys_scan, of m] by auto

lemma length_filter_scan:
  "length (filter P (sorted_list_of_fmap m)) = card {k. \<exists>v. fmlookup m k = Some v \<and> P (k, v)}"
proof -
  let ?xs = "filter P (sorted_list_of_fmap m)"
  have "distinct (map fst ?xs)"
    using distinct_keys_scan [of m] by (rule distinct_map_filter)
  then have "length ?xs = card (set (map fst ?xs))"
    by (metis distinct_card length_map)
  also have "set (map fst ?xs) = {k. \<exists>v. fmlookup m k = Some v \<and> P (k, v)}"
    by (force simp: set_scan)
  finally show ?thesis .
qed

text \<open>Stopping a scan of sorted keys at the first failure is filtering, for a downward closed test.\<close>

lemma takeWhile_sorted_keys:
  assumes "sorted (map fst xs)" and "\<And>x y. fst x \<le> fst y \<Longrightarrow> P y \<Longrightarrow> P x"
  shows "takeWhile P xs = filter P xs"
  using assms(1)
proof (induction xs)
  case (Cons x xs)
  show ?case
  proof (cases "P x")
    case False
    then have "filter P xs = []"
      using Cons.prems assms(2) by (fastforce simp: filter_empty_conv)
    with False show ?thesis by simp
  qed (use Cons in simp)
qed simp

text \<open>A sum of machine integers that does not wrap is the sum of their readings.\<close>

lemma unat_sum_list: "(\<Sum>w\<leftarrow>ws. unat w) < 2 ^ LENGTH('a) \<Longrightarrow> unat (sum_list ws) = (\<Sum>w\<leftarrow>ws. unat w)"
  for ws :: "'a::len word list"
proof (induction ws)
  case (Cons w ws)
  then have "unat (sum_list ws) = (\<Sum>w\<leftarrow>ws. unat w)" by simp
  with Cons.prems show ?case by (simp add: unat_word_ariths)
qed simp

lemma unat_sum_u64: "(\<Sum>x\<leftarrow>xs. unat (f x :: u64)) < 2 ^ 64 \<Longrightarrow> unat (\<Sum>x\<leftarrow>xs. f x) = (\<Sum>x\<leftarrow>xs. unat (f x))"
  using unat_sum_list [of "map f xs"] by (simp add: comp_def)

end
