(* ===== verification/Polay_Types.thy ===== *)
theory Polay_Types
  imports Polay_Prelude
begin

section \<open>The shared data types (\<^verbatim>\<open>crates/polay-types\<close>)\<close>

text \<open>
  The structs of \<^verbatim>\<open>polay-types\<close> as records, its enums as datatypes, and their methods. Field
  names carry the struct as a prefix, because most structs have an \<open>address\<close>, an \<open>amount\<close>, a
  \<open>status\<close> and a \<open>created_at\<close>. An \<open>Address\<close> and a \<open>Hash\<close> are 32 bytes, kept as one 256-bit word
  (most significant byte first, so that the order of the words is the order of the byte arrays);
  a \<open>Signature\<close> is 64 bytes. A \<open>Vec\<close> is a list, a \<open>String\<close> a \<open>string\<close>.
\<close>

type_synonym address = "256 word"
type_synonym hash = "256 word"
type_synonym signature = "512 word"
type_synonym usize = u64

definition ZERO :: "256 word" where
  "ZERO = 0"

definition is_zero :: "256 word \<Rightarrow> bool" where
  "is_zero a \<longleftrightarrow> a = ZERO"

definition as_bytes :: "256 word \<Rightarrow> u8 list" where
  "as_bytes a = be_bytes 32 a"

lemma length_as_bytes [simp]: "length (as_bytes a) = 32"
  by (simp add: as_bytes_def)

lemma as_bytes_eq_iff [simp]: "as_bytes a = as_bytes b \<longleftrightarrow> a = b"
  by (auto simp: as_bytes_def dest: be_bytes_inj)

subsection \<open>Accounts\<close>

record AccountState =
  acct_address :: address
  acct_nonce :: u64
  acct_balance :: u64
  acct_created_at :: u64

definition AccountState_new :: "address \<Rightarrow> u64 \<Rightarrow> AccountState" where
  "AccountState_new a created_at =
     \<lparr>acct_address = a, acct_nonce = 0, acct_balance = 0, acct_created_at = created_at\<rparr>"

definition AccountState_with_balance :: "address \<Rightarrow> u64 \<Rightarrow> u64 \<Rightarrow> AccountState" where
  "AccountState_with_balance a bal created_at =
     \<lparr>acct_address = a, acct_nonce = 0, acct_balance = bal, acct_created_at = created_at\<rparr>"

definition can_afford :: "AccountState \<Rightarrow> u64 \<Rightarrow> bool" where
  "can_afford acct amount \<longleftrightarrow> amount \<le> acct_balance acct"

text \<open>\<open>debit\<close> returns the required and available amounts its error message prints.\<close>

definition debit :: "AccountState \<Rightarrow> u64 \<Rightarrow> (u64 \<times> u64, AccountState) result" where
  "debit acct amount =
     (case checked_sub (acct_balance acct) amount of
        None \<Rightarrow> Err (amount, acct_balance acct)
      | Some b \<Rightarrow> Ok (acct\<lparr>acct_balance := b\<rparr>))"

definition credit :: "AccountState \<Rightarrow> u64 \<Rightarrow> AccountState" where
  "credit acct amount = acct\<lparr>acct_balance := saturating_add (acct_balance acct) amount\<rparr>"

definition increment_nonce :: "AccountState \<Rightarrow> AccountState" where
  "increment_nonce acct = acct\<lparr>acct_nonce := acct_nonce acct + 1\<rparr>"

subsection \<open>Assets\<close>

datatype AssetType = Fungible | NonFungible | SemiFungible

record AssetClass =
  ac_id :: hash
  ac_name :: string
  ac_symbol :: string
  ac_asset_type :: AssetType
  ac_total_supply :: u64
  ac_max_supply :: "u64 option"
  ac_creator :: address
  ac_metadata_uri :: string
  ac_created_at :: u64

definition can_mint :: "AssetClass \<Rightarrow> u64 \<Rightarrow> bool" where
  "can_mint c additional =
     (case ac_max_supply c of
        Some cap \<Rightarrow> saturating_add (ac_total_supply c) additional \<le> cap
      | None \<Rightarrow> True)"

definition remaining_supply :: "AssetClass \<Rightarrow> u64 option" where
  "remaining_supply c = map_option (\<lambda>cap. saturating_sub cap (ac_total_supply c)) (ac_max_supply c)"

record AssetBalance =
  ab_owner :: address
  ab_asset_class_id :: hash
  ab_amount :: u64

definition AssetBalance_new :: "address \<Rightarrow> hash \<Rightarrow> AssetBalance" where
  "AssetBalance_new own cls = \<lparr>ab_owner = own, ab_asset_class_id = cls, ab_amount = 0\<rparr>"

definition asset_credit :: "AssetBalance \<Rightarrow> u64 \<Rightarrow> AssetBalance" where
  "asset_credit b amount = b\<lparr>ab_amount := saturating_add (ab_amount b) amount\<rparr>"

definition asset_debit :: "AssetBalance \<Rightarrow> u64 \<Rightarrow> (u64 \<times> u64, AssetBalance) result" where
  "asset_debit b amount =
     (if ab_amount b < amount then Err (amount, ab_amount b)
      else Ok (b\<lparr>ab_amount := ab_amount b - amount\<rparr>))"

subsection \<open>Marketplace\<close>

datatype ListingStatus = ListingActive | ListingSold | ListingCancelled

record Listing =
  lst_id :: hash
  lst_seller :: address
  lst_asset_class_id :: hash
  lst_amount :: u64
  lst_price_per_unit :: u64
  lst_currency :: hash
  lst_status :: ListingStatus
  lst_royalty_bps :: u16
  lst_created_at :: u64

definition total_price :: "Listing \<Rightarrow> u64" where
  "total_price l = saturating_mul (lst_amount l) (lst_price_per_unit l)"

definition royalty_amount :: "Listing \<Rightarrow> u64" where
  "royalty_amount l = bps_share (total_price l) (lst_royalty_bps l)"

definition listing_is_active :: "Listing \<Rightarrow> bool" where
  "listing_is_active l \<longleftrightarrow> lst_status l = ListingActive"

subsection \<open>Staking\<close>

datatype ValidatorStatus = ValidatorActive | ValidatorJailed | ValidatorUnbonding | ValidatorTombstoned

record ValidatorInfo =
  val_address :: address
  val_stake :: u64
  val_commission_bps :: u16
  val_status :: ValidatorStatus
  val_jailed_until :: "u64 option"
  val_blocks_produced :: u64

definition ValidatorInfo_new :: "address \<Rightarrow> u16 \<Rightarrow> ValidatorInfo" where
  "ValidatorInfo_new a commission_bps =
     \<lparr>val_address = a, val_stake = 0, val_commission_bps = commission_bps,
      val_status = ValidatorActive, val_jailed_until = None, val_blocks_produced = 0\<rparr>"

definition validator_is_active :: "ValidatorInfo \<Rightarrow> bool" where
  "validator_is_active v \<longleftrightarrow> val_status v = ValidatorActive"

definition can_propose :: "ValidatorInfo \<Rightarrow> bool" where
  "can_propose v \<longleftrightarrow> validator_is_active v \<and> 0 < val_stake v"

definition commission_on :: "ValidatorInfo \<Rightarrow> u64 \<Rightarrow> u64" where
  "commission_on v reward = bps_share reward (val_commission_bps v)"

definition jail :: "ValidatorInfo \<Rightarrow> u64 \<Rightarrow> ValidatorInfo" where
  "jail v until = v\<lparr>val_status := ValidatorJailed, val_jailed_until := Some until\<rparr>"

definition try_unjail :: "ValidatorInfo \<Rightarrow> u64 \<Rightarrow> bool \<times> ValidatorInfo" where
  "try_unjail v now =
     (case val_jailed_until v of
        Some until \<Rightarrow>
          if until \<le> now
          then (True, v\<lparr>val_status := ValidatorActive, val_jailed_until := None\<rparr>)
          else (False, v)
      | None \<Rightarrow> (False, v))"

definition tombstone :: "ValidatorInfo \<Rightarrow> ValidatorInfo" where
  "tombstone v = v\<lparr>val_status := ValidatorTombstoned, val_jailed_until := None\<rparr>"

record Delegation =
  del_delegator :: address
  del_validator :: address
  del_amount :: u64
  del_reward_debt :: u64
  del_last_reward_epoch :: u64

definition Delegation_new :: "address \<Rightarrow> address \<Rightarrow> Delegation" where
  "Delegation_new d v =
     \<lparr>del_delegator = d, del_validator = v, del_amount = 0, del_reward_debt = 0,
      del_last_reward_epoch = 0\<rparr>"

definition add_stake :: "Delegation \<Rightarrow> u64 \<Rightarrow> Delegation" where
  "add_stake d amount = d\<lparr>del_amount := saturating_add (del_amount d) amount\<rparr>"

definition remove_stake :: "Delegation \<Rightarrow> u64 \<Rightarrow> (u64 \<times> u64, Delegation) result" where
  "remove_stake d amount =
     (if del_amount d < amount then Err (amount, del_amount d)
      else Ok (d\<lparr>del_amount := del_amount d - amount\<rparr>))"

record UnbondingEntry =
  ub_delegator :: address
  ub_validator :: address
  ub_amount :: u64
  ub_initiated_at :: u64
  ub_completion_height :: u64

record EquivocationEvidence =
  eq_validator :: address
  eq_height :: u64
  eq_evidence_type :: string
  eq_submitted_by :: address
  eq_timestamp :: u64

subsection \<open>Economics and epochs\<close>

record SupplyInfo =
  sup_total_supply :: u64
  sup_circulating_supply :: u64
  sup_total_staked :: u64
  sup_total_burned :: u64
  sup_treasury_balance :: u64
  sup_total_minted :: u64
  sup_total_fees_collected :: u64

text \<open>\<open>SupplyInfo\<close> derives \<open>Default\<close>: every counter is zero.\<close>

definition SupplyInfo_default :: SupplyInfo where
  "SupplyInfo_default =
     \<lparr>sup_total_supply = 0, sup_circulating_supply = 0, sup_total_staked = 0, sup_total_burned = 0,
      sup_treasury_balance = 0, sup_total_minted = 0, sup_total_fees_collected = 0\<rparr>"

definition recompute_circulating :: "SupplyInfo \<Rightarrow> SupplyInfo" where
  "recompute_circulating s =
     s\<lparr>sup_circulating_supply :=
         saturating_sub (saturating_sub (sup_total_supply s) (sup_total_staked s))
                        (sup_treasury_balance s)\<rparr>"

record FeeDistribution =
  fd_burn_bps :: u16
  fd_treasury_bps :: u16
  fd_validator_bps :: u16

definition FeeDistribution_default :: FeeDistribution where
  "FeeDistribution_default = \<lparr>fd_burn_bps = 5000, fd_treasury_bps = 2000, fd_validator_bps = 3000\<rparr>"

record InflationParams =
  inf_initial_rate_bps :: u16
  inf_min_rate_bps :: u16
  inf_decay_rate_bps :: u16
  inf_target_staking_ratio_bps :: u16

definition InflationParams_default :: InflationParams where
  "InflationParams_default =
     \<lparr>inf_initial_rate_bps = 800, inf_min_rate_bps = 200, inf_decay_rate_bps = 500,
      inf_target_staking_ratio_bps = 6700\<rparr>"

record EpochInfo =
  ep_epoch :: u64
  ep_start_height :: u64
  ep_end_height :: u64
  ep_validator_set :: "address list"
  ep_total_staked :: u64
  ep_rewards_distributed :: u64

subsection \<open>Attestation\<close>

datatype AttestorStatus = AttestorActive | AttestorSuspended | AttestorRevoked

record Attestor =
  att_address :: address
  att_game_id :: string
  att_endpoint :: string
  att_metadata :: string
  att_status :: AttestorStatus
  att_registered_at :: u64

definition can_submit :: "Attestor \<Rightarrow> bool" where
  "can_submit a \<longleftrightarrow> att_status a = AttestorActive"

record MatchResult =
  mr_match_id :: hash
  mr_game_id :: string
  mr_timestamp :: u64
  mr_players :: "address list"
  mr_scores :: "u64 list"
  mr_winners :: "address list"
  mr_reward_pool :: u64
  mr_server_signature :: "u8 list"
  mr_anti_cheat_score :: "u8 option"
  mr_replay_ref :: "string option"

definition is_well_formed :: "MatchResult \<Rightarrow> bool" where
  "is_well_formed m \<longleftrightarrow>
     length (mr_players m) = length (mr_scores m) \<and> mr_players m \<noteq> [] \<and> mr_winners m \<noteq> [] \<and>
     list_all (\<lambda>w. w \<in> set (mr_players m)) (mr_winners m)"

record MatchSettlement =
  ms_match_id :: hash
  ms_settled :: bool
  ms_rewards_distributed :: "(address \<times> u64) list"
  ms_quarantined :: bool
  ms_settled_at :: u64

subsection \<open>Identity\<close>

record PlayerProfile =
  prof_address :: address
  prof_username :: string
  prof_display_name :: string
  prof_reputation :: i64
  prof_metadata :: "string option"
  prof_created_at :: u64

definition PlayerProfile_new ::
  "address \<Rightarrow> string \<Rightarrow> string \<Rightarrow> string option \<Rightarrow> u64 \<Rightarrow> PlayerProfile" where
  "PlayerProfile_new a username display_name metadata created_at =
     \<lparr>prof_address = a, prof_username = username, prof_display_name = display_name,
      prof_reputation = 0, prof_metadata = metadata, prof_created_at = created_at\<rparr>"

definition adjust_reputation :: "PlayerProfile \<Rightarrow> i64 \<Rightarrow> PlayerProfile" where
  "adjust_reputation p delta =
     p\<lparr>prof_reputation := saturating_add_signed (prof_reputation p) delta\<rparr>"

record Achievement =
  ach_id :: string
  ach_player :: address
  ach_name :: string
  ach_metadata :: string
  ach_awarded_at :: u64
  ach_soulbound :: bool

subsection \<open>Rentals\<close>

datatype RentalStatus = RentalListed | RentalActive | RentalReturned | RentalExpired | RentalCancelled

record Rental =
  rnt_rental_id :: hash
  rnt_owner :: address
  rnt_renter :: "address option"
  rnt_asset_class_id :: hash
  rnt_asset_id :: hash
  rnt_price_per_block :: u64
  rnt_deposit :: u64
  rnt_min_duration :: u64
  rnt_max_duration :: u64
  rnt_start_height :: "u64 option"
  rnt_end_height :: "u64 option"
  rnt_status :: RentalStatus
  rnt_created_at :: u64

subsection \<open>Guilds\<close>

datatype GuildRole = Leader | Officer | Member

record Guild =
  gld_guild_id :: hash
  gld_name :: string
  gld_description :: string
  gld_leader :: address
  gld_treasury_balance :: u64
  gld_member_count :: u32
  gld_max_members :: u32
  gld_created_at :: u64

record GuildMembership =
  gm_guild_id :: hash
  gm_member :: address
  gm_role :: GuildRole
  gm_joined_at :: u64

subsection \<open>Tournaments\<close>

datatype TournamentStatus =
  TournamentRegistration | TournamentActive | TournamentCompleted | TournamentCancelled

record Tournament =
  trn_tournament_id :: hash
  trn_name :: string
  trn_organizer :: address
  trn_game_id :: string
  trn_entry_fee :: u64
  trn_prize_pool :: u64
  trn_max_participants :: u32
  trn_min_participants :: u32
  trn_participants :: "address list"
  trn_status :: TournamentStatus
  trn_start_height :: u64
  trn_end_height :: "u64 option"
  trn_prize_distribution :: "u32 list"
  trn_rankings :: "address list"
  trn_prizes_claimed :: "bool list"
  trn_created_at :: u64

subsection \<open>Session keys\<close>

datatype SessionPermission = PermAll | PermActions "string list"

record SessionGrant =
  ses_granter :: address
  ses_session_pubkey :: "u8 list"
  ses_session_address :: address
  ses_permissions :: SessionPermission
  ses_expires_at :: u64
  ses_spending_limit :: u64
  ses_amount_spent :: u64
  ses_revoked :: bool
  ses_created_at :: u64

definition session_is_valid :: "SessionGrant \<Rightarrow> u64 \<Rightarrow> bool" where
  "session_is_valid g current_height \<longleftrightarrow> \<not> ses_revoked g \<and> current_height \<le> ses_expires_at g"

definition is_action_permitted :: "SessionGrant \<Rightarrow> string \<Rightarrow> bool" where
  "is_action_permitted g label =
     (case ses_permissions g of
        PermAll \<Rightarrow> True
      | PermActions allowed \<Rightarrow> list_ex (\<lambda>a. a = label) allowed)"

definition can_spend :: "SessionGrant \<Rightarrow> u64 \<Rightarrow> bool" where
  "can_spend g amount \<longleftrightarrow> saturating_add (ses_amount_spent g) amount \<le> ses_spending_limit g"

subsection \<open>Governance\<close>

datatype ProposalStatus =
  ProposalVoting | ProposalPassed | ProposalRejected | ProposalExecuted | ProposalCancelled

datatype ProposalAction =
    ParameterChange string string
  | ApproveAttestor address string
  | SuspendAttestor address
  | SlashValidator address u16 string
  | TreasurySpend address u64 string
  | TextProposal string string

record GovProposal =
  prp_id :: hash
  prp_proposer :: address
  prp_action :: ProposalAction
  prp_title :: string
  prp_description :: string
  prp_deposit :: u64
  prp_status :: ProposalStatus
  prp_yes_votes :: u64
  prp_no_votes :: u64
  prp_abstain_votes :: u64
  prp_voting_start_height :: u64
  prp_voting_end_height :: u64
  prp_created_at :: u64

datatype VoteOption = VoteYes | VoteNo | VoteAbstain

fun vote_option_label :: "VoteOption \<Rightarrow> string" where
  "vote_option_label VoteYes = ''yes''"
| "vote_option_label VoteNo = ''no''"
| "vote_option_label VoteAbstain = ''abstain''"

record GovVote =
  gv_proposal_id :: hash
  gv_voter :: address
  gv_option :: VoteOption
  gv_weight :: u64
  gv_height :: u64

subsection \<open>Events\<close>

text \<open>
  An event's attributes are pairs of strings; the second component is the printed form of an
  address or hash (\<open>to_hex\<close>), of an integer (\<open>to_string\<close>) or a plain string. The model keeps the
  printed datum itself.
\<close>

datatype attr = Hex "256 word" | Dec nat | SignedDec int | Text string

record Event =
  ev_module :: string
  ev_action :: string
  ev_attributes :: "(string \<times> attr) list"

definition Event_new :: "string \<Rightarrow> string \<Rightarrow> (string \<times> attr) list \<Rightarrow> Event" where
  "Event_new m a attrs = \<lparr>ev_module = m, ev_action = a, ev_attributes = attrs\<rparr>"

definition get_attribute :: "Event \<Rightarrow> string \<Rightarrow> attr option" where
  "get_attribute e key = map_option snd (find (\<lambda>(k, _). k = key) (ev_attributes e))"

subsection \<open>Transactions\<close>

datatype (plugins only: size) TransactionAction =
    Transfer address u64
  | CreateAssetClass string string AssetType "u64 option" string
  | MintAsset hash address u64 "string option"
  | TransferAsset hash address u64
  | BurnAsset hash u64
  | CreateListing hash u64 u64 hash
  | CancelListing hash
  | BuyListing hash
  | CreateProfile string string "string option"
  | AddAchievement address string string string
  | UpdateReputation address i64 string
  | RegisterValidator u16
  | DelegateStake address u64
  | UndelegateStake address u64
  | RegisterAttestor string string string
  | SubmitMatchResult MatchResult
  | DistributeReward hash "(address \<times> u64) list"
  | SubmitProposal ProposalAction string string u64
  | VoteProposal hash VoteOption
  | ExecuteProposal hash
  | CreateSession "u8 list" SessionPermission u64 u64
  | RevokeSession address
  | ListForRent hash hash u64 u64 u64 u64
  | RentAsset hash u64
  | ReturnRental hash
  | ClaimExpiredRental hash
  | CancelRentalListing hash
  | CreateGuild string string u32
  | JoinGuild hash
  | LeaveGuild hash
  | GuildDeposit hash u64
  | GuildWithdraw hash u64
  | GuildPromote hash address string
  | GuildKick hash address
  | CreateTournament string string u64 u32 u32 u64 "u32 list"
  | JoinTournament hash
  | StartTournament hash
  | ReportTournamentResults hash "address list"
  | ClaimTournamentPrize hash
  | CancelTournament hash

fun action_label :: "TransactionAction \<Rightarrow> string" where
  "action_label (Transfer _ _) = ''transfer''"
| "action_label (CreateAssetClass _ _ _ _ _) = ''create_asset_class''"
| "action_label (MintAsset _ _ _ _) = ''mint_asset''"
| "action_label (TransferAsset _ _ _) = ''transfer_asset''"
| "action_label (BurnAsset _ _) = ''burn_asset''"
| "action_label (CreateListing _ _ _ _) = ''create_listing''"
| "action_label (CancelListing _) = ''cancel_listing''"
| "action_label (BuyListing _) = ''buy_listing''"
| "action_label (CreateProfile _ _ _) = ''create_profile''"
| "action_label (AddAchievement _ _ _ _) = ''add_achievement''"
| "action_label (UpdateReputation _ _ _) = ''update_reputation''"
| "action_label (RegisterValidator _) = ''register_validator''"
| "action_label (DelegateStake _ _) = ''delegate_stake''"
| "action_label (UndelegateStake _ _) = ''undelegate_stake''"
| "action_label (RegisterAttestor _ _ _) = ''register_attestor''"
| "action_label (SubmitMatchResult _) = ''submit_match_result''"
| "action_label (DistributeReward _ _) = ''distribute_reward''"
| "action_label (SubmitProposal _ _ _ _) = ''submit_proposal''"
| "action_label (VoteProposal _ _) = ''vote_proposal''"
| "action_label (ExecuteProposal _) = ''execute_proposal''"
| "action_label (CreateSession _ _ _ _) = ''create_session''"
| "action_label (RevokeSession _) = ''revoke_session''"
| "action_label (ListForRent _ _ _ _ _ _) = ''list_for_rent''"
| "action_label (RentAsset _ _) = ''rent_asset''"
| "action_label (ReturnRental _) = ''return_rental''"
| "action_label (ClaimExpiredRental _) = ''claim_expired_rental''"
| "action_label (CancelRentalListing _) = ''cancel_rental_listing''"
| "action_label (CreateGuild _ _ _) = ''create_guild''"
| "action_label (JoinGuild _) = ''join_guild''"
| "action_label (LeaveGuild _) = ''leave_guild''"
| "action_label (GuildDeposit _ _) = ''guild_deposit''"
| "action_label (GuildWithdraw _ _) = ''guild_withdraw''"
| "action_label (GuildPromote _ _ _) = ''guild_promote''"
| "action_label (GuildKick _ _) = ''guild_kick''"
| "action_label (CreateTournament _ _ _ _ _ _ _) = ''create_tournament''"
| "action_label (JoinTournament _) = ''join_tournament''"
| "action_label (StartTournament _) = ''start_tournament''"
| "action_label (ReportTournamentResults _ _) = ''report_tournament_results''"
| "action_label (ClaimTournamentPrize _) = ''claim_tournament_prize''"
| "action_label (CancelTournament _) = ''cancel_tournament''"

record Transaction =
  tx_chain_id :: string
  tx_nonce :: u64
  tx_signer :: address
  tx_action :: TransactionAction
  tx_max_fee :: u64
  tx_timestamp :: u64
  tx_session :: "address option"
  tx_sponsor :: "address option"

record SignedTransaction =
  stx_transaction :: Transaction
  stx_signature :: signature
  stx_tx_hash :: hash
  stx_signer_pubkey :: "u8 list"

definition signer :: "SignedTransaction \<Rightarrow> address" where
  "signer tx = tx_signer (stx_transaction tx)"

definition nonce :: "SignedTransaction \<Rightarrow> u64" where
  "nonce tx = tx_nonce (stx_transaction tx)"

record TxLocation =
  loc_block_height :: u64
  loc_tx_index :: u32

subsection \<open>Blocks\<close>

record BlockHeader =
  bh_height :: u64
  bh_timestamp :: u64
  bh_parent_hash :: hash
  bh_state_root :: hash
  bh_transactions_root :: hash
  bh_proposer :: address
  bh_chain_id :: string
  bh_hash :: hash

record Block =
  blk_header :: BlockHeader
  blk_transactions :: "SignedTransaction list"

definition block_height :: "Block \<Rightarrow> u64" where
  "block_height b = bh_height (blk_header b)"

definition block_hash :: "Block \<Rightarrow> hash" where
  "block_hash b = bh_hash (blk_header b)"

definition is_genesis :: "BlockHeader \<Rightarrow> bool" where
  "is_genesis h \<longleftrightarrow> bh_height h = 0 \<and> is_zero (bh_parent_hash h)"

subsection \<open>Execution errors and receipts\<close>

text \<open>
  Where the source puts a formatted message into an error, the model keeps the value the message
  prints (an address, a length, a pair of bounds) or the literal text.
\<close>

datatype (plugins only: size) ExecutionError =
    InsufficientBalance u64 u64
  | InvalidNonce u64 u64
  | AccountNotFound address
  | AssetClassNotFound
  | AssetClassAlreadyExists
  | MaxSupplyExceeded u64 u64 u64
  | ListingNotFound
  | ListingNotActive
  | ListingOwnerMismatch
  | CannotBuyOwnListing
  | ProfileAlreadyExists
  | ProfileNotFound
  | ValidatorAlreadyRegistered
  | ValidatorNotFound
  | InvalidCommission
  | InsufficientStake
  | AttestorAlreadyRegistered
  | AttestorNotFound
  | AttestorNotActive
  | InvalidMatchResult string
  | MatchAlreadySettled
  | Unauthorized
  | FeeTooLow
  | InvalidChainId string string
  | ZeroAddressSigner
  | InvalidTxHash
  | InvalidSignature string
  | InvalidSignerPubkey string
  | MatchQuarantined
  | MatchSettlementNotFound
  | MatchResultNotFound
  | RewardPoolExceeded u64 u64
  | InvalidTransaction string
  | StateError string
  | InsufficientDeposit u64 u64
  | ProposalNotFound
  | ProposalNotActive
  | VotingPeriodEnded
  | VotingPeriodNotEnded
  | NoStakeToVote
  | TransactionTooLarge nat nat
  | TransactionExpired u64 u64
  | InvalidInput string
  | SessionNotFound
  | SessionExpired
  | SessionRevoked
  | SessionActionNotPermitted
  | SessionSpendingLimitExceeded
  | SessionAlreadyExists
  | InvalidSessionPubkey nat
  | SponsorIsSigner
  | ZeroAddressSponsor
  | SponsorAccountNotFound address
  | RentalNotFound
  | RentalNotListed
  | RentalNotActive
  | RentalOwnerMismatch
  | RentalRenterMismatch
  | RentalNotExpired
  | InvalidRentalDuration u64 u64
  | GuildNotFound
  | AlreadyGuildMember
  | NotGuildMember
  | GuildFull u32
  | LeaderCannotLeave
  | InsufficientTreasuryBalance u64 u64
  | NotAuthorized
  | InvalidGuildRole string
  | CannotKickLeader
  | TournamentNotFound
  | TournamentNotInRegistration
  | TournamentNotActive
  | TournamentNotCompleted
  | AlreadyRegistered
  | TournamentFull
  | RegistrationClosed
  | NotEnoughParticipants
  | NotOrganizer
  | NotRanked
  | PrizeAlreadyClaimed
  | InvalidRankings
  | CannotCancelActiveTournament
  | Custom string

record TransactionReceipt =
  rcp_tx_hash :: hash
  rcp_block_height :: u64
  rcp_success :: bool
  rcp_fee_used :: u64
  rcp_gas_used :: u64
  rcp_fee_payer :: address
  rcp_events :: "Event list"
  rcp_error :: "ExecutionError option"

definition receipt_success ::
  "hash \<Rightarrow> u64 \<Rightarrow> u64 \<Rightarrow> u64 \<Rightarrow> address \<Rightarrow> Event list \<Rightarrow> TransactionReceipt" where
  "receipt_success h height fee_used gas_used payer events =
     \<lparr>rcp_tx_hash = h, rcp_block_height = height, rcp_success = True, rcp_fee_used = fee_used,
      rcp_gas_used = gas_used, rcp_fee_payer = payer, rcp_events = events, rcp_error = None\<rparr>"

definition receipt_failure ::
  "hash \<Rightarrow> u64 \<Rightarrow> u64 \<Rightarrow> u64 \<Rightarrow> address \<Rightarrow> ExecutionError \<Rightarrow> TransactionReceipt" where
  "receipt_failure h height fee_used gas_used payer err =
     \<lparr>rcp_tx_hash = h, rcp_block_height = height, rcp_success = False, rcp_fee_used = fee_used,
      rcp_gas_used = gas_used, rcp_fee_payer = payer, rcp_events = [], rcp_error = Some err\<rparr>"

end
