(* ===== verification/Polay_Events.thy ===== *)
theory Polay_Events
  imports Polay_Types
begin

section \<open>Event constructors (\<^verbatim>\<open>crates/polay-types/src/event.rs\<close>)\<close>

text \<open>
  One definition per helper constructor of \<open>Event\<close>: the module and action names and the
  attributes, in the order the source pushes them.
\<close>

definition Event_transfer :: "address \<Rightarrow> address \<Rightarrow> u64 \<Rightarrow> Event" where
  "Event_transfer sender recipient amount =
     Event_new ''bank'' ''transfer''
       [(''from'', Hex sender), (''to'', Hex recipient), (''amount'', Dec (unat amount))]"

definition Event_mint_asset :: "hash \<Rightarrow> address \<Rightarrow> u64 \<Rightarrow> Event" where
  "Event_mint_asset asset_class_id recipient amount =
     Event_new ''asset'' ''mint''
       [(''asset_class_id'', Hex asset_class_id), (''to'', Hex recipient),
        (''amount'', Dec (unat amount))]"

definition Event_transfer_asset :: "hash \<Rightarrow> address \<Rightarrow> address \<Rightarrow> u64 \<Rightarrow> Event" where
  "Event_transfer_asset asset_class_id sender recipient amount =
     Event_new ''asset'' ''transfer''
       [(''asset_class_id'', Hex asset_class_id), (''from'', Hex sender),
        (''to'', Hex recipient), (''amount'', Dec (unat amount))]"

definition Event_burn_asset :: "hash \<Rightarrow> address \<Rightarrow> u64 \<Rightarrow> Event" where
  "Event_burn_asset asset_class_id sender amount =
     Event_new ''asset'' ''burn''
       [(''asset_class_id'', Hex asset_class_id), (''from'', Hex sender),
        (''amount'', Dec (unat amount))]"

definition Event_asset_class_created :: "hash \<Rightarrow> address \<Rightarrow> string \<Rightarrow> Event" where
  "Event_asset_class_created asset_class_id creator nm =
     Event_new ''asset'' ''create_class''
       [(''asset_class_id'', Hex asset_class_id), (''creator'', Hex creator),
        (''name'', Text nm)]"

definition Event_listing_created :: "hash \<Rightarrow> address \<Rightarrow> hash \<Rightarrow> u64 \<Rightarrow> u64 \<Rightarrow> Event" where
  "Event_listing_created listing_id seller asset_class_id amount price_per_unit =
     Event_new ''market'' ''listing_created''
       [(''listing_id'', Hex listing_id), (''seller'', Hex seller),
        (''asset_class_id'', Hex asset_class_id), (''amount'', Dec (unat amount)),
        (''price_per_unit'', Dec (unat price_per_unit))]"

definition Event_listing_sold :: "hash \<Rightarrow> address \<Rightarrow> address \<Rightarrow> Event" where
  "Event_listing_sold listing_id buyer seller =
     Event_new ''market'' ''listing_sold''
       [(''listing_id'', Hex listing_id), (''buyer'', Hex buyer), (''seller'', Hex seller)]"

definition Event_listing_cancelled :: "hash \<Rightarrow> address \<Rightarrow> Event" where
  "Event_listing_cancelled listing_id seller =
     Event_new ''market'' ''listing_cancelled''
       [(''listing_id'', Hex listing_id), (''seller'', Hex seller)]"

definition Event_profile_created :: "address \<Rightarrow> string \<Rightarrow> Event" where
  "Event_profile_created addr username =
     Event_new ''identity'' ''profile_created''
       [(''address'', Hex addr), (''username'', Text username)]"

definition Event_achievement_awarded :: "address \<Rightarrow> string \<Rightarrow> string \<Rightarrow> Event" where
  "Event_achievement_awarded player achievement_id nm =
     Event_new ''identity'' ''achievement_awarded''
       [(''player'', Hex player), (''achievement_id'', Text achievement_id), (''name'', Text nm)]"

definition Event_reputation_changed :: "address \<Rightarrow> i64 \<Rightarrow> i64 \<Rightarrow> Event" where
  "Event_reputation_changed player delta new_value =
     Event_new ''identity'' ''reputation_changed''
       [(''player'', Hex player), (''delta'', SignedDec (sint delta)),
        (''new_value'', SignedDec (sint new_value))]"

definition Event_validator_registered :: "address \<Rightarrow> u16 \<Rightarrow> Event" where
  "Event_validator_registered addr commission_bps =
     Event_new ''staking'' ''validator_registered''
       [(''address'', Hex addr), (''commission_bps'', Dec (unat commission_bps))]"

definition Event_stake_delegated :: "address \<Rightarrow> address \<Rightarrow> u64 \<Rightarrow> Event" where
  "Event_stake_delegated delegator vld amount =
     Event_new ''staking'' ''delegate''
       [(''delegator'', Hex delegator), (''validator'', Hex vld),
        (''amount'', Dec (unat amount))]"

definition Event_stake_undelegated :: "address \<Rightarrow> address \<Rightarrow> u64 \<Rightarrow> Event" where
  "Event_stake_undelegated delegator vld amount =
     Event_new ''staking'' ''undelegate''
       [(''delegator'', Hex delegator), (''validator'', Hex vld),
        (''amount'', Dec (unat amount))]"

definition Event_unbonding_initiated :: "address \<Rightarrow> address \<Rightarrow> u64 \<Rightarrow> u64 \<Rightarrow> Event" where
  "Event_unbonding_initiated delegator vld amount completion_height =
     Event_new ''staking'' ''unbonding_initiated''
       [(''delegator'', Hex delegator), (''validator'', Hex vld),
        (''amount'', Dec (unat amount)),
        (''completion_height'', Dec (unat completion_height))]"

definition Event_unbonding_completed :: "address \<Rightarrow> address \<Rightarrow> u64 \<Rightarrow> Event" where
  "Event_unbonding_completed delegator vld amount =
     Event_new ''staking'' ''unbonding_completed''
       [(''delegator'', Hex delegator), (''validator'', Hex vld),
        (''amount'', Dec (unat amount))]"

definition Event_validator_slashed :: "address \<Rightarrow> u64 \<Rightarrow> string \<Rightarrow> Event" where
  "Event_validator_slashed vld amount rsn =
     Event_new ''staking'' ''slash''
       [(''validator'', Hex vld), (''amount'', Dec (unat amount)), (''reason'', Text rsn)]"

definition Event_match_result_submitted :: "hash \<Rightarrow> string \<Rightarrow> Event" where
  "Event_match_result_submitted match_id game_id =
     Event_new ''attestation'' ''match_result_submitted''
       [(''match_id'', Hex match_id), (''game_id'', Text game_id)]"

definition Event_rewards_distributed :: "hash \<Rightarrow> u64 \<Rightarrow> Event" where
  "Event_rewards_distributed match_id total_reward =
     Event_new ''attestation'' ''rewards_distributed''
       [(''match_id'', Hex match_id), (''total'', Dec (unat total_reward))]"

definition Event_epoch_transition :: "u64 \<Rightarrow> usize \<Rightarrow> u64 \<Rightarrow> u64 \<Rightarrow> Event" where
  "Event_epoch_transition epoch validator_count total_staked rewards =
     Event_new ''epoch'' ''epoch_transition''
       [(''epoch'', Dec (unat epoch)), (''validator_count'', Dec (unat validator_count)),
        (''total_staked'', Dec (unat total_staked)),
        (''rewards_distributed'', Dec (unat rewards))]"

definition Event_validator_unjailed :: "address \<Rightarrow> Event" where
  "Event_validator_unjailed addr =
     Event_new ''epoch'' ''validator_unjailed''
       [(''address'', Hex addr)]"

definition Event_validator_set_updated :: "u64 \<Rightarrow> usize \<Rightarrow> Event" where
  "Event_validator_set_updated epoch count =
     Event_new ''epoch'' ''validator_set_updated''
       [(''epoch'', Dec (unat epoch)), (''validator_count'', Dec (unat count))]"

definition Event_gas_sponsored :: "address \<Rightarrow> address \<Rightarrow> u64 \<Rightarrow> Event" where
  "Event_gas_sponsored sponsor sgnr amount =
     Event_new ''bank'' ''gas_sponsored''
       [(''sponsor'', Hex sponsor), (''signer'', Hex sgnr), (''amount'', Dec (unat amount))]"

definition Event_session_created :: "address \<Rightarrow> address \<Rightarrow> u64 \<Rightarrow> Event" where
  "Event_session_created granter session_address expires_at =
     Event_new ''session'' ''session_created''
       [(''granter'', Hex granter), (''session_address'', Hex session_address),
        (''expires_at'', Dec (unat expires_at))]"

definition Event_session_revoked :: "address \<Rightarrow> address \<Rightarrow> Event" where
  "Event_session_revoked granter session_address =
     Event_new ''session'' ''session_revoked''
       [(''granter'', Hex granter), (''session_address'', Hex session_address)]"

definition Event_rental_listed :: "address \<Rightarrow> hash \<Rightarrow> hash \<Rightarrow> Event" where
  "Event_rental_listed own rental_id asset_id =
     Event_new ''rental'' ''rental_listed''
       [(''owner'', Hex own), (''rental_id'', Hex rental_id), (''asset_id'', Hex asset_id)]"

definition Event_asset_rented :: "address \<Rightarrow> hash \<Rightarrow> u64 \<Rightarrow> Event" where
  "Event_asset_rented renter rental_id duration =
     Event_new ''rental'' ''asset_rented''
       [(''renter'', Hex renter), (''rental_id'', Hex rental_id),
        (''duration'', Dec (unat duration))]"

definition Event_rental_returned :: "address \<Rightarrow> hash \<Rightarrow> Event" where
  "Event_rental_returned renter rental_id =
     Event_new ''rental'' ''rental_returned''
       [(''renter'', Hex renter), (''rental_id'', Hex rental_id)]"

definition Event_rental_expired :: "hash \<Rightarrow> Event" where
  "Event_rental_expired rental_id =
     Event_new ''rental'' ''rental_expired''
       [(''rental_id'', Hex rental_id)]"

definition Event_rental_cancelled :: "address \<Rightarrow> hash \<Rightarrow> Event" where
  "Event_rental_cancelled own rental_id =
     Event_new ''rental'' ''rental_cancelled''
       [(''owner'', Hex own), (''rental_id'', Hex rental_id)]"

definition Event_guild_created :: "address \<Rightarrow> hash \<Rightarrow> string \<Rightarrow> Event" where
  "Event_guild_created leader guild_id nm =
     Event_new ''guild'' ''guild_created''
       [(''leader'', Hex leader), (''guild_id'', Hex guild_id), (''name'', Text nm)]"

definition Event_guild_joined :: "address \<Rightarrow> hash \<Rightarrow> Event" where
  "Event_guild_joined mem guild_id =
     Event_new ''guild'' ''guild_joined''
       [(''member'', Hex mem), (''guild_id'', Hex guild_id)]"

definition Event_guild_left :: "address \<Rightarrow> hash \<Rightarrow> Event" where
  "Event_guild_left mem guild_id =
     Event_new ''guild'' ''guild_left''
       [(''member'', Hex mem), (''guild_id'', Hex guild_id)]"

definition Event_guild_deposit :: "address \<Rightarrow> hash \<Rightarrow> u64 \<Rightarrow> Event" where
  "Event_guild_deposit mem guild_id amount =
     Event_new ''guild'' ''guild_deposit''
       [(''member'', Hex mem), (''guild_id'', Hex guild_id), (''amount'', Dec (unat amount))]"

definition Event_guild_withdrawal :: "address \<Rightarrow> hash \<Rightarrow> u64 \<Rightarrow> Event" where
  "Event_guild_withdrawal mem guild_id amount =
     Event_new ''guild'' ''guild_withdrawal''
       [(''member'', Hex mem), (''guild_id'', Hex guild_id), (''amount'', Dec (unat amount))]"

definition Event_guild_member_promoted :: "address \<Rightarrow> hash \<Rightarrow> string \<Rightarrow> Event" where
  "Event_guild_member_promoted mem guild_id rl =
     Event_new ''guild'' ''guild_member_promoted''
       [(''member'', Hex mem), (''guild_id'', Hex guild_id), (''role'', Text rl)]"

definition Event_guild_member_kicked :: "address \<Rightarrow> hash \<Rightarrow> Event" where
  "Event_guild_member_kicked mem guild_id =
     Event_new ''guild'' ''guild_member_kicked''
       [(''member'', Hex mem), (''guild_id'', Hex guild_id)]"

definition Event_tournament_created :: "address \<Rightarrow> hash \<Rightarrow> string \<Rightarrow> Event" where
  "Event_tournament_created organizer tournament_id nm =
     Event_new ''tournament'' ''tournament_created''
       [(''organizer'', Hex organizer), (''tournament_id'', Hex tournament_id),
        (''name'', Text nm)]"

definition Event_tournament_joined :: "address \<Rightarrow> hash \<Rightarrow> Event" where
  "Event_tournament_joined participant tournament_id =
     Event_new ''tournament'' ''tournament_joined''
       [(''participant'', Hex participant), (''tournament_id'', Hex tournament_id)]"

definition Event_tournament_started :: "hash \<Rightarrow> u32 \<Rightarrow> Event" where
  "Event_tournament_started tournament_id participants_count =
     Event_new ''tournament'' ''tournament_started''
       [(''tournament_id'', Hex tournament_id),
        (''participants_count'', Dec (unat participants_count))]"

definition Event_tournament_results_reported :: "hash \<Rightarrow> address \<Rightarrow> Event" where
  "Event_tournament_results_reported tournament_id winner =
     Event_new ''tournament'' ''tournament_results_reported''
       [(''tournament_id'', Hex tournament_id), (''winner'', Hex winner)]"

definition Event_tournament_prize_claimed :: "address \<Rightarrow> hash \<Rightarrow> u64 \<Rightarrow> Event" where
  "Event_tournament_prize_claimed participant tournament_id amount =
     Event_new ''tournament'' ''tournament_prize_claimed''
       [(''participant'', Hex participant), (''tournament_id'', Hex tournament_id),
        (''amount'', Dec (unat amount))]"

definition Event_tournament_cancelled :: "hash \<Rightarrow> u32 \<Rightarrow> Event" where
  "Event_tournament_cancelled tournament_id refunded_count =
     Event_new ''tournament'' ''tournament_cancelled''
       [(''tournament_id'', Hex tournament_id), (''refunded_count'', Dec (unat refunded_count))]"

definition Event_proposal_submitted :: "hash \<Rightarrow> address \<Rightarrow> string \<Rightarrow> Event" where
  "Event_proposal_submitted proposal_id proposer ttl =
     Event_new ''governance'' ''proposal_submitted''
       [(''proposal_id'', Hex proposal_id), (''proposer'', Hex proposer), (''title'', Text ttl)]"

definition Event_vote_cast :: "hash \<Rightarrow> address \<Rightarrow> string \<Rightarrow> u64 \<Rightarrow> Event" where
  "Event_vote_cast proposal_id voter opt weight =
     Event_new ''governance'' ''vote_cast''
       [(''proposal_id'', Hex proposal_id), (''voter'', Hex voter), (''option'', Text opt),
        (''weight'', Dec (unat weight))]"

definition Event_proposal_passed :: "hash \<Rightarrow> Event" where
  "Event_proposal_passed proposal_id =
     Event_new ''governance'' ''proposal_passed''
       [(''proposal_id'', Hex proposal_id)]"

definition Event_proposal_rejected :: "hash \<Rightarrow> Event" where
  "Event_proposal_rejected proposal_id =
     Event_new ''governance'' ''proposal_rejected''
       [(''proposal_id'', Hex proposal_id)]"

definition Event_proposal_executed :: "hash \<Rightarrow> Event" where
  "Event_proposal_executed proposal_id =
     Event_new ''governance'' ''proposal_executed''
       [(''proposal_id'', Hex proposal_id)]"

end
