(* ===== verification/Polay_State.thy ===== *)
theory Polay_State
  imports Polay_Events "HOL-Library.Product_Lexorder"
begin

section \<open>Chain state and its typed accessors (\<^verbatim>\<open>crates/polay-state\<close>)\<close>

text \<open>
  The persistent state of the chain, one finite map per namespace of \<^verbatim>\<open>keys.rs\<close> (the byte keys
  themselves and the reason why they may be read as these typed maps are in \<open>Polay_Keys\<close> and
  \<open>Polay_Store\<close>), the reads of \<open>StateView\<close> and the writes of \<open>StateWriter\<close>. A read of the
  sources returns a \<open>StateResult\<close>; its errors are failures of the storage backend or of decoding
  a value, which cannot occur on values the writer encoded, so the model's reads return the
  optional value. A prefix scan visits a namespace in key order: keys are big-endian, so this is
  the order of the keys' components.
\<close>

record chain_state =
  st_accounts :: "(address, AccountState) fmap"
  st_balances :: "(address, u64) fmap"
  st_asset_classes :: "(hash, AssetClass) fmap"
  st_asset_balances :: "(hash \<times> address, u64) fmap"
  st_validators :: "(address, ValidatorInfo) fmap"
  st_delegations :: "(address \<times> address, Delegation) fmap"
  st_unbondings :: "(address \<times> u64 \<times> u8, UnbondingEntry) fmap"
  st_unbonding_index :: "(u64 \<times> address \<times> u8, UnbondingEntry) fmap"
  st_listings :: "(hash, Listing) fmap"
  st_profiles :: "(address, PlayerProfile) fmap"
  st_achievements :: "(address \<times> string, Achievement) fmap"
  st_attestors :: "(address, Attestor) fmap"
  st_match_results :: "(hash, MatchResult) fmap"
  st_match_settlements :: "(hash, MatchSettlement) fmap"
  st_proposals :: "(hash, GovProposal) fmap"
  st_votes :: "(hash \<times> address, GovVote) fmap"
  st_proposal_list :: "hash list option"
  st_rentals :: "(hash, Rental) fmap"
  st_rentals_by_owner :: "(address \<times> hash, bool) fmap"
  st_rentals_by_renter :: "(address \<times> hash, bool) fmap"
  st_guilds :: "(hash, Guild) fmap"
  st_guild_members :: "(hash \<times> address, GuildMembership) fmap"
  st_member_guilds :: "(address \<times> hash, bool) fmap"
  st_tournaments :: "(hash, Tournament) fmap"
  st_tournament_participants :: "(hash \<times> address, bool) fmap"
  st_sessions :: "(address \<times> address, SessionGrant) fmap"
  st_receipts :: "(hash, TransactionReceipt) fmap"
  st_tx_locations :: "(hash, TxLocation) fmap"
  st_block_events :: "(u64, Event list) fmap"
  st_epochs :: "(u64, EpochInfo) fmap"
  st_active_validator_set :: "address list option"
  st_supply_info :: "SupplyInfo option"
  st_equivocations :: "(address \<times> u64, EquivocationEvidence) fmap"
  st_chain_height :: "u64 option"
  st_latest_hash :: "hash option"
  st_blocks :: "(u64, Block) fmap"

definition empty_state :: chain_state where
  "empty_state =
     \<lparr>st_accounts = fmempty,
      st_balances = fmempty,
      st_asset_classes = fmempty,
      st_asset_balances = fmempty,
      st_validators = fmempty,
      st_delegations = fmempty,
      st_unbondings = fmempty,
      st_unbonding_index = fmempty,
      st_listings = fmempty,
      st_profiles = fmempty,
      st_achievements = fmempty,
      st_attestors = fmempty,
      st_match_results = fmempty,
      st_match_settlements = fmempty,
      st_proposals = fmempty,
      st_votes = fmempty,
      st_proposal_list = None,
      st_rentals = fmempty,
      st_rentals_by_owner = fmempty,
      st_rentals_by_renter = fmempty,
      st_guilds = fmempty,
      st_guild_members = fmempty,
      st_member_guilds = fmempty,
      st_tournaments = fmempty,
      st_tournament_participants = fmempty,
      st_sessions = fmempty,
      st_receipts = fmempty,
      st_tx_locations = fmempty,
      st_block_events = fmempty,
      st_epochs = fmempty,
      st_active_validator_set = None,
      st_supply_info = None,
      st_equivocations = fmempty,
      st_chain_height = None,
      st_latest_hash = None,
      st_blocks = fmempty\<rparr>"

text \<open>
  What a handler returns: its result, and the store as it leaves it (also when it fails).
\<close>

type_synonym 'a outcome = "(ExecutionError, 'a) result \<times> chain_state"

subsection \<open>Reads: \<open>StateView\<close>\<close>

definition get_account :: "chain_state \<Rightarrow> address \<Rightarrow> AccountState option" where [state_defs]:
  "get_account s addr = fmlookup (st_accounts s) addr"

definition get_balance :: "chain_state \<Rightarrow> address \<Rightarrow> u64" where [state_defs]:
  "get_balance s addr = unwrap_or (fmlookup (st_balances s) addr) 0"

definition get_asset_class :: "chain_state \<Rightarrow> hash \<Rightarrow> AssetClass option" where [state_defs]:
  "get_asset_class s i = fmlookup (st_asset_classes s) i"

definition get_asset_balance :: "chain_state \<Rightarrow> hash \<Rightarrow> address \<Rightarrow> u64" where [state_defs]:
  "get_asset_balance s cls own = unwrap_or (fmlookup (st_asset_balances s) (cls, own)) 0"

definition get_validator :: "chain_state \<Rightarrow> address \<Rightarrow> ValidatorInfo option" where [state_defs]:
  "get_validator s addr = fmlookup (st_validators s) addr"

definition get_delegation :: "chain_state \<Rightarrow> address \<Rightarrow> address \<Rightarrow> Delegation option" where [state_defs]:
  "get_delegation s d v = fmlookup (st_delegations s) (d, v)"

text \<open>All unbonding entries of a delegator, by completion height and index.\<close>

definition get_unbonding_entries :: "chain_state \<Rightarrow> address \<Rightarrow> UnbondingEntry list" where [state_defs]:
  "get_unbonding_entries s d =
     map snd (filter (\<lambda>((d', _, _), _). d' = d) (sorted_list_of_fmap (st_unbondings s)))"

text \<open>
  The scan of the height-ordered index stops (\<open>break\<close>) at the first entry that is not mature.
\<close>

definition get_mature_unbondings :: "chain_state \<Rightarrow> u64 \<Rightarrow> (UnbondingEntry \<times> u8) list" where [state_defs]:
  "get_mature_unbondings s current_height =
     map (\<lambda>((h, d, i), e). (e, i))
       (takeWhile (\<lambda>((h, d, i), e). h \<le> current_height) (sorted_list_of_fmap (st_unbonding_index s)))"

definition get_listing :: "chain_state \<Rightarrow> hash \<Rightarrow> Listing option" where [state_defs]:
  "get_listing s i = fmlookup (st_listings s) i"

definition get_profile :: "chain_state \<Rightarrow> address \<Rightarrow> PlayerProfile option" where [state_defs]:
  "get_profile s addr = fmlookup (st_profiles s) addr"

definition get_achievement :: "chain_state \<Rightarrow> address \<Rightarrow> string \<Rightarrow> Achievement option" where [state_defs]:
  "get_achievement s addr i = fmlookup (st_achievements s) (addr, i)"

definition get_attestor :: "chain_state \<Rightarrow> address \<Rightarrow> Attestor option" where [state_defs]:
  "get_attestor s addr = fmlookup (st_attestors s) addr"

definition get_match_result :: "chain_state \<Rightarrow> hash \<Rightarrow> MatchResult option" where [state_defs]:
  "get_match_result s i = fmlookup (st_match_results s) i"

definition get_match_settlement :: "chain_state \<Rightarrow> hash \<Rightarrow> MatchSettlement option" where [state_defs]:
  "get_match_settlement s i = fmlookup (st_match_settlements s) i"

definition get_proposal :: "chain_state \<Rightarrow> hash \<Rightarrow> GovProposal option" where [state_defs]:
  "get_proposal s i = fmlookup (st_proposals s) i"

definition get_vote :: "chain_state \<Rightarrow> hash \<Rightarrow> address \<Rightarrow> GovVote option" where [state_defs]:
  "get_vote s i voter = fmlookup (st_votes s) (i, voter)"

definition get_proposal_list :: "chain_state \<Rightarrow> hash list" where [state_defs]:
  "get_proposal_list s = unwrap_or (st_proposal_list s) []"

definition get_rental :: "chain_state \<Rightarrow> hash \<Rightarrow> Rental option" where [state_defs]:
  "get_rental s i = fmlookup (st_rentals s) i"

definition get_rentals_by_owner :: "chain_state \<Rightarrow> address \<Rightarrow> hash list" where [state_defs]:
  "get_rentals_by_owner s own =
     map (snd \<circ> fst) (filter (\<lambda>((o', _), _). o' = own) (sorted_list_of_fmap (st_rentals_by_owner s)))"

definition get_rentals_by_renter :: "chain_state \<Rightarrow> address \<Rightarrow> hash list" where [state_defs]:
  "get_rentals_by_renter s renter =
     map (snd \<circ> fst) (filter (\<lambda>((o', _), _). o' = renter) (sorted_list_of_fmap (st_rentals_by_renter s)))"

definition get_guild :: "chain_state \<Rightarrow> hash \<Rightarrow> Guild option" where [state_defs]:
  "get_guild s i = fmlookup (st_guilds s) i"

definition get_guild_membership :: "chain_state \<Rightarrow> hash \<Rightarrow> address \<Rightarrow> GuildMembership option" where [state_defs]:
  "get_guild_membership s i mem = fmlookup (st_guild_members s) (i, mem)"

definition get_guild_members :: "chain_state \<Rightarrow> hash \<Rightarrow> GuildMembership list" where [state_defs]:
  "get_guild_members s i =
     map snd (filter (\<lambda>((i', _), _). i' = i) (sorted_list_of_fmap (st_guild_members s)))"

definition get_member_guilds :: "chain_state \<Rightarrow> address \<Rightarrow> hash list" where [state_defs]:
  "get_member_guilds s mem =
     map (snd \<circ> fst) (filter (\<lambda>((m', _), _). m' = mem) (sorted_list_of_fmap (st_member_guilds s)))"

definition get_tournament :: "chain_state \<Rightarrow> hash \<Rightarrow> Tournament option" where [state_defs]:
  "get_tournament s i = fmlookup (st_tournaments s) i"

definition is_tournament_participant :: "chain_state \<Rightarrow> hash \<Rightarrow> address \<Rightarrow> bool" where [state_defs]:
  "is_tournament_participant s i p =
     unwrap_or (fmlookup (st_tournament_participants s) (i, p)) False"

definition get_session :: "chain_state \<Rightarrow> address \<Rightarrow> address \<Rightarrow> SessionGrant option" where [state_defs]:
  "get_session s granter sess = fmlookup (st_sessions s) (granter, sess)"

definition get_sessions_for_granter :: "chain_state \<Rightarrow> address \<Rightarrow> SessionGrant list" where [state_defs]:
  "get_sessions_for_granter s granter =
     map snd (filter (\<lambda>((g', _), _). g' = granter) (sorted_list_of_fmap (st_sessions s)))"

definition get_receipt :: "chain_state \<Rightarrow> hash \<Rightarrow> TransactionReceipt option" where [state_defs]:
  "get_receipt s h = fmlookup (st_receipts s) h"

definition get_tx_location :: "chain_state \<Rightarrow> hash \<Rightarrow> TxLocation option" where [state_defs]:
  "get_tx_location s h = fmlookup (st_tx_locations s) h"

definition get_block_events :: "chain_state \<Rightarrow> u64 \<Rightarrow> Event list option" where [state_defs]:
  "get_block_events s height = fmlookup (st_block_events s) height"

definition get_epoch_info :: "chain_state \<Rightarrow> u64 \<Rightarrow> EpochInfo option" where [state_defs]:
  "get_epoch_info s e = fmlookup (st_epochs s) e"

definition get_chain_height :: "chain_state \<Rightarrow> u64" where [state_defs]:
  "get_chain_height s = unwrap_or (st_chain_height s) 0"

text \<open>A division by an epoch length of zero panics.\<close>

definition get_current_epoch :: "chain_state \<Rightarrow> u64 \<Rightarrow> ('e, u64) result" where [state_defs]:
  "get_current_epoch s epoch_length =
     (if epoch_length = 0 then Panic else Ok (get_chain_height s div epoch_length))"

definition get_active_validator_set :: "chain_state \<Rightarrow> address list option" where [state_defs]:
  "get_active_validator_set s = st_active_validator_set s"

definition get_supply_info :: "chain_state \<Rightarrow> SupplyInfo option" where [state_defs]:
  "get_supply_info s = st_supply_info s"

definition get_equivocation_evidence :: "chain_state \<Rightarrow> address \<Rightarrow> u64 \<Rightarrow> EquivocationEvidence option" where [state_defs]:
  "get_equivocation_evidence s v height = fmlookup (st_equivocations s) (v, height)"

definition get_equivocation_evidence_for_validator :: "chain_state \<Rightarrow> address \<Rightarrow> EquivocationEvidence list" where [state_defs]:
  "get_equivocation_evidence_for_validator s v =
     map snd (filter (\<lambda>((v', _), _). v' = v) (sorted_list_of_fmap (st_equivocations s)))"

definition get_latest_hash :: "chain_state \<Rightarrow> hash" where [state_defs]:
  "get_latest_hash s = unwrap_or (st_latest_hash s) ZERO"

definition get_block :: "chain_state \<Rightarrow> u64 \<Rightarrow> Block option" where [state_defs]:
  "get_block s height = fmlookup (st_blocks s) height"

subsection \<open>Writes: \<open>StateWriter\<close>\<close>

definition set_account :: "AccountState \<Rightarrow> chain_state \<Rightarrow> chain_state" where [state_defs]:
  "set_account a s = s\<lparr>st_accounts := fmupd (acct_address a) a (st_accounts s)\<rparr>"

definition set_balance :: "address \<Rightarrow> u64 \<Rightarrow> chain_state \<Rightarrow> chain_state" where [state_defs]:
  "set_balance addr b s = s\<lparr>st_balances := fmupd addr b (st_balances s)\<rparr>"

definition set_asset_class :: "AssetClass \<Rightarrow> chain_state \<Rightarrow> chain_state" where [state_defs]:
  "set_asset_class c s = s\<lparr>st_asset_classes := fmupd (ac_id c) c (st_asset_classes s)\<rparr>"

definition set_asset_balance :: "hash \<Rightarrow> address \<Rightarrow> u64 \<Rightarrow> chain_state \<Rightarrow> chain_state" where [state_defs]:
  "set_asset_balance cls own b s = s\<lparr>st_asset_balances := fmupd (cls, own) b (st_asset_balances s)\<rparr>"

definition set_validator :: "ValidatorInfo \<Rightarrow> chain_state \<Rightarrow> chain_state" where [state_defs]:
  "set_validator v s = s\<lparr>st_validators := fmupd (val_address v) v (st_validators s)\<rparr>"

definition set_delegation :: "Delegation \<Rightarrow> chain_state \<Rightarrow> chain_state" where [state_defs]:
  "set_delegation d s = s\<lparr>st_delegations := fmupd (del_delegator d, del_validator d) d (st_delegations s)\<rparr>"

definition set_unbonding_entry :: "UnbondingEntry \<Rightarrow> u8 \<Rightarrow> chain_state \<Rightarrow> chain_state" where [state_defs]:
  "set_unbonding_entry e i s =
     s\<lparr>st_unbondings := fmupd (ub_delegator e, ub_completion_height e, i) e (st_unbondings s),
       st_unbonding_index :=
         fmupd (ub_completion_height e, ub_delegator e, i) e (st_unbonding_index s)\<rparr>"

definition delete_unbonding_entry :: "address \<Rightarrow> u64 \<Rightarrow> u8 \<Rightarrow> chain_state \<Rightarrow> chain_state" where [state_defs]:
  "delete_unbonding_entry d h i s =
     s\<lparr>st_unbondings := fmdrop (d, h, i) (st_unbondings s),
       st_unbonding_index := fmdrop (h, d, i) (st_unbonding_index s)\<rparr>"

definition set_listing :: "Listing \<Rightarrow> chain_state \<Rightarrow> chain_state" where [state_defs]:
  "set_listing l s = s\<lparr>st_listings := fmupd (lst_id l) l (st_listings s)\<rparr>"

definition set_profile :: "PlayerProfile \<Rightarrow> chain_state \<Rightarrow> chain_state" where [state_defs]:
  "set_profile p s = s\<lparr>st_profiles := fmupd (prof_address p) p (st_profiles s)\<rparr>"

definition set_achievement :: "Achievement \<Rightarrow> chain_state \<Rightarrow> chain_state" where [state_defs]:
  "set_achievement a s = s\<lparr>st_achievements := fmupd (ach_player a, ach_id a) a (st_achievements s)\<rparr>"

definition set_attestor :: "Attestor \<Rightarrow> chain_state \<Rightarrow> chain_state" where [state_defs]:
  "set_attestor a s = s\<lparr>st_attestors := fmupd (att_address a) a (st_attestors s)\<rparr>"

definition set_match_result :: "MatchResult \<Rightarrow> chain_state \<Rightarrow> chain_state" where [state_defs]:
  "set_match_result r s = s\<lparr>st_match_results := fmupd (mr_match_id r) r (st_match_results s)\<rparr>"

definition set_match_settlement :: "MatchSettlement \<Rightarrow> chain_state \<Rightarrow> chain_state" where [state_defs]:
  "set_match_settlement m s = s\<lparr>st_match_settlements := fmupd (ms_match_id m) m (st_match_settlements s)\<rparr>"

definition set_proposal :: "GovProposal \<Rightarrow> chain_state \<Rightarrow> chain_state" where [state_defs]:
  "set_proposal p s = s\<lparr>st_proposals := fmupd (prp_id p) p (st_proposals s)\<rparr>"

definition set_vote :: "GovVote \<Rightarrow> chain_state \<Rightarrow> chain_state" where [state_defs]:
  "set_vote v s = s\<lparr>st_votes := fmupd (gv_proposal_id v, gv_voter v) v (st_votes s)\<rparr>"

definition set_proposal_list :: "hash list \<Rightarrow> chain_state \<Rightarrow> chain_state" where [state_defs]:
  "set_proposal_list l s = s\<lparr>st_proposal_list := Some l\<rparr>"

definition set_rental :: "Rental \<Rightarrow> chain_state \<Rightarrow> chain_state" where [state_defs]:
  "set_rental r s =
     s\<lparr>st_rentals := fmupd (rnt_rental_id r) r (st_rentals s),
       st_rentals_by_owner := fmupd (rnt_owner r, rnt_rental_id r) True (st_rentals_by_owner s),
       st_rentals_by_renter :=
         (case rnt_renter r of
            None \<Rightarrow> st_rentals_by_renter s
          | Some renter \<Rightarrow> fmupd (renter, rnt_rental_id r) True (st_rentals_by_renter s))\<rparr>"

definition delete_rental :: "hash \<Rightarrow> address \<Rightarrow> address option \<Rightarrow> chain_state \<Rightarrow> chain_state" where [state_defs]:
  "delete_rental i own renter s =
     s\<lparr>st_rentals := fmdrop i (st_rentals s),
       st_rentals_by_owner := fmdrop (own, i) (st_rentals_by_owner s),
       st_rentals_by_renter :=
         (case renter of
            None \<Rightarrow> st_rentals_by_renter s
          | Some r \<Rightarrow> fmdrop (r, i) (st_rentals_by_renter s))\<rparr>"

definition set_guild :: "Guild \<Rightarrow> chain_state \<Rightarrow> chain_state" where [state_defs]:
  "set_guild g s = s\<lparr>st_guilds := fmupd (gld_guild_id g) g (st_guilds s)\<rparr>"

definition delete_guild :: "hash \<Rightarrow> chain_state \<Rightarrow> chain_state" where [state_defs]:
  "delete_guild i s = s\<lparr>st_guilds := fmdrop i (st_guilds s)\<rparr>"

definition set_guild_membership :: "GuildMembership \<Rightarrow> chain_state \<Rightarrow> chain_state" where [state_defs]:
  "set_guild_membership m s =
     s\<lparr>st_guild_members := fmupd (gm_guild_id m, gm_member m) m (st_guild_members s),
       st_member_guilds := fmupd (gm_member m, gm_guild_id m) True (st_member_guilds s)\<rparr>"

definition delete_guild_membership :: "hash \<Rightarrow> address \<Rightarrow> chain_state \<Rightarrow> chain_state" where [state_defs]:
  "delete_guild_membership i mem s =
     s\<lparr>st_guild_members := fmdrop (i, mem) (st_guild_members s),
       st_member_guilds := fmdrop (mem, i) (st_member_guilds s)\<rparr>"

definition set_tournament :: "Tournament \<Rightarrow> chain_state \<Rightarrow> chain_state" where [state_defs]:
  "set_tournament t s = s\<lparr>st_tournaments := fmupd (trn_tournament_id t) t (st_tournaments s)\<rparr>"

definition set_tournament_participant :: "hash \<Rightarrow> address \<Rightarrow> chain_state \<Rightarrow> chain_state" where [state_defs]:
  "set_tournament_participant i p s =
     s\<lparr>st_tournament_participants := fmupd (i, p) True (st_tournament_participants s)\<rparr>"

definition delete_tournament_participant :: "hash \<Rightarrow> address \<Rightarrow> chain_state \<Rightarrow> chain_state" where [state_defs]:
  "delete_tournament_participant i p s =
     s\<lparr>st_tournament_participants := fmdrop (i, p) (st_tournament_participants s)\<rparr>"

definition set_session :: "SessionGrant \<Rightarrow> chain_state \<Rightarrow> chain_state" where [state_defs]:
  "set_session g s = s\<lparr>st_sessions := fmupd (ses_granter g, ses_session_address g) g (st_sessions s)\<rparr>"

definition set_receipt :: "TransactionReceipt \<Rightarrow> chain_state \<Rightarrow> chain_state" where [state_defs]:
  "set_receipt r s = s\<lparr>st_receipts := fmupd (rcp_tx_hash r) r (st_receipts s)\<rparr>"

definition set_tx_location :: "hash \<Rightarrow> TxLocation \<Rightarrow> chain_state \<Rightarrow> chain_state" where [state_defs]:
  "set_tx_location h l s = s\<lparr>st_tx_locations := fmupd h l (st_tx_locations s)\<rparr>"

definition set_block_events :: "u64 \<Rightarrow> Event list \<Rightarrow> chain_state \<Rightarrow> chain_state" where [state_defs]:
  "set_block_events height es s = s\<lparr>st_block_events := fmupd height es (st_block_events s)\<rparr>"

definition set_epoch_info :: "EpochInfo \<Rightarrow> chain_state \<Rightarrow> chain_state" where [state_defs]:
  "set_epoch_info e s = s\<lparr>st_epochs := fmupd (ep_epoch e) e (st_epochs s)\<rparr>"

definition set_active_validator_set :: "address list \<Rightarrow> chain_state \<Rightarrow> chain_state" where [state_defs]:
  "set_active_validator_set vs s = s\<lparr>st_active_validator_set := Some vs\<rparr>"

definition set_supply_info :: "SupplyInfo \<Rightarrow> chain_state \<Rightarrow> chain_state" where [state_defs]:
  "set_supply_info i s = s\<lparr>st_supply_info := Some i\<rparr>"

definition set_equivocation_evidence :: "EquivocationEvidence \<Rightarrow> chain_state \<Rightarrow> chain_state" where [state_defs]:
  "set_equivocation_evidence e s = s\<lparr>st_equivocations := fmupd (eq_validator e, eq_height e) e (st_equivocations s)\<rparr>"

definition set_chain_height :: "u64 \<Rightarrow> chain_state \<Rightarrow> chain_state" where [state_defs]:
  "set_chain_height h s = s\<lparr>st_chain_height := Some h\<rparr>"

definition set_latest_hash :: "hash \<Rightarrow> chain_state \<Rightarrow> chain_state" where [state_defs]:
  "set_latest_hash h s = s\<lparr>st_latest_hash := Some h\<rparr>"

definition store_block :: "Block \<Rightarrow> chain_state \<Rightarrow> chain_state" where [state_defs]:
  "store_block b s = s\<lparr>st_blocks := fmupd (block_height b) b (st_blocks s)\<rparr>"

subsection \<open>Well-formed states\<close>

text \<open>
  A record is stored under the key its own fields give, and the two-way indexes agree: an
  unbonding entry is in the per-delegator and in the by-height namespace, a rental is listed
  under its owner and its renter, a membership under its guild and its member.
\<close>

definition keyed :: "('v \<Rightarrow> 'k) \<Rightarrow> ('k, 'v) fmap \<Rightarrow> bool" where
  "keyed key m \<longleftrightarrow> (\<forall>k v. fmlookup m k = Some v \<longrightarrow> key v = k)"

definition unbondings_mirrored :: "chain_state \<Rightarrow> bool" where
  "unbondings_mirrored s \<longleftrightarrow>
     (\<forall>d h i. fmlookup (st_unbonding_index s) (h, d, i) = fmlookup (st_unbondings s) (d, h, i)) \<and>
     (\<forall>d h i e. fmlookup (st_unbondings s) (d, h, i) = Some e \<longrightarrow>
        ub_delegator e = d \<and> ub_completion_height e = h)"

definition rentals_indexed :: "chain_state \<Rightarrow> bool" where
  "rentals_indexed s \<longleftrightarrow>
     (\<forall>i r. fmlookup (st_rentals s) i = Some r \<longrightarrow>
        fmlookup (st_rentals_by_owner s) (rnt_owner r, i) = Some True \<and>
        (\<forall>q. rnt_renter r = Some q \<longrightarrow> fmlookup (st_rentals_by_renter s) (q, i) = Some True))"

definition members_indexed :: "chain_state \<Rightarrow> bool" where
  "members_indexed s \<longleftrightarrow>
     (\<forall>g m. fmlookup (st_member_guilds s) (m, g) = None \<longleftrightarrow>
            fmlookup (st_guild_members s) (g, m) = None)"

definition wf_state :: "chain_state \<Rightarrow> bool" where
  "wf_state s \<longleftrightarrow>
     keyed acct_address (st_accounts s) \<and>
     keyed ac_id (st_asset_classes s) \<and>
     keyed val_address (st_validators s) \<and>
     keyed (\<lambda>d. (del_delegator d, del_validator d)) (st_delegations s) \<and>
     keyed lst_id (st_listings s) \<and>
     keyed prof_address (st_profiles s) \<and>
     keyed (\<lambda>a. (ach_player a, ach_id a)) (st_achievements s) \<and>
     keyed att_address (st_attestors s) \<and>
     keyed mr_match_id (st_match_results s) \<and>
     keyed ms_match_id (st_match_settlements s) \<and>
     keyed prp_id (st_proposals s) \<and>
     keyed (\<lambda>v. (gv_proposal_id v, gv_voter v)) (st_votes s) \<and>
     keyed rnt_rental_id (st_rentals s) \<and>
     keyed gld_guild_id (st_guilds s) \<and>
     keyed (\<lambda>m. (gm_guild_id m, gm_member m)) (st_guild_members s) \<and>
     keyed trn_tournament_id (st_tournaments s) \<and>
     keyed (\<lambda>g. (ses_granter g, ses_session_address g)) (st_sessions s) \<and>
     keyed rcp_tx_hash (st_receipts s) \<and>
     keyed ep_epoch (st_epochs s) \<and>
     keyed (\<lambda>e. (eq_validator e, eq_height e)) (st_equivocations s) \<and>
     keyed block_height (st_blocks s) \<and>
     unbondings_mirrored s \<and> rentals_indexed s \<and> members_indexed s"

lemma keyed_empty [simp]: "keyed key fmempty"
  by (simp add: keyed_def)

lemma keyed_upd [simp]: "keyed key m \<Longrightarrow> key v = k \<Longrightarrow> keyed key (fmupd k v m)"
  by (simp add: keyed_def)

lemma keyed_drop [simp]: "keyed key m \<Longrightarrow> keyed key (fmdrop k m)"
  by (simp add: keyed_def)

lemma keyedD: "keyed key m \<Longrightarrow> fmlookup m k = Some v \<Longrightarrow> key v = k"
  by (simp add: keyed_def)

lemma wf_empty_state: "wf_state empty_state"
  by (simp add: wf_state_def empty_state_def unbondings_mirrored_def rentals_indexed_def
      members_indexed_def)

lemma wf_keys:
  assumes "wf_state s"
  shows
    "get_account s k = Some v1 \<Longrightarrow> acct_address v1 = k"
    "get_asset_class s k = Some v2 \<Longrightarrow> ac_id v2 = k"
    "get_validator s k = Some v3 \<Longrightarrow> val_address v3 = k"
    "get_listing s k = Some v4 \<Longrightarrow> lst_id v4 = k"
    "get_profile s k = Some v5 \<Longrightarrow> prof_address v5 = k"
    "get_attestor s k = Some v6 \<Longrightarrow> att_address v6 = k"
    "get_match_result s k = Some v7 \<Longrightarrow> mr_match_id v7 = k"
    "get_match_settlement s k = Some v8 \<Longrightarrow> ms_match_id v8 = k"
    "get_proposal s k = Some v9 \<Longrightarrow> prp_id v9 = k"
    "get_rental s k = Some v10 \<Longrightarrow> rnt_rental_id v10 = k"
    "get_guild s k = Some v11 \<Longrightarrow> gld_guild_id v11 = k"
    "get_tournament s k = Some v12 \<Longrightarrow> trn_tournament_id v12 = k"
    "get_delegation s d v = Some v13 \<Longrightarrow> del_delegator v13 = d \<and> del_validator v13 = v"
    "get_guild_membership s k m = Some v14 \<Longrightarrow> gm_guild_id v14 = k \<and> gm_member v14 = m"
    "get_session s g a = Some v15 \<Longrightarrow> ses_granter v15 = g \<and> ses_session_address v15 = a"
  using assms by (auto simp: wf_state_def state_defs dest: keyedD)

text \<open>Every write of the \<open>StateWriter\<close> keeps a state well-formed.\<close>

named_theorems wf_intros \<open>the writes keep the state well-formed\<close>

lemma wf_writes [wf_intros]:
  assumes "wf_state s"
  shows
    "wf_state (set_account x1 s)"
    "wf_state (set_balance x2 x3 s)"
    "wf_state (set_asset_class x4 s)"
    "wf_state (set_asset_balance x5 x6 x7 s)"
    "wf_state (set_validator x8 s)"
    "wf_state (set_delegation x9 s)"
    "wf_state (set_listing x10 s)"
    "wf_state (set_profile x11 s)"
    "wf_state (set_achievement x12 s)"
    "wf_state (set_attestor x13 s)"
    "wf_state (set_match_result x14 s)"
    "wf_state (set_match_settlement x15 s)"
    "wf_state (set_proposal x16 s)"
    "wf_state (set_vote x17 s)"
    "wf_state (set_proposal_list x18 s)"
    "wf_state (set_guild x19 s)"
    "wf_state (delete_guild x20 s)"
    "wf_state (set_tournament x21 s)"
    "wf_state (set_tournament_participant x22 x23 s)"
    "wf_state (delete_tournament_participant x24 x25 s)"
    "wf_state (set_session x26 s)"
    "wf_state (set_receipt x27 s)"
    "wf_state (set_tx_location x28 x29 s)"
    "wf_state (set_block_events x30 x31 s)"
    "wf_state (set_epoch_info x32 s)"
    "wf_state (set_active_validator_set x33 s)"
    "wf_state (set_supply_info x34 s)"
    "wf_state (set_equivocation_evidence x35 s)"
    "wf_state (set_chain_height x36 s)"
    "wf_state (set_latest_hash x37 s)"
    "wf_state (store_block x38 s)"
  using assms
  by (simp_all add: wf_state_def state_defs unbondings_mirrored_def rentals_indexed_def
      members_indexed_def)

lemma wf_unbonding_writes [wf_intros]:
  assumes "wf_state s"
  shows "wf_state (set_unbonding_entry e i s)" "wf_state (delete_unbonding_entry d h i s)"
  using assms
  by (simp_all add: wf_state_def state_defs unbondings_mirrored_def rentals_indexed_def
      members_indexed_def)

lemma wf_rental_writes [wf_intros]:
  assumes "wf_state s"
  shows "wf_state (set_rental r s)" "wf_state (delete_rental i a q s)"
  using assms
  by (auto simp: wf_state_def state_defs unbondings_mirrored_def rentals_indexed_def
      members_indexed_def split: option.splits)

lemma wf_membership_writes [wf_intros]:
  assumes "wf_state s"
  shows "wf_state (set_guild_membership m s)" "wf_state (delete_guild_membership i a s)"
  using assms
  by (simp_all add: wf_state_def state_defs unbondings_mirrored_def rentals_indexed_def
      members_indexed_def)

end
