(* ===== verification/Polay_Ledger.thy ===== *)
theory Polay_Ledger
  imports Polay_State
begin

section \<open>The native-token ledger\<close>

text \<open>
  Native tokens sit in account balances and in the pots that handlers escrow them in: delegated
  stake, unbonding entries, guild treasuries, tournament prize pools, the deposits of active
  rentals and the deposits of proposals under vote. \<open>ledger_total\<close> adds all of them up; it is the
  specification-level quantity that the conservation theorems of the handlers are about. Each
  namespace is an instance of the contract \<open>pot\<close>: a write replaces the holding of the key it
  writes and nothing else. Asset units form a second family of ledgers, one per asset class.
\<close>

subsection \<open>Pots\<close>

definition held :: "('s \<Rightarrow> 'k \<Rightarrow> 'v option) \<Rightarrow> ('v \<Rightarrow> nat) \<Rightarrow> 's \<Rightarrow> 'k \<Rightarrow> nat" where
  "held look weight s k = (case look s k of None \<Rightarrow> 0 | Some v \<Rightarrow> weight v)"

lemma held_simps [simp]:
  "look s k = None \<Longrightarrow> held look weight s k = 0"
  "look s k = Some v \<Longrightarrow> held look weight s k = weight v"
  by (simp_all add: held_def)

locale pot =
  fixes look :: "'s \<Rightarrow> 'k \<Rightarrow> 'v option"
    and wr :: "'v \<Rightarrow> 's \<Rightarrow> 's"
    and key :: "'v \<Rightarrow> 'k"
    and weight :: "'v \<Rightarrow> nat"
    and total :: "'s \<Rightarrow> nat"
  assumes look_write: "look (wr v s) k = (if k = key v then Some v else look s k)"
    and total_write: "total (wr v s) + held look weight s (key v) = total s + weight v"
    and held_le: "held look weight s k \<le> total s"
    and held_two_le: "k \<noteq> k' \<Longrightarrow> held look weight s k + held look weight s k' \<le> total s"
begin

lemma held_write: "held look weight (wr v s) k = (if k = key v then weight v else held look weight s k)"
  by (simp add: held_def look_write)

lemma total_write_eq: "total (wr v s) = total s - held look weight s (key v) + weight v"
  using total_write [of v s] held_le [of s "key v"] by linarith

text \<open>Overwriting a record by one of the same weight changes nothing.\<close>

lemma total_rewrite: "held look weight s (key v) = weight v \<Longrightarrow> total (wr v s) = total s"
  using total_write [of v s] by simp

text \<open>Moving an amount from one key to another, in the order debit, credit.\<close>

lemma total_move:
  assumes "weight v + amt = held look weight s (key v)"
    and "weight u = held look weight (wr v s) (key u) + amt"
  shows "total (wr u (wr v s)) = total s"
  using total_write [of u "wr v s"] total_write [of v s] assms by linarith

text \<open>
  After a debit of \<open>amt\<close> every key has room for a credit of \<open>amt\<close> below the total: when the
  total fits a machine integer, a credit cannot overflow.
\<close>

lemma room_after_debit:
  assumes "weight v + amt = held look weight s (key v)"
  shows "held look weight (wr v s) k + amt \<le> total s"
proof (cases "k = key v")
  case True
  then show ?thesis using assms held_le [of s "key v"] by (simp add: held_write)
next
  case False
  then show ?thesis using assms held_two_le [of k "key v" s] by (simp add: held_write)
qed

end

subsection \<open>Weights\<close>

definition balance_of :: "AccountState \<Rightarrow> nat" where
  "balance_of a = unat (acct_balance a)"

definition rental_escrow :: "Rental \<Rightarrow> nat" where
  "rental_escrow r = (if rnt_status r = RentalActive then unat (rnt_deposit r) else 0)"

definition proposal_escrow :: "GovProposal \<Rightarrow> nat" where
  "proposal_escrow p = (if prp_status p = ProposalVoting then unat (prp_deposit p) else 0)"

text \<open>What a tournament still holds: the pool less the prizes already claimed.\<close>

definition prize_at :: "Tournament \<Rightarrow> nat \<Rightarrow> u64" where
  "prize_at t i = trn_prize_pool t * ucast (trn_prize_distribution t ! i) div 100"

definition claimed_prizes :: "Tournament \<Rightarrow> nat" where
  "claimed_prizes t =
     (\<Sum>i\<leftarrow>[0..<length (trn_prizes_claimed t)]. if trn_prizes_claimed t ! i then unat (prize_at t i) else 0)"

definition tournament_escrow :: "Tournament \<Rightarrow> nat" where
  "tournament_escrow t = unat (trn_prize_pool t) - claimed_prizes t"

definition ledger_total :: "chain_state \<Rightarrow> nat" where
  "ledger_total s =
     fmsum balance_of (st_accounts s) + fmsum (\<lambda>d. unat (del_amount d)) (st_delegations s) +
     fmsum (\<lambda>e. unat (ub_amount e)) (st_unbondings s) +
     fmsum (\<lambda>g. unat (gld_treasury_balance g)) (st_guilds s) +
     fmsum tournament_escrow (st_tournaments s) + fmsum rental_escrow (st_rentals s) +
     fmsum proposal_escrow (st_proposals s)"

text \<open>The ledger as a whole fits a \<open>u64\<close>.\<close>

definition supply_fits :: "chain_state \<Rightarrow> bool" where
  "supply_fits s \<longleftrightarrow> ledger_total s < 2 ^ 64"

definition asset_total :: "hash \<Rightarrow> chain_state \<Rightarrow> nat" where
  "asset_total cls s = fmsum unat (fmfilter (\<lambda>(c, _). c = cls) (st_asset_balances s))"

definition balance_entry :: "hash \<Rightarrow> chain_state \<Rightarrow> address \<Rightarrow> (address \<times> u64) option" where
  "balance_entry cls s own = map_option (Pair own) (fmlookup (st_asset_balances s) (cls, own))"

subsection \<open>The pots of the chain state\<close>

declare fmfilter_cong [cong del]

text \<open>A namespace of the state is a pot of every total that is its sum plus something else.\<close>

lemma fmap_pot:
  assumes look: "\<And>s k. look s k = fmlookup (f s) k"
    and wr: "\<And>v s. f (wr v s) = fmupd (key v) v (f s)"
    and tot: "\<And>s. tot s = rest s + fmsum weight (f s)"
    and rest: "\<And>v s. rest (wr v s) = rest s"
  shows "pot look wr key weight tot"
proof
  have held: "held look weight s k = fmcontrib weight (f s) k" for s k
    by (simp add: held_def fmcontrib_def look)
  fix v s k k'
  show "look (wr v s) k = (if k = key v then Some v else look s k)"
    by (simp add: look wr)
  show "tot (wr v s) + held look weight s (key v) = tot s + weight v"
    using fmsum_upd_add [of weight "key v" v "f s"] by (simp add: held tot rest wr)
  show "held look weight s k \<le> tot s"
    using fmcontrib_le_fmsum [of weight "f s" k] by (simp add: held tot)
  show "k \<noteq> k' \<Longrightarrow> held look weight s k + held look weight s k' \<le> tot s"
    using fmsum_two_le [of k k' weight "f s"] by (simp add: held tot)
qed

interpretation accounts: pot get_account set_account acct_address balance_of ledger_total
  by (rule fmap_pot [where f = st_accounts and rest = "\<lambda>s. ledger_total s - fmsum balance_of (st_accounts s)"])
     (auto simp: state_defs ledger_total_def)

interpretation delegations: pot "\<lambda>s (d, v). get_delegation s d v" set_delegation "\<lambda>d. (del_delegator d, del_validator d)" "\<lambda>d. unat (del_amount d)" ledger_total
  by (rule fmap_pot [where f = st_delegations and rest = "\<lambda>s. ledger_total s - fmsum (\<lambda>d. unat (del_amount d)) (st_delegations s)"])
     (auto simp: state_defs ledger_total_def)

interpretation guilds: pot get_guild set_guild gld_guild_id "\<lambda>g. unat (gld_treasury_balance g)" ledger_total
  by (rule fmap_pot [where f = st_guilds and rest = "\<lambda>s. ledger_total s - fmsum (\<lambda>g. unat (gld_treasury_balance g)) (st_guilds s)"])
     (auto simp: state_defs ledger_total_def)

interpretation tournaments: pot get_tournament set_tournament trn_tournament_id tournament_escrow ledger_total
  by (rule fmap_pot [where f = st_tournaments and rest = "\<lambda>s. ledger_total s - fmsum tournament_escrow (st_tournaments s)"])
     (auto simp: state_defs ledger_total_def)

interpretation rentals: pot get_rental set_rental rnt_rental_id rental_escrow ledger_total
  by (rule fmap_pot [where f = st_rentals and rest = "\<lambda>s. ledger_total s - fmsum rental_escrow (st_rentals s)"])
     (auto simp: state_defs ledger_total_def)

interpretation proposals: pot get_proposal set_proposal prp_id proposal_escrow ledger_total
  by (rule fmap_pot [where f = st_proposals and rest = "\<lambda>s. ledger_total s - fmsum proposal_escrow (st_proposals s)"])
     (auto simp: state_defs ledger_total_def)

lemma held_balance_entry:
  "held (balance_entry cls) (\<lambda>p. unat (snd p)) s own = unat (get_asset_balance s cls own)"
  by (simp add: held_def balance_entry_def state_defs split: option.splits)

lemma asset_contrib:
  "fmcontrib unat (fmfilter (\<lambda>(c, _). c = cls) (st_asset_balances s)) (cls, own)
     = unat (get_asset_balance s cls own)"
  by (simp add: fmcontrib_def state_defs split: option.splits)

interpretation asset_units: pot "balance_entry cls" "\<lambda>(own, b). set_asset_balance cls own b" fst
  "\<lambda>p. unat (snd p)" "asset_total cls" for cls
proof (unfold_locales, goal_cases)
  case (1 v s k)
  then show ?case by (cases v) (simp add: balance_entry_def state_defs)
next
  case (2 v s)
  obtain own b where v: "v = (own, b)" by (cases v)
  show ?case
    using fmsum_upd_add [of unat "(cls, own)" b "fmfilter (\<lambda>(c, _). c = cls) (st_asset_balances s)"]
    unfolding held_balance_entry asset_contrib v
    by (simp add: asset_total_def set_asset_balance_def)
next
  case (3 s k)
  then show ?case
    using fmcontrib_le_fmsum [of unat "fmfilter (\<lambda>(c, _). c = cls) (st_asset_balances s)" "(cls, k)"]
    unfolding held_balance_entry asset_contrib by (simp add: asset_total_def)
next
  case (4 k k' s)
  then show ?case
    using fmsum_two_le [of "(cls, k)" "(cls, k')" unat
        "fmfilter (\<lambda>(c, _). c = cls) (st_asset_balances s)"]
    unfolding held_balance_entry asset_contrib by (simp add: asset_total_def)
qed

subsection \<open>Frames\<close>

text \<open>A write to one namespace is invisible to the reads of the others.\<close>

lemma get_account_frame [simp]:
  "get_account (set_delegation d1 s) a = get_account s a"
  "get_account (set_guild g1 s) a = get_account s a"
  "get_account (set_tournament t1 s) a = get_account s a"
  "get_account (set_rental r1 s) a = get_account s a"
  "get_account (set_proposal p1 s) a = get_account s a"
  "get_account (set_validator v1 s) a = get_account s a"
  "get_account (set_asset_class c1 s) a = get_account s a"
  "get_account (set_asset_balance h1 o1 b1 s) a = get_account s a"
  "get_account (set_listing l1 s) a = get_account s a"
  "get_account (set_guild_membership m1 s) a = get_account s a"
  "get_account (delete_guild_membership h2 o2 s) a = get_account s a"
  "get_account (set_tournament_participant h3 o3 s) a = get_account s a"
  "get_account (set_unbonding_entry e1 i1 s) a = get_account s a"
  "get_account (delete_unbonding_entry o4 n4 i4 s) a = get_account s a"
  "get_account (delete_guild h5 s) a = get_account s a"
  "get_account (set_attestor at1 s) a = get_account s a"
  "get_account (set_match_settlement ms1 s) a = get_account s a"
  "get_account (set_match_result mr1 s) a = get_account s a"
  "get_account (set_vote vo1 s) a = get_account s a"
  "get_account (set_proposal_list pl1 s) a = get_account s a"
  "get_account (set_session se1 s) a = get_account s a"
  by (simp_all add: state_defs)

lemma get_delegation_frame [simp]:
  "get_delegation (set_account a1 s) d v = get_delegation s d v"
  "get_delegation (set_guild g1 s) d v = get_delegation s d v"
  "get_delegation (set_tournament t1 s) d v = get_delegation s d v"
  "get_delegation (set_rental r1 s) d v = get_delegation s d v"
  "get_delegation (set_proposal p1 s) d v = get_delegation s d v"
  "get_delegation (set_validator v1 s) d v = get_delegation s d v"
  "get_delegation (set_asset_class c1 s) d v = get_delegation s d v"
  "get_delegation (set_asset_balance h1 o1 b1 s) d v = get_delegation s d v"
  "get_delegation (set_listing l1 s) d v = get_delegation s d v"
  "get_delegation (set_guild_membership m1 s) d v = get_delegation s d v"
  "get_delegation (delete_guild_membership h2 o2 s) d v = get_delegation s d v"
  "get_delegation (set_tournament_participant h3 o3 s) d v = get_delegation s d v"
  "get_delegation (set_unbonding_entry e1 i1 s) d v = get_delegation s d v"
  "get_delegation (delete_unbonding_entry o4 n4 i4 s) d v = get_delegation s d v"
  "get_delegation (delete_guild h5 s) d v = get_delegation s d v"
  "get_delegation (set_attestor at1 s) d v = get_delegation s d v"
  "get_delegation (set_match_settlement ms1 s) d v = get_delegation s d v"
  "get_delegation (set_match_result mr1 s) d v = get_delegation s d v"
  "get_delegation (set_vote vo1 s) d v = get_delegation s d v"
  "get_delegation (set_proposal_list pl1 s) d v = get_delegation s d v"
  "get_delegation (set_session se1 s) d v = get_delegation s d v"
  by (simp_all add: state_defs)

lemma get_guild_frame [simp]:
  "get_guild (set_account a1 s) i = get_guild s i"
  "get_guild (set_delegation d1 s) i = get_guild s i"
  "get_guild (set_tournament t1 s) i = get_guild s i"
  "get_guild (set_rental r1 s) i = get_guild s i"
  "get_guild (set_proposal p1 s) i = get_guild s i"
  "get_guild (set_validator v1 s) i = get_guild s i"
  "get_guild (set_asset_class c1 s) i = get_guild s i"
  "get_guild (set_asset_balance h1 o1 b1 s) i = get_guild s i"
  "get_guild (set_listing l1 s) i = get_guild s i"
  "get_guild (set_guild_membership m1 s) i = get_guild s i"
  "get_guild (delete_guild_membership h2 o2 s) i = get_guild s i"
  "get_guild (set_tournament_participant h3 o3 s) i = get_guild s i"
  "get_guild (set_unbonding_entry e1 i1 s) i = get_guild s i"
  "get_guild (delete_unbonding_entry o4 n4 i4 s) i = get_guild s i"
  "get_guild (set_attestor at1 s) i = get_guild s i"
  "get_guild (set_match_settlement ms1 s) i = get_guild s i"
  "get_guild (set_match_result mr1 s) i = get_guild s i"
  "get_guild (set_vote vo1 s) i = get_guild s i"
  "get_guild (set_proposal_list pl1 s) i = get_guild s i"
  "get_guild (set_session se1 s) i = get_guild s i"
  by (simp_all add: state_defs)

lemma get_tournament_frame [simp]:
  "get_tournament (set_account a1 s) i = get_tournament s i"
  "get_tournament (set_delegation d1 s) i = get_tournament s i"
  "get_tournament (set_guild g1 s) i = get_tournament s i"
  "get_tournament (set_rental r1 s) i = get_tournament s i"
  "get_tournament (set_proposal p1 s) i = get_tournament s i"
  "get_tournament (set_validator v1 s) i = get_tournament s i"
  "get_tournament (set_asset_class c1 s) i = get_tournament s i"
  "get_tournament (set_asset_balance h1 o1 b1 s) i = get_tournament s i"
  "get_tournament (set_listing l1 s) i = get_tournament s i"
  "get_tournament (set_guild_membership m1 s) i = get_tournament s i"
  "get_tournament (delete_guild_membership h2 o2 s) i = get_tournament s i"
  "get_tournament (set_tournament_participant h3 o3 s) i = get_tournament s i"
  "get_tournament (set_unbonding_entry e1 i1 s) i = get_tournament s i"
  "get_tournament (delete_unbonding_entry o4 n4 i4 s) i = get_tournament s i"
  "get_tournament (delete_guild h5 s) i = get_tournament s i"
  "get_tournament (set_attestor at1 s) i = get_tournament s i"
  "get_tournament (set_match_settlement ms1 s) i = get_tournament s i"
  "get_tournament (set_match_result mr1 s) i = get_tournament s i"
  "get_tournament (set_vote vo1 s) i = get_tournament s i"
  "get_tournament (set_proposal_list pl1 s) i = get_tournament s i"
  "get_tournament (set_session se1 s) i = get_tournament s i"
  by (simp_all add: state_defs)

lemma get_rental_frame [simp]:
  "get_rental (set_account a1 s) i = get_rental s i"
  "get_rental (set_delegation d1 s) i = get_rental s i"
  "get_rental (set_guild g1 s) i = get_rental s i"
  "get_rental (set_tournament t1 s) i = get_rental s i"
  "get_rental (set_proposal p1 s) i = get_rental s i"
  "get_rental (set_validator v1 s) i = get_rental s i"
  "get_rental (set_asset_class c1 s) i = get_rental s i"
  "get_rental (set_asset_balance h1 o1 b1 s) i = get_rental s i"
  "get_rental (set_listing l1 s) i = get_rental s i"
  "get_rental (set_guild_membership m1 s) i = get_rental s i"
  "get_rental (delete_guild_membership h2 o2 s) i = get_rental s i"
  "get_rental (set_tournament_participant h3 o3 s) i = get_rental s i"
  "get_rental (set_unbonding_entry e1 i1 s) i = get_rental s i"
  "get_rental (delete_unbonding_entry o4 n4 i4 s) i = get_rental s i"
  "get_rental (delete_guild h5 s) i = get_rental s i"
  "get_rental (set_attestor at1 s) i = get_rental s i"
  "get_rental (set_match_settlement ms1 s) i = get_rental s i"
  "get_rental (set_match_result mr1 s) i = get_rental s i"
  "get_rental (set_vote vo1 s) i = get_rental s i"
  "get_rental (set_proposal_list pl1 s) i = get_rental s i"
  "get_rental (set_session se1 s) i = get_rental s i"
  by (simp_all add: state_defs)

lemma get_proposal_frame [simp]:
  "get_proposal (set_account a1 s) i = get_proposal s i"
  "get_proposal (set_delegation d1 s) i = get_proposal s i"
  "get_proposal (set_guild g1 s) i = get_proposal s i"
  "get_proposal (set_tournament t1 s) i = get_proposal s i"
  "get_proposal (set_rental r1 s) i = get_proposal s i"
  "get_proposal (set_validator v1 s) i = get_proposal s i"
  "get_proposal (set_asset_class c1 s) i = get_proposal s i"
  "get_proposal (set_asset_balance h1 o1 b1 s) i = get_proposal s i"
  "get_proposal (set_listing l1 s) i = get_proposal s i"
  "get_proposal (set_guild_membership m1 s) i = get_proposal s i"
  "get_proposal (delete_guild_membership h2 o2 s) i = get_proposal s i"
  "get_proposal (set_tournament_participant h3 o3 s) i = get_proposal s i"
  "get_proposal (set_unbonding_entry e1 i1 s) i = get_proposal s i"
  "get_proposal (delete_unbonding_entry o4 n4 i4 s) i = get_proposal s i"
  "get_proposal (delete_guild h5 s) i = get_proposal s i"
  "get_proposal (set_attestor at1 s) i = get_proposal s i"
  "get_proposal (set_match_settlement ms1 s) i = get_proposal s i"
  "get_proposal (set_match_result mr1 s) i = get_proposal s i"
  "get_proposal (set_vote vo1 s) i = get_proposal s i"
  "get_proposal (set_proposal_list pl1 s) i = get_proposal s i"
  "get_proposal (set_session se1 s) i = get_proposal s i"
  by (simp_all add: state_defs)

lemma get_validator_frame [simp]:
  "get_validator (set_account a1 s) a = get_validator s a"
  "get_validator (set_delegation d1 s) a = get_validator s a"
  "get_validator (set_guild g1 s) a = get_validator s a"
  "get_validator (set_tournament t1 s) a = get_validator s a"
  "get_validator (set_rental r1 s) a = get_validator s a"
  "get_validator (set_proposal p1 s) a = get_validator s a"
  "get_validator (set_asset_class c1 s) a = get_validator s a"
  "get_validator (set_asset_balance h1 o1 b1 s) a = get_validator s a"
  "get_validator (set_listing l1 s) a = get_validator s a"
  "get_validator (set_guild_membership m1 s) a = get_validator s a"
  "get_validator (delete_guild_membership h2 o2 s) a = get_validator s a"
  "get_validator (set_tournament_participant h3 o3 s) a = get_validator s a"
  "get_validator (set_unbonding_entry e1 i1 s) a = get_validator s a"
  "get_validator (delete_unbonding_entry o4 n4 i4 s) a = get_validator s a"
  "get_validator (delete_guild h5 s) a = get_validator s a"
  "get_validator (set_attestor at1 s) a = get_validator s a"
  "get_validator (set_match_settlement ms1 s) a = get_validator s a"
  "get_validator (set_match_result mr1 s) a = get_validator s a"
  "get_validator (set_vote vo1 s) a = get_validator s a"
  "get_validator (set_proposal_list pl1 s) a = get_validator s a"
  "get_validator (set_session se1 s) a = get_validator s a"
  by (simp_all add: state_defs)

lemma get_asset_class_frame [simp]:
  "get_asset_class (set_account a1 s) i = get_asset_class s i"
  "get_asset_class (set_delegation d1 s) i = get_asset_class s i"
  "get_asset_class (set_guild g1 s) i = get_asset_class s i"
  "get_asset_class (set_tournament t1 s) i = get_asset_class s i"
  "get_asset_class (set_rental r1 s) i = get_asset_class s i"
  "get_asset_class (set_proposal p1 s) i = get_asset_class s i"
  "get_asset_class (set_validator v1 s) i = get_asset_class s i"
  "get_asset_class (set_asset_balance h1 o1 b1 s) i = get_asset_class s i"
  "get_asset_class (set_listing l1 s) i = get_asset_class s i"
  "get_asset_class (set_guild_membership m1 s) i = get_asset_class s i"
  "get_asset_class (delete_guild_membership h2 o2 s) i = get_asset_class s i"
  "get_asset_class (set_tournament_participant h3 o3 s) i = get_asset_class s i"
  "get_asset_class (set_unbonding_entry e1 i1 s) i = get_asset_class s i"
  "get_asset_class (delete_unbonding_entry o4 n4 i4 s) i = get_asset_class s i"
  "get_asset_class (delete_guild h5 s) i = get_asset_class s i"
  "get_asset_class (set_attestor at1 s) i = get_asset_class s i"
  "get_asset_class (set_match_settlement ms1 s) i = get_asset_class s i"
  "get_asset_class (set_match_result mr1 s) i = get_asset_class s i"
  "get_asset_class (set_vote vo1 s) i = get_asset_class s i"
  "get_asset_class (set_proposal_list pl1 s) i = get_asset_class s i"
  "get_asset_class (set_session se1 s) i = get_asset_class s i"
  by (simp_all add: state_defs)

lemma get_asset_balance_frame [simp]:
  "get_asset_balance (set_account a1 s) i a = get_asset_balance s i a"
  "get_asset_balance (set_delegation d1 s) i a = get_asset_balance s i a"
  "get_asset_balance (set_guild g1 s) i a = get_asset_balance s i a"
  "get_asset_balance (set_tournament t1 s) i a = get_asset_balance s i a"
  "get_asset_balance (set_rental r1 s) i a = get_asset_balance s i a"
  "get_asset_balance (set_proposal p1 s) i a = get_asset_balance s i a"
  "get_asset_balance (set_validator v1 s) i a = get_asset_balance s i a"
  "get_asset_balance (set_asset_class c1 s) i a = get_asset_balance s i a"
  "get_asset_balance (set_listing l1 s) i a = get_asset_balance s i a"
  "get_asset_balance (set_guild_membership m1 s) i a = get_asset_balance s i a"
  "get_asset_balance (delete_guild_membership h2 o2 s) i a = get_asset_balance s i a"
  "get_asset_balance (set_tournament_participant h3 o3 s) i a = get_asset_balance s i a"
  "get_asset_balance (set_unbonding_entry e1 i1 s) i a = get_asset_balance s i a"
  "get_asset_balance (delete_unbonding_entry o4 n4 i4 s) i a = get_asset_balance s i a"
  "get_asset_balance (delete_guild h5 s) i a = get_asset_balance s i a"
  "get_asset_balance (set_attestor at1 s) i a = get_asset_balance s i a"
  "get_asset_balance (set_match_settlement ms1 s) i a = get_asset_balance s i a"
  "get_asset_balance (set_match_result mr1 s) i a = get_asset_balance s i a"
  "get_asset_balance (set_vote vo1 s) i a = get_asset_balance s i a"
  "get_asset_balance (set_proposal_list pl1 s) i a = get_asset_balance s i a"
  "get_asset_balance (set_session se1 s) i a = get_asset_balance s i a"
  by (simp_all add: state_defs)

lemma get_listing_frame [simp]:
  "get_listing (set_account a1 s) i = get_listing s i"
  "get_listing (set_delegation d1 s) i = get_listing s i"
  "get_listing (set_guild g1 s) i = get_listing s i"
  "get_listing (set_tournament t1 s) i = get_listing s i"
  "get_listing (set_rental r1 s) i = get_listing s i"
  "get_listing (set_proposal p1 s) i = get_listing s i"
  "get_listing (set_validator v1 s) i = get_listing s i"
  "get_listing (set_asset_class c1 s) i = get_listing s i"
  "get_listing (set_asset_balance h1 o1 b1 s) i = get_listing s i"
  "get_listing (set_guild_membership m1 s) i = get_listing s i"
  "get_listing (delete_guild_membership h2 o2 s) i = get_listing s i"
  "get_listing (set_tournament_participant h3 o3 s) i = get_listing s i"
  "get_listing (set_unbonding_entry e1 i1 s) i = get_listing s i"
  "get_listing (delete_unbonding_entry o4 n4 i4 s) i = get_listing s i"
  "get_listing (delete_guild h5 s) i = get_listing s i"
  "get_listing (set_attestor at1 s) i = get_listing s i"
  "get_listing (set_match_settlement ms1 s) i = get_listing s i"
  "get_listing (set_match_result mr1 s) i = get_listing s i"
  "get_listing (set_vote vo1 s) i = get_listing s i"
  "get_listing (set_proposal_list pl1 s) i = get_listing s i"
  "get_listing (set_session se1 s) i = get_listing s i"
  by (simp_all add: state_defs)

lemma get_guild_membership_frame [simp]:
  "get_guild_membership (set_account a1 s) i a = get_guild_membership s i a"
  "get_guild_membership (set_delegation d1 s) i a = get_guild_membership s i a"
  "get_guild_membership (set_guild g1 s) i a = get_guild_membership s i a"
  "get_guild_membership (set_tournament t1 s) i a = get_guild_membership s i a"
  "get_guild_membership (set_rental r1 s) i a = get_guild_membership s i a"
  "get_guild_membership (set_proposal p1 s) i a = get_guild_membership s i a"
  "get_guild_membership (set_validator v1 s) i a = get_guild_membership s i a"
  "get_guild_membership (set_asset_class c1 s) i a = get_guild_membership s i a"
  "get_guild_membership (set_asset_balance h1 o1 b1 s) i a = get_guild_membership s i a"
  "get_guild_membership (set_listing l1 s) i a = get_guild_membership s i a"
  "get_guild_membership (set_tournament_participant h3 o3 s) i a = get_guild_membership s i a"
  "get_guild_membership (set_unbonding_entry e1 i1 s) i a = get_guild_membership s i a"
  "get_guild_membership (delete_unbonding_entry o4 n4 i4 s) i a = get_guild_membership s i a"
  "get_guild_membership (delete_guild h5 s) i a = get_guild_membership s i a"
  "get_guild_membership (set_attestor at1 s) i a = get_guild_membership s i a"
  "get_guild_membership (set_match_settlement ms1 s) i a = get_guild_membership s i a"
  "get_guild_membership (set_match_result mr1 s) i a = get_guild_membership s i a"
  "get_guild_membership (set_vote vo1 s) i a = get_guild_membership s i a"
  "get_guild_membership (set_proposal_list pl1 s) i a = get_guild_membership s i a"
  "get_guild_membership (set_session se1 s) i a = get_guild_membership s i a"
  by (simp_all add: state_defs)

text \<open>The writes that hold no native tokens leave the ledger as it is.\<close>

lemma ledger_total_frame [simp]:
  "ledger_total (set_balance a b s) = ledger_total s"
  "ledger_total (set_asset_class c s) = ledger_total s"
  "ledger_total (set_asset_balance i a b s) = ledger_total s"
  "ledger_total (set_validator v s) = ledger_total s"
  "ledger_total (set_listing l s) = ledger_total s"
  "ledger_total (set_profile p s) = ledger_total s"
  "ledger_total (set_achievement ac s) = ledger_total s"
  "ledger_total (set_attestor at s) = ledger_total s"
  "ledger_total (set_match_result mr s) = ledger_total s"
  "ledger_total (set_match_settlement ms s) = ledger_total s"
  "ledger_total (set_vote vo s) = ledger_total s"
  "ledger_total (set_proposal_list pl s) = ledger_total s"
  "ledger_total (set_guild_membership m s) = ledger_total s"
  "ledger_total (delete_guild_membership i a s) = ledger_total s"
  "ledger_total (set_tournament_participant i a s) = ledger_total s"
  "ledger_total (delete_tournament_participant i a s) = ledger_total s"
  "ledger_total (set_session se s) = ledger_total s"
  "ledger_total (set_receipt rc s) = ledger_total s"
  "ledger_total (set_tx_location i loc s) = ledger_total s"
  "ledger_total (set_block_events n es s) = ledger_total s"
  "ledger_total (set_epoch_info ep s) = ledger_total s"
  "ledger_total (set_active_validator_set vs s) = ledger_total s"
  "ledger_total (set_supply_info si s) = ledger_total s"
  "ledger_total (set_equivocation_evidence ev s) = ledger_total s"
  "ledger_total (set_chain_height n s) = ledger_total s"
  "ledger_total (set_latest_hash i s) = ledger_total s"
  "ledger_total (store_block blk s) = ledger_total s"
  by (simp_all add: state_defs ledger_total_def)

lemma supply_fitsD: "supply_fits s \<Longrightarrow> ledger_total s < 2 ^ 64"
  by (simp add: supply_fits_def)

text \<open>Holdings in two different pots are summed separately.\<close>

lemma held_pots_le:
  "held get_account balance_of s a + held (\<lambda>s (d, v). get_delegation s d v) (\<lambda>d. unat (del_amount d)) s dv
   \<le> ledger_total s"
  "held get_account balance_of s a + held get_guild (\<lambda>g. unat (gld_treasury_balance g)) s i \<le> ledger_total s"
  "held get_account balance_of s a + held get_tournament tournament_escrow s i \<le> ledger_total s"
  "held get_account balance_of s a + held get_rental rental_escrow s i \<le> ledger_total s"
  "held get_account balance_of s a + held get_proposal proposal_escrow s i \<le> ledger_total s"
proof -
  note le = fmcontrib_le_fmsum [of balance_of "st_accounts s" a]
  show "held get_account balance_of s a
      + held (\<lambda>s (d, v). get_delegation s d v) (\<lambda>d. unat (del_amount d)) s dv \<le> ledger_total s"
    using le fmcontrib_le_fmsum [of "\<lambda>d. unat (del_amount d)" "st_delegations s" dv]
    by (cases dv) (simp add: held_def fmcontrib_def ledger_total_def state_defs)
  show "held get_account balance_of s a + held get_guild (\<lambda>g. unat (gld_treasury_balance g)) s i \<le> ledger_total s"
    using le fmcontrib_le_fmsum [of "\<lambda>g. unat (gld_treasury_balance g)" "st_guilds s" i]
    by (simp add: held_def fmcontrib_def ledger_total_def state_defs)
  show "held get_account balance_of s a + held get_tournament tournament_escrow s i \<le> ledger_total s"
    using le fmcontrib_le_fmsum [of tournament_escrow "st_tournaments s" i]
    by (simp add: held_def fmcontrib_def ledger_total_def state_defs)
  show "held get_account balance_of s a + held get_rental rental_escrow s i \<le> ledger_total s"
    using le fmcontrib_le_fmsum [of rental_escrow "st_rentals s" i]
    by (simp add: held_def fmcontrib_def ledger_total_def state_defs)
  show "held get_account balance_of s a + held get_proposal proposal_escrow s i \<le> ledger_total s"
    using le fmcontrib_le_fmsum [of proposal_escrow "st_proposals s" i]
    by (simp add: held_def fmcontrib_def ledger_total_def state_defs)
qed

subsection \<open>Debits and credits of accounts\<close>

text \<open>
  The handlers read an account with \<open>get_account\<close> and fall back to a fresh one; the two lemmas
  below are the account-level steps that their conservation proofs are composed of.
\<close>

lemma opened_account [simp]:
  "unat (acct_balance (unwrap_or (get_account s a) (AccountState_new a t))) = held get_account balance_of s a"
  "unat (acct_balance (unwrap_or (get_account s a) (AccountState_with_balance a 0 t))) = held get_account balance_of s a"
  by (cases "get_account s a"; simp add: AccountState_new_def AccountState_with_balance_def balance_of_def)+

lemma opened_address [simp]:
  assumes "wf_state s"
  shows "acct_address (unwrap_or (get_account s a) (AccountState_new a t)) = a"
    "acct_address (unwrap_or (get_account s a) (AccountState_with_balance a 0 t)) = a"
  using assms
  by (cases "get_account s a"; auto simp: AccountState_new_def AccountState_with_balance_def dest: wf_keys(1))+

lemma debit_total:
  assumes "get_account s a = Some acct" and "acct_address acct = a" and "amt \<le> acct_balance acct"
  shows "ledger_total (set_account (acct\<lparr>acct_balance := acct_balance acct - amt\<rparr>) s) + unat amt
       = ledger_total s"
  using accounts.total_write [of "acct\<lparr>acct_balance := acct_balance acct - amt\<rparr>" s] assms
  by (simp add: balance_of_def unat_sub word_le_nat_alt)

lemma credit_total:
  assumes "acct_address acct = a" and "unat (acct_balance acct) = held get_account balance_of s a"
    and "held get_account balance_of s a + unat amt < 2 ^ 64"
  shows "ledger_total (set_account (acct\<lparr>acct_balance := saturating_add (acct_balance acct) amt\<rparr>) s)
       = ledger_total s + unat amt"
proof -
  have "unat (saturating_add (acct_balance acct) amt) = unat (acct_balance acct) + unat amt"
    using assms by (simp add: unat_saturating_add)
  then show ?thesis
    using accounts.total_write [of "acct\<lparr>acct_balance := saturating_add (acct_balance acct) amt\<rparr>" s] assms
    by (simp add: balance_of_def)
qed

text \<open>After \<open>amt\<close> has left the ledger, every account can take \<open>amt\<close> without overflow.\<close>

lemma credit_fits:
  assumes "supply_fits s" and "ledger_total s' + unat amt \<le> ledger_total s"
  shows "held get_account balance_of s' a + unat amt < 2 ^ 64"
  using assms accounts.held_le [of s' a] by (simp add: supply_fits_def)

text \<open>The idiom of the handlers: open the account if it is missing, add, write back.\<close>

abbreviation credited :: "address \<Rightarrow> u64 \<Rightarrow> u64 \<Rightarrow> chain_state \<Rightarrow> chain_state" where
  "credited a t amt s \<equiv>
     set_account ((unwrap_or (get_account s a) (AccountState_new a t))
       \<lparr>acct_balance := saturating_add
          (acct_balance (unwrap_or (get_account s a) (AccountState_new a t))) amt\<rparr>) s"

lemma credited_total:
  assumes "wf_state s" and "ledger_total s + unat amt < 2 ^ 64"
  shows "ledger_total (credited a t amt s) = ledger_total s + unat amt"
proof (rule credit_total [where a = a])
  show "held get_account balance_of s a + unat amt < 2 ^ 64"
    using assms(2) accounts.held_le [of s a] by linarith
qed (use assms in simp_all)

lemma word_credit_eq: "unat a + unat b < 2 ^ 64 \<Longrightarrow> saturating_add a b = a + (b :: u64)"
  by (simp add: saturating_add_def)

text \<open>A state with two funded accounts, used by the examples of the component theories.\<close>

definition sample_state :: chain_state where
  "sample_state =
     set_account (AccountState_with_balance 1 1000 0)
       (set_account (AccountState_with_balance 2 500 0) empty_state)"

lemma wf_sample_state [simp]: "wf_state sample_state"
  by (simp add: sample_state_def wf_intros wf_empty_state)

lemma sample_accounts [simp]:
  "get_account sample_state 1 = Some (AccountState_with_balance 1 1000 0)"
  "get_account sample_state 2 = Some (AccountState_with_balance 2 500 0)"
  "get_account sample_state 3 = None"
  by (simp_all add: sample_state_def state_defs AccountState_with_balance_def empty_state_def)

lemma ledger_total_empty: "ledger_total empty_state = 0"
  by (simp add: ledger_total_def empty_state_def)

lemma sample_total: "ledger_total sample_state = 1500"
  unfolding ledger_total_def sample_state_def
  by (simp add: state_defs empty_state_def) (simp add: fmsum_upd balance_of_def AccountState_with_balance_def)

lemma sample_fits [simp]: "supply_fits sample_state"
  by (simp add: supply_fits_def sample_total)

end
