(* ===== verification/Mod_Transfer.thy ===== *)
theory Mod_Transfer
  imports Polay_Ledger
begin

section \<open>Native transfers (\<^verbatim>\<open>polay-execution/src/modules/transfer.rs\<close>)\<close>

text \<open>
  The handler of the \<open>Transfer\<close> action, with every early return, and what it does to balances
  and to the ledger. The handlers of all modules have this shape: the store is passed in and the
  store as left behind is returned next to the result, also when the result is an error.
\<close>

definition execute_transfer ::
  "address \<Rightarrow> address \<Rightarrow> u64 \<Rightarrow> u64 \<Rightarrow> chain_state \<Rightarrow> Event list outcome" where
  "execute_transfer sgnr to amount timestamp s =
     (case get_account s sgnr of
        None \<Rightarrow> (Err (AccountNotFound sgnr), s)
      | Some sender \<Rightarrow>
          if acct_balance sender < amount
          then (Err (InsufficientBalance amount (acct_balance sender)), s)
          else
            (case checked_sub (acct_balance sender) amount of
               None \<Rightarrow> (Err (InsufficientBalance amount (acct_balance sender)), s)
             | Some b \<Rightarrow>
                 let s1 = set_account (sender\<lparr>acct_balance := b\<rparr>) s;
                     receiver = unwrap_or (get_account s1 to) (AccountState_new to timestamp);
                     s2 = set_account
                            (receiver\<lparr>acct_balance := saturating_add (acct_balance receiver) amount\<rparr>) s1
                 in (Ok [Event_transfer sgnr to amount], s2)))"

text \<open>The three outcomes of a transfer.\<close>

lemma execute_transfer_cases:
  obtains (not_found) "get_account s sgnr = None"
      "execute_transfer sgnr to amount t s = (Err (AccountNotFound sgnr), s)"
    | (poor) acct where "get_account s sgnr = Some acct" "acct_balance acct < amount"
      "execute_transfer sgnr to amount t s = (Err (InsufficientBalance amount (acct_balance acct)), s)"
    | (moved) acct s1 rcv where "get_account s sgnr = Some acct" "amount \<le> acct_balance acct"
      "s1 = set_account (acct\<lparr>acct_balance := acct_balance acct - amount\<rparr>) s"
      "rcv = unwrap_or (get_account s1 to) (AccountState_new to t)"
      "execute_transfer sgnr to amount t s = (Ok [Event_transfer sgnr to amount],
         set_account (rcv\<lparr>acct_balance := saturating_add (acct_balance rcv) amount\<rparr>) s1)"
proof (cases "get_account s sgnr")
  case None
  then show thesis by (intro not_found) (simp_all add: execute_transfer_def)
next
  case (Some acct)
  show thesis
  proof (cases "acct_balance acct < amount")
    case True
    with Some show thesis by (intro poor) (simp_all add: execute_transfer_def)
  next
    case False
    with Some show thesis
      by (intro moved) (simp_all add: execute_transfer_def Let_def not_less)
  qed
qed

lemma execute_transfer_wf: "wf_state s \<Longrightarrow> wf_state (snd (execute_transfer sgnr to amount t s))"
  by (rule execute_transfer_cases [of s sgnr to amount t]) (simp_all add: wf_intros)

lemma transfer_total:
  assumes "wf_state s" and "supply_fits s"
  shows "ledger_total (snd (execute_transfer sgnr to amount t s)) = ledger_total s"
proof (rule execute_transfer_cases [of s sgnr to amount t])
  fix acct s1 rcv
  assume a: "get_account s sgnr = Some acct" "amount \<le> acct_balance acct"
    and s1: "s1 = set_account (acct\<lparr>acct_balance := acct_balance acct - amount\<rparr>) s"
    and rcv: "rcv = unwrap_or (get_account s1 to) (AccountState_new to t)"
    and res: "execute_transfer sgnr to amount t s = (Ok [Event_transfer sgnr to amount],
         set_account (rcv\<lparr>acct_balance := saturating_add (acct_balance rcv) amount\<rparr>) s1)"
  have "wf_state s1" using assms by (simp add: s1 wf_intros)
  moreover have d: "ledger_total s1 + unat amount = ledger_total s"
    unfolding s1 by (rule debit_total [OF a(1) wf_keys(1) [OF assms(1) a(1)] a(2)])
  ultimately show ?thesis
    using credit_total [of rcv to s1 amount] credit_fits [OF assms(2), of s1 amount to]
    by (simp add: res rcv)
qed simp_all

text \<open>
  a native transfer conserves the ledger. Whatever the outcome (success, a missing sender or an
  insufficient balance), the sum of all native tokens of a well-formed state whose supply fits a
  \<open>u64\<close> is the same after \<open>execute_transfer\<close>; in particular the saturating credit of the receiver
  loses nothing, also when sender and receiver are the same account.
\<close>

theorem transfer_conserves:
  assumes "wf_state s" and "supply_fits s"
  shows "ledger_total (snd (execute_transfer sgnr to amount t s)) = ledger_total s"
  using assms by (rule transfer_total)

theorem transfer_conserves_witness:
  "wf_state sample_state \<and> supply_fits sample_state \<and>
   ledger_total (snd (execute_transfer 1 2 300 7 sample_state)) = ledger_total sample_state"
  using transfer_conserves [of sample_state 1 2 300 7] by simp

end
