(* ===== verification/Mod_Assets.thy ===== *)
theory Mod_Assets
  imports Polay_Ledger
begin

section \<open>Asset classes (\<^verbatim>\<open>polay-execution/src/modules/assets.rs\<close>)\<close>

text \<open>
  Creation of asset classes, minting, transfer and burning. The units of a class are in the
  balances of its owners and in the escrow of active marketplace listings; \<open>class_units\<close> adds both
  up, and \<open>assets_accounted\<close> says that the supply recorded in the class is that sum. SHA-256
  (crate \<^verbatim>\<open>sha2\<close>) is the parameter \<open>sha256\<close>.
\<close>

subsection \<open>Handlers\<close>

definition execute_create_asset_class ::
  "(u8 list \<Rightarrow> hash) \<Rightarrow> address \<Rightarrow> string \<Rightarrow> string \<Rightarrow> AssetType \<Rightarrow> u64 option \<Rightarrow> string \<Rightarrow> u64 \<Rightarrow>
   chain_state \<Rightarrow> (hash \<times> Event list) outcome" where
  "execute_create_asset_class sha256 sgnr name symbol asset_type max_supply metadata_uri timestamp s =
     (let asset_class_id = sha256 (as_bytes sgnr @ str_bytes name @ le_bytes 8 timestamp) in
      case get_asset_class s asset_class_id of
        Some _ \<Rightarrow> (Err AssetClassAlreadyExists, s)
      | None \<Rightarrow>
          let asset_class =
                \<lparr>ac_id = asset_class_id, ac_name = name, ac_symbol = symbol,
                 ac_asset_type = asset_type, ac_total_supply = 0, ac_max_supply = max_supply,
                 ac_creator = sgnr, ac_metadata_uri = metadata_uri, ac_created_at = timestamp\<rparr>
          in (Ok (asset_class_id, [Event_asset_class_created asset_class_id sgnr name]),
              set_asset_class asset_class s))"

definition execute_mint_asset ::
  "address \<Rightarrow> hash \<Rightarrow> address \<Rightarrow> u64 \<Rightarrow> string option \<Rightarrow> chain_state \<Rightarrow> Event list outcome" where
  "execute_mint_asset sgnr asset_class_id to amount metadata s =
     (case get_asset_class s asset_class_id of
        None \<Rightarrow> (Err AssetClassNotFound, s)
      | Some asset_class \<Rightarrow>
          if ac_creator asset_class \<noteq> sgnr then (Err Unauthorized, s)
          else if \<not> can_mint asset_class amount
          then (Err (MaxSupplyExceeded (unwrap_or (ac_max_supply asset_class) (- 1))
                       (ac_total_supply asset_class) amount), s)
          else
            let s1 = set_asset_class
                       (asset_class\<lparr>ac_total_supply := saturating_add (ac_total_supply asset_class) amount\<rparr>) s;
                current_balance = get_asset_balance s1 asset_class_id to;
                s2 = set_asset_balance asset_class_id to (saturating_add current_balance amount) s1
            in (Ok [Event_mint_asset asset_class_id to amount], s2))"

definition execute_transfer_asset ::
  "address \<Rightarrow> hash \<Rightarrow> address \<Rightarrow> u64 \<Rightarrow> chain_state \<Rightarrow> Event list outcome" where
  "execute_transfer_asset sgnr asset_class_id to amount s =
     (if get_asset_class s asset_class_id = None then (Err AssetClassNotFound, s)
      else
        let sender_balance = get_asset_balance s asset_class_id sgnr in
        if sender_balance < amount then (Err (InsufficientBalance amount sender_balance), s)
        else
          let s1 = set_asset_balance asset_class_id sgnr (sender_balance - amount) s;
              receiver_balance = get_asset_balance s1 asset_class_id to;
              s2 = set_asset_balance asset_class_id to (saturating_add receiver_balance amount) s1
          in (Ok [Event_transfer_asset asset_class_id sgnr to amount], s2))"

definition execute_burn_asset ::
  "address \<Rightarrow> hash \<Rightarrow> u64 \<Rightarrow> chain_state \<Rightarrow> Event list outcome" where
  "execute_burn_asset sgnr asset_class_id amount s =
     (case get_asset_class s asset_class_id of
        None \<Rightarrow> (Err AssetClassNotFound, s)
      | Some asset_class \<Rightarrow>
          let sender_balance = get_asset_balance s asset_class_id sgnr in
          if sender_balance < amount then (Err (InsufficientBalance amount sender_balance), s)
          else
            let s1 = set_asset_balance asset_class_id sgnr (sender_balance - amount) s;
                s2 = set_asset_class
                       (asset_class\<lparr>ac_total_supply := saturating_sub (ac_total_supply asset_class) amount\<rparr>) s1
            in (Ok [Event_burn_asset asset_class_id sgnr amount], s2))"

subsection \<open>Units of a class\<close>

definition listing_escrow :: "hash \<Rightarrow> Listing \<Rightarrow> nat" where
  "listing_escrow cls l =
     (if listing_is_active l \<and> lst_asset_class_id l = cls then unat (lst_amount l) else 0)"

definition class_units :: "hash \<Rightarrow> chain_state \<Rightarrow> nat" where
  "class_units cls s = asset_total cls s + fmsum (listing_escrow cls) (st_listings s)"

definition recorded_supply :: "chain_state \<Rightarrow> hash \<Rightarrow> nat" where
  "recorded_supply s cls =
     (case get_asset_class s cls of None \<Rightarrow> 0 | Some c \<Rightarrow> unat (ac_total_supply c))"

definition assets_accounted :: "chain_state \<Rightarrow> bool" where
  "assets_accounted s \<longleftrightarrow> (\<forall>cls. class_units cls s = recorded_supply s cls)"

definition supply_capped :: "chain_state \<Rightarrow> bool" where
  "supply_capped s \<longleftrightarrow>
     (\<forall>cls c cap. get_asset_class s cls = Some c \<longrightarrow> ac_max_supply c = Some cap \<longrightarrow> ac_total_supply c \<le> cap)"

interpretation escrows: pot get_listing set_listing lst_id "listing_escrow cls" "class_units cls" for cls
  by (rule fmap_pot [where f = st_listings and rest = "asset_total cls"])
     (simp_all add: class_units_def state_defs asset_total_def)

lemma class_units_balance:
  "class_units cls (set_asset_balance cls' own b s) + (if cls' = cls then unat (get_asset_balance s cls own) else 0)
     = class_units cls s + (if cls' = cls then unat b else 0)"
proof (cases "cls' = cls")
  case True
  then show ?thesis
    using asset_units.total_write [of cls "(own, b)" s]
    by (simp add: class_units_def held_balance_entry) (simp add: state_defs)
next
  case False
  then show ?thesis
    by (simp add: class_units_def asset_total_def state_defs)
qed

lemma class_units_class [simp]: "class_units cls (set_asset_class c s) = class_units cls s"
  by (simp add: class_units_def asset_total_def state_defs)

lemma class_units_account [simp]: "class_units cls (set_account a s) = class_units cls s"
  by (simp add: class_units_def asset_total_def state_defs)

lemma balance_le_units: "unat (get_asset_balance s cls own) \<le> class_units cls s"
  using asset_units.held_le [of cls s own] by (simp add: held_balance_entry class_units_def)

lemma recorded_supply_writes [simp]:
  "recorded_supply (set_asset_balance i own b s) cls = recorded_supply s cls"
  "recorded_supply (set_listing l s) cls = recorded_supply s cls"
  "recorded_supply (set_account a s) cls = recorded_supply s cls"
  "recorded_supply (set_asset_class c s) cls
     = (if ac_id c = cls then unat (ac_total_supply c) else recorded_supply s cls)"
  by (simp_all add: recorded_supply_def) (simp add: state_defs)

lemma get_asset_balance_write:
  "get_asset_balance (set_asset_balance cls own b s) cls' own'
     = (if cls' = cls \<and> own' = own then b else get_asset_balance s cls' own')"
  by (simp add: state_defs)

lemma get_asset_class_write:
  "get_asset_class (set_asset_class c s) cls = (if cls = ac_id c then Some c else get_asset_class s cls)"
  by (simp add: state_defs)

text \<open>
  Moving units of a class between two owners keeps its total, when the total fits a \<open>u64\<close>.
\<close>

lemma class_units_move:
  assumes "amount \<le> get_asset_balance s cls own" and "class_units cls s < 2 ^ 64"
  shows "class_units cls' (let s1 = set_asset_balance cls own (get_asset_balance s cls own - amount) s in
           set_asset_balance cls to (saturating_add (get_asset_balance s1 cls to) amount) s1)
       = class_units cls' s"
proof -
  let ?s1 = "set_asset_balance cls own (get_asset_balance s cls own - amount) s"
  have d: "unat (get_asset_balance s cls own - amount) + unat amount = unat (get_asset_balance s cls own)"
    using assms(1) by (simp add: unat_sub word_le_nat_alt)
  have s1: "class_units cls ?s1 + unat amount = class_units cls s"
    using class_units_balance [of cls cls own "get_asset_balance s cls own - amount" s] d by simp
  have "unat (get_asset_balance ?s1 cls to) + unat amount < 2 ^ 64"
    using balance_le_units [of ?s1 cls to] s1 assms(2) by linarith
  then have "unat (saturating_add (get_asset_balance ?s1 cls to) amount)
      = unat (get_asset_balance ?s1 cls to) + unat amount"
    by (simp add: unat_saturating_add)
  with s1 d show ?thesis
    unfolding Let_def
    using class_units_balance [of cls' cls to "saturating_add (get_asset_balance ?s1 cls to) amount" ?s1]
      class_units_balance [of cls' cls own "get_asset_balance s cls own - amount" s]
    by (cases "cls' = cls") simp_all
qed

lemma assets_accountedD: "assets_accounted s \<Longrightarrow> class_units cls s = recorded_supply s cls"
  by (simp add: assets_accounted_def)

lemma class_units_fits: "assets_accounted s \<Longrightarrow> class_units cls s < 2 ^ 64"
  using unat_u64_bound by (auto simp: assets_accounted_def recorded_supply_def split: option.splits)

subsection \<open>The handlers keep the invariants\<close>

lemma create_asset_class_accounted:
  assumes "assets_accounted s"
  shows "assets_accounted (snd (execute_create_asset_class sha256 sgnr name symbol ty cap uri t s))"
proof -
  let ?i = "sha256 (as_bytes sgnr @ str_bytes name @ le_bytes 8 t)"
  have "get_asset_class s ?i = None \<Longrightarrow> recorded_supply s ?i = 0"
    by (simp add: recorded_supply_def)
  then show ?thesis
    using assms
    by (auto simp: execute_create_asset_class_def Let_def assets_accounted_def split: option.splits)
qed

lemma mint_asset_accounted:
  assumes "wf_state s" and "assets_accounted s"
    and "recorded_supply s cls + unat amount < 2 ^ 64"
  shows "assets_accounted (snd (execute_mint_asset sgnr cls to amount md s))"
proof (cases "\<exists>c. get_asset_class s cls = Some c \<and> ac_creator c = sgnr \<and> can_mint c amount")
  case False
  then show ?thesis
    using assms(2) by (auto simp: execute_mint_asset_def split: option.splits)
next
  case True
  then obtain c where c: "get_asset_class s cls = Some c" "ac_creator c = sgnr" "can_mint c amount" by blast
  let ?c = "c\<lparr>ac_total_supply := saturating_add (ac_total_supply c) amount\<rparr>"
  let ?b = "saturating_add (get_asset_balance s cls to) amount"
  have res: "snd (execute_mint_asset sgnr cls to amount md s) = set_asset_balance cls to ?b (set_asset_class ?c s)"
    using c by (simp add: execute_mint_asset_def Let_def)
  have sup: "unat (saturating_add (ac_total_supply c) amount) = recorded_supply s cls + unat amount"
    using assms(3) c by (simp add: recorded_supply_def unat_saturating_add)
  have "unat (get_asset_balance s cls to) + unat amount < 2 ^ 64"
    using balance_le_units [of s cls to] assms(2,3) assets_accountedD [of s cls] by linarith
  then have b: "unat ?b = unat (get_asset_balance s cls to) + unat amount"
    by (simp add: unat_saturating_add)
  have "class_units k (set_asset_balance cls to ?b (set_asset_class ?c s))
      = (if cls = k then recorded_supply s cls + unat amount else recorded_supply s k)" for k
    using class_units_balance [of k cls to ?b "set_asset_class ?c s"] b assets_accountedD [OF assms(2), of k]
    by (auto split: if_splits)
  then show ?thesis
    using wf_keys(2) [OF assms(1) c(1)] sup by (simp add: res assets_accounted_def)
qed

lemma transfer_asset_accounted:
  assumes "assets_accounted s"
  shows "assets_accounted (snd (execute_transfer_asset sgnr cls to amount s))"
proof (cases "get_asset_class s cls \<noteq> None \<and> amount \<le> get_asset_balance s cls sgnr")
  case True
  then show ?thesis
    using class_units_move [of amount s cls sgnr _ to] class_units_fits [OF assms, of cls] assms
    by (simp add: execute_transfer_asset_def Let_def assets_accounted_def not_less)
next
  case False
  then show ?thesis
    using assms by (auto simp: execute_transfer_asset_def Let_def not_le)
qed

lemma burn_asset_accounted:
  assumes "wf_state s" and "assets_accounted s"
  shows "assets_accounted (snd (execute_burn_asset sgnr cls amount s))"
proof (cases "\<exists>c. get_asset_class s cls = Some c \<and> amount \<le> get_asset_balance s cls sgnr")
  case False
  then show ?thesis
    using assms(2) by (auto simp: execute_burn_asset_def Let_def not_le split: option.splits)
next
  case True
  then obtain c where c: "get_asset_class s cls = Some c" "amount \<le> get_asset_balance s cls sgnr" by blast
  let ?b = "get_asset_balance s cls sgnr - amount"
  have b: "unat ?b + unat amount = unat (get_asset_balance s cls sgnr)"
    using c(2) by (simp add: unat_sub word_le_nat_alt)
  have "class_units k (set_asset_balance cls sgnr ?b s)
      = (if cls = k then recorded_supply s cls - unat amount else recorded_supply s k)" for k
    using class_units_balance [of k cls sgnr ?b s] b assets_accountedD [OF assms(2), of k]
    by (auto split: if_splits)
  moreover have "snd (execute_burn_asset sgnr cls amount s)
      = set_asset_class (c\<lparr>ac_total_supply := saturating_sub (ac_total_supply c) amount\<rparr>)
          (set_asset_balance cls sgnr ?b s)"
    using c by (simp add: execute_burn_asset_def Let_def leD)
  moreover have "recorded_supply s cls = unat (ac_total_supply c)"
    using c by (simp add: recorded_supply_def)
  ultimately show ?thesis
    using wf_keys(2) [OF assms(1) c(1)] by (simp add: assets_accounted_def unat_saturating_sub)
qed

text \<open>
  \<open>can_mint\<close> saturates, so a cap of \<open>u64::MAX\<close> is no cap; below it the new supply is at most the
  cap.
\<close>

lemma can_mint_iff:
  "can_mint c amount \<longleftrightarrow>
     (case ac_max_supply c of None \<Rightarrow> True
      | Some cap \<Rightarrow> unat (ac_total_supply c) + unat amount \<le> unat cap \<or> cap = - 1)"
proof (cases "ac_max_supply c")
  case (Some cap)
  have "unat cap \<le> 2 ^ 64 - 1" using unat_le_max [of cap] by simp
  moreover have "cap = - 1 \<longleftrightarrow> unat cap = 2 ^ 64 - 1"
    using unat_max [where 'a = 64] by (simp add: word_eq_iff_unsigned [where 'a = nat])
  ultimately show ?thesis
    using Some by (auto simp: can_mint_def word_le_nat_alt unat_saturating_add min_def split: if_splits)
qed (simp add: can_mint_def)

lemma mint_asset_Ok_iff:
  "is_ok (fst (execute_mint_asset sgnr cls to amount md s)) \<longleftrightarrow>
     (\<exists>c. get_asset_class s cls = Some c \<and> ac_creator c = sgnr \<and> can_mint c amount)"
  by (auto simp: execute_mint_asset_def Let_def split: option.splits)

lemma supply_capped_writes:
  "supply_capped s \<Longrightarrow> (\<And>cap. ac_max_supply c = Some cap \<Longrightarrow> ac_total_supply c \<le> cap) \<Longrightarrow>
     supply_capped (set_asset_class c s)"
  "supply_capped s \<Longrightarrow> supply_capped (set_asset_balance i own b s)"
  by (auto simp: supply_capped_def get_asset_class_write split: if_splits)

lemma create_asset_class_capped:
  "supply_capped s \<Longrightarrow> supply_capped (snd (execute_create_asset_class sha256 sgnr name symbol ty cap uri t s))"
  by (auto simp: execute_create_asset_class_def Let_def intro!: supply_capped_writes split: option.splits)

lemma mint_asset_capped:
  "supply_capped s \<Longrightarrow> supply_capped (snd (execute_mint_asset sgnr cls to amount md s))"
  by (auto simp: execute_mint_asset_def Let_def can_mint_def intro!: supply_capped_writes split: option.splits)

lemma transfer_asset_capped:
  "supply_capped s \<Longrightarrow> supply_capped (snd (execute_transfer_asset sgnr cls to amount s))"
  by (auto simp: execute_transfer_asset_def Let_def intro!: supply_capped_writes)

lemma saturating_sub_le: "saturating_sub a b \<le> (a :: 'a::len word)"
  by (simp add: word_le_nat_alt unat_saturating_sub)

lemma burn_asset_capped:
  assumes "supply_capped s"
  shows "supply_capped (snd (execute_burn_asset sgnr cls amount s))"
proof -
  have "saturating_sub (ac_total_supply c) amount \<le> cap"
    if "get_asset_class s cls = Some c" "ac_max_supply c = Some cap" for c cap
    using that assms saturating_sub_le [of "ac_total_supply c" amount]
    by (meson order_trans supply_capped_def)
  then show ?thesis
    using assms
    by (auto simp: execute_burn_asset_def Let_def intro!: supply_capped_writes split: option.splits)
qed

lemma asset_handlers_wf:
  assumes "wf_state s"
  shows "wf_state (snd (execute_create_asset_class sha256 sgnr name symbol ty cap uri t s))"
    "wf_state (snd (execute_mint_asset sgnr cls to amount md s))"
    "wf_state (snd (execute_transfer_asset sgnr cls to amount s))"
    "wf_state (snd (execute_burn_asset sgnr cls amount s))"
  using assms
  by (auto simp: execute_create_asset_class_def execute_mint_asset_def execute_transfer_asset_def
      execute_burn_asset_def Let_def intro!: wf_intros split: option.splits)

subsection \<open>A state with one asset class\<close>

definition sample_assets :: chain_state where
  "sample_assets =
     snd (execute_mint_asset 1 7 1 10 None
       (snd (execute_create_asset_class (\<lambda>_. 7) 1 ''Sword'' ''SWD'' SemiFungible (Some 100) [] 0 sample_state)))"

lemma sample_accounted0: "assets_accounted sample_state" "supply_capped sample_state"
  by (simp_all add: assets_accounted_def class_units_def asset_total_def recorded_supply_def
      sample_state_def state_defs empty_state_def supply_capped_def)

lemma sample_class:
  "get_asset_class sample_state i = None" "get_asset_balance sample_state i a = 0"
  "get_listing sample_state i = None"
  by (simp_all add: sample_state_def state_defs empty_state_def)

lemma sample_assets_wf [simp]: "wf_state sample_assets"
  by (simp add: sample_assets_def asset_handlers_wf)

lemma sample_assets_accounted [simp]: "assets_accounted sample_assets"
  unfolding sample_assets_def
proof (rule mint_asset_accounted)
  show "recorded_supply (snd (execute_create_asset_class (\<lambda>_. 7) 1 ''Sword'' ''SWD'' SemiFungible (Some 100) [] 0
      sample_state)) 7 + unat (10 :: u64) < 2 ^ 64"
    by (simp add: execute_create_asset_class_def sample_class)
qed (simp_all add: asset_handlers_wf create_asset_class_accounted sample_accounted0)

lemma sample_assets_capped [simp]: "supply_capped sample_assets"
  unfolding sample_assets_def
  by (intro mint_asset_capped create_asset_class_capped sample_accounted0)

lemma sample_assets_reads [simp]:
  "get_asset_class sample_assets 7 = Some
     \<lparr>ac_id = 7, ac_name = ''Sword'', ac_symbol = ''SWD'', ac_asset_type = SemiFungible,
      ac_total_supply = 10, ac_max_supply = Some 100, ac_creator = 1, ac_metadata_uri = [],
      ac_created_at = 0\<rparr>"
  "get_asset_balance sample_assets 7 1 = 10"
  "get_account sample_assets a = get_account sample_state a"
  "get_listing sample_assets i = None"
  by (simp_all add: sample_assets_def execute_create_asset_class_def execute_mint_asset_def
      sample_class get_asset_class_write get_asset_balance_write can_mint_def saturating_add_def)

subsection \<open>Properties\<close>

text \<open>
  C19: the recorded supply of every asset class is exact and capped. If for every class the units in
  balances and in listing escrow add up to its \<open>total_supply\<close>, and no supply exceeds its cap, then
  the same holds after creating a class, after a transfer and after a burn, whatever their outcome;
  and after a mint whose new supply fits a \<open>u64\<close>.
\<close>

theorem asset_supply_invariant:
  assumes "wf_state s" and "assets_accounted s" and "supply_capped s"
    and "recorded_supply s cls + unat amount < 2 ^ 64"
  shows "s' \<in> {snd (execute_create_asset_class sha sgnr name symbol ty cap uri t s),
                snd (execute_mint_asset sgnr cls to amount md s),
                snd (execute_transfer_asset sgnr cls to amount' s),
                snd (execute_burn_asset sgnr cls amount' s)} \<Longrightarrow>
         assets_accounted s' \<and> supply_capped s'"
  using assms
  by (auto simp: create_asset_class_accounted mint_asset_accounted transfer_asset_accounted
      burn_asset_accounted create_asset_class_capped mint_asset_capped transfer_asset_capped
      burn_asset_capped)

theorem asset_supply_invariant_witness:
  "wf_state sample_assets \<and> assets_accounted sample_assets \<and> supply_capped sample_assets \<and>
   assets_accounted (snd (execute_burn_asset 1 7 4 sample_assets)) \<and>
   supply_capped (snd (execute_burn_asset 1 7 4 sample_assets)) \<and>
   is_ok (fst (execute_burn_asset 1 7 4 sample_assets))"
proof -
  have "recorded_supply sample_assets 7 + unat (5 :: u64) < 2 ^ 64"
    by (simp add: recorded_supply_def)
  then have "assets_accounted (snd (execute_burn_asset 1 7 4 sample_assets)) \<and>
      supply_capped (snd (execute_burn_asset 1 7 4 sample_assets))"
    by (intro asset_supply_invariant [where s = sample_assets and cls = 7 and amount = 5 and sgnr = 1
          and amount' = 4 and to = 2 and sha = "\<lambda>_. 9" and name = "[]" and symbol = "[]"
          and ty = Fungible and cap = None and uri = "[]" and t = 0 and md = None]) simp_all
  moreover have "is_ok (fst (execute_burn_asset 1 7 4 sample_assets))"
    by (simp add: execute_burn_asset_def Let_def)
  ultimately show ?thesis by simp
qed

text \<open>
  minting is the creator's privilege and never passes the cap. \<open>execute_mint_asset\<close> succeeds
  exactly when the class exists, the signer created it, and the new supply is at most the cap (a cap
  of \<open>u64::MAX\<close>, or none, does not limit); any other call fails and leaves the store as it was.
\<close>

theorem mint_authority:
  "(case execute_mint_asset sgnr cls to amount md s of
      (Ok _, s') \<Rightarrow>
        (\<exists>c. get_asset_class s cls = Some c \<and> ac_creator c = sgnr \<and>
          (case ac_max_supply c of None \<Rightarrow> True
           | Some cap \<Rightarrow> unat (ac_total_supply c) + unat amount \<le> unat cap \<or> cap = - 1) \<and>
          get_asset_balance s' cls to = saturating_add (get_asset_balance s cls to) amount)
    | (_, s') \<Rightarrow>
        s' = s \<and> (\<nexists>c. get_asset_class s cls = Some c \<and> ac_creator c = sgnr \<and>
          (case ac_max_supply c of None \<Rightarrow> True
           | Some cap \<Rightarrow> unat (ac_total_supply c) + unat amount \<le> unat cap \<or> cap = - 1)))"
  unfolding can_mint_iff [symmetric]
  by (auto simp: execute_mint_asset_def Let_def get_asset_balance_write split: option.splits)

end
