(* ===== verification/Polay_Config.thy ===== *)
theory Polay_Config
  imports Polay_Types
begin

section \<open>Chain parameters (\<^verbatim>\<open>crates/polay-config\<close>)\<close>

text \<open>
  \<open>ChainConfig\<close>, its network profiles and its validation. The JSON defaults of the deserializer
  are the fields of \<open>ChainConfig_default\<close>. A configuration accepted by \<open>validate\<close> has the bounds
  the handlers rely on; what it does not bound is the protocol fee and the fee distribution.
\<close>

record ChainConfig =
  cfg_chain_id :: string
  cfg_chain_name :: string
  cfg_native_denom :: string
  cfg_block_time_ms :: u64
  cfg_max_block_transactions :: usize
  cfg_max_transaction_size_bytes :: usize
  cfg_min_stake :: u64
  cfg_max_validators :: usize
  cfg_unbonding_period_blocks :: u64
  cfg_slash_fraction_downtime_bps :: u16
  cfg_slash_fraction_double_sign_bps :: u16
  cfg_protocol_fee_bps :: u16
  cfg_max_commission_bps :: u16
  cfg_epoch_length :: u64
  cfg_quorum_threshold_bps :: u16
  cfg_attestation_quarantine_threshold :: u8
  cfg_base_gas :: u64
  cfg_gas_per_byte :: u64
  cfg_min_gas_price :: u64
  cfg_max_block_gas :: u64
  cfg_min_proposal_deposit :: u64
  cfg_voting_period_blocks :: u64
  cfg_governance_quorum_bps :: u16
  cfg_pass_threshold_bps :: u16
  cfg_parallel_execution :: bool
  cfg_block_reward :: u64
  cfg_fee_distribution :: FeeDistribution
  cfg_inflation_params :: InflationParams
  cfg_treasury_address :: string
  cfg_tx_max_age_seconds :: u64
  cfg_max_nonce_gap :: u64
  cfg_rpc_max_submissions_per_second :: u32
  cfg_max_p2p_message_size :: usize

definition ChainConfig_default :: ChainConfig where
  "ChainConfig_default =
     \<lparr>cfg_chain_id = ''polay-devnet-1'',
      cfg_chain_name = ''POLAY Devnet'',
      cfg_native_denom = ''POL'',
      cfg_block_time_ms = 2000,
      cfg_max_block_transactions = 10000,
      cfg_max_transaction_size_bytes = 65536,
      cfg_min_stake = 1000000,
      cfg_max_validators = 100,
      cfg_unbonding_period_blocks = 14400,
      cfg_slash_fraction_downtime_bps = 100,
      cfg_slash_fraction_double_sign_bps = 500,
      cfg_protocol_fee_bps = 250,
      cfg_max_commission_bps = 2000,
      cfg_epoch_length = 7200,
      cfg_quorum_threshold_bps = 6667,
      cfg_attestation_quarantine_threshold = 30,
      cfg_base_gas = 21000,
      cfg_gas_per_byte = 16,
      cfg_min_gas_price = 1,
      cfg_max_block_gas = 100000000,
      cfg_min_proposal_deposit = 100000,
      cfg_voting_period_blocks = 14400,
      cfg_governance_quorum_bps = 3333,
      cfg_pass_threshold_bps = 5000,
      cfg_parallel_execution = False,
      cfg_block_reward = 100000,
      cfg_fee_distribution = FeeDistribution_default,
      cfg_inflation_params = InflationParams_default,
      cfg_treasury_address = concat (replicate 32 ''00''),
      cfg_tx_max_age_seconds = 300,
      cfg_max_nonce_gap = 16,
      cfg_rpc_max_submissions_per_second = 100,
      cfg_max_p2p_message_size = 10485760\<rparr>"

definition devnet :: ChainConfig where
  "devnet = ChainConfig_default"

definition testnet :: ChainConfig where
  "testnet = ChainConfig_default
     \<lparr>cfg_chain_id := ''polay-testnet-1'', cfg_chain_name := ''POLAY Testnet'',
      cfg_block_time_ms := 3000, cfg_max_validators := 50, cfg_min_stake := 10000000,
      cfg_unbonding_period_blocks := 100800, cfg_epoch_length := 28800,
      cfg_voting_period_blocks := 100800, cfg_min_proposal_deposit := 1000000\<rparr>"

definition mainnet :: ChainConfig where
  "mainnet = ChainConfig_default
     \<lparr>cfg_chain_id := ''polay-mainnet-1'', cfg_chain_name := ''POLAY Mainnet'',
      cfg_block_time_ms := 4000, cfg_max_block_transactions := 5000, cfg_max_validators := 100,
      cfg_min_stake := 100000000, cfg_unbonding_period_blocks := 604800, cfg_epoch_length := 21600,
      cfg_slash_fraction_double_sign_bps := 1000, cfg_voting_period_blocks := 302400,
      cfg_min_proposal_deposit := 10000000, cfg_governance_quorum_bps := 4000,
      cfg_pass_threshold_bps := 6000, cfg_rpc_max_submissions_per_second := 50\<rparr>"

text \<open>\<open>validate\<close> collects one message per violated check.\<close>

definition validate :: "ChainConfig \<Rightarrow> (string list, unit) result" where
  "validate c =
     (let errors = concat
       [if cfg_chain_id c = [] then [''chain_id cannot be empty''] else [],
        if cfg_block_time_ms c = 0 then [''block_time_ms must be > 0''] else [],
        if cfg_max_block_transactions c = 0 then [''max_block_transactions must be > 0''] else [],
        if cfg_max_block_gas c = 0 then [''max_block_gas must be > 0''] else [],
        if cfg_epoch_length c = 0 then [''epoch_length must be > 0''] else [],
        if 10000 < cfg_quorum_threshold_bps c then [''quorum_threshold_bps must be <= 10000''] else [],
        if cfg_quorum_threshold_bps c < 5000 then [''quorum_threshold_bps should be >= 5000 for BFT safety''] else [],
        if cfg_max_validators c = 0 then [''max_validators must be > 0''] else [],
        if 10000 < cfg_slash_fraction_double_sign_bps c then [''slash_fraction_double_sign_bps must be <= 10000''] else [],
        if 10000 < cfg_slash_fraction_downtime_bps c then [''slash_fraction_downtime_bps must be <= 10000''] else [],
        if 10000 < cfg_governance_quorum_bps c then [''governance_quorum_bps must be <= 10000''] else [],
        if 10000 < cfg_pass_threshold_bps c then [''pass_threshold_bps must be <= 10000''] else [],
        if 10000 < cfg_max_commission_bps c then [''max_commission_bps must be <= 10000''] else [],
        if cfg_unbonding_period_blocks c = 0 then [''unbonding_period_blocks must be > 0''] else [],
        if cfg_min_stake c = 0 then [''min_stake must be > 0''] else []] in
      if errors = [] then Ok () else Err errors)"

lemma validate_Ok_iff:
  "validate c = Ok () \<longleftrightarrow>
     cfg_chain_id c \<noteq> [] \<and> cfg_block_time_ms c \<noteq> 0 \<and> cfg_max_block_transactions c \<noteq> 0 \<and>
     cfg_max_block_gas c \<noteq> 0 \<and> cfg_epoch_length c \<noteq> 0 \<and>
     5000 \<le> cfg_quorum_threshold_bps c \<and> cfg_quorum_threshold_bps c \<le> 10000 \<and>
     cfg_max_validators c \<noteq> 0 \<and> cfg_slash_fraction_double_sign_bps c \<le> 10000 \<and>
     cfg_slash_fraction_downtime_bps c \<le> 10000 \<and> cfg_governance_quorum_bps c \<le> 10000 \<and>
     cfg_pass_threshold_bps c \<le> 10000 \<and> cfg_max_commission_bps c \<le> 10000 \<and>
     cfg_unbonding_period_blocks c \<noteq> 0 \<and> cfg_min_stake c \<noteq> 0"
  by (simp add: validate_def Let_def not_less)

lemma profiles_valid:
  "validate devnet = Ok ()" "validate testnet = Ok ()" "validate mainnet = Ok ()"
  by (simp_all add: validate_Ok_iff devnet_def testnet_def mainnet_def ChainConfig_default_def)

end
