(* ===== verification/Mod_Market.thy ===== *)
theory Mod_Market
  imports Mod_Assets Polay_Config
begin

section \<open>The marketplace (\<^verbatim>\<open>polay-execution/src/modules/market.rs\<close>)\<close>

text \<open>
  Listing, cancelling and buying. A listing escrows units of its class; a purchase pays the seller,
  the protocol treasury (\<open>Address::ZERO\<close>) and the creator of the class out of the buyer's balance.
\<close>

subsection \<open>Handlers\<close>

definition listing_id_of :: "(u8 list \<Rightarrow> hash) \<Rightarrow> address \<Rightarrow> hash \<Rightarrow> u64 \<Rightarrow> u64 \<Rightarrow> u64 \<Rightarrow> hash" where
  "listing_id_of sha256 sgnr asset_class_id amount price_per_unit timestamp =
     sha256 (as_bytes sgnr @ as_bytes asset_class_id @ le_bytes 8 amount @ le_bytes 8 price_per_unit
             @ le_bytes 8 timestamp)"

definition execute_create_listing ::
  "(u8 list \<Rightarrow> hash) \<Rightarrow> address \<Rightarrow> hash \<Rightarrow> u64 \<Rightarrow> u64 \<Rightarrow> hash \<Rightarrow> ChainConfig \<Rightarrow> u64 \<Rightarrow>
   chain_state \<Rightarrow> (hash \<times> Event list) outcome" where
  "execute_create_listing sha256 sgnr asset_class_id amount price_per_unit currency config timestamp s =
     (case get_asset_class s asset_class_id of
        None \<Rightarrow> (Err AssetClassNotFound, s)
      | Some asset_class \<Rightarrow>
          let seller_balance = get_asset_balance s asset_class_id sgnr in
          if seller_balance < amount then (Err (InsufficientBalance amount seller_balance), s)
          else
            let s1 = set_asset_balance asset_class_id sgnr (seller_balance - amount) s;
                listing_id = listing_id_of sha256 sgnr asset_class_id amount price_per_unit timestamp;
                listing = \<lparr>lst_id = listing_id, lst_seller = sgnr, lst_asset_class_id = asset_class_id,
                           lst_amount = amount, lst_price_per_unit = price_per_unit,
                           lst_currency = currency, lst_status = ListingActive,
                           lst_royalty_bps = cfg_protocol_fee_bps config, lst_created_at = timestamp\<rparr>
            in (Ok (listing_id, [Event_listing_created listing_id sgnr asset_class_id amount price_per_unit]),
                set_listing listing s1))"

definition execute_cancel_listing :: "address \<Rightarrow> hash \<Rightarrow> chain_state \<Rightarrow> Event list outcome" where
  "execute_cancel_listing sgnr listing_id s =
     (case get_listing s listing_id of
        None \<Rightarrow> (Err ListingNotFound, s)
      | Some listing \<Rightarrow>
          if \<not> listing_is_active listing then (Err ListingNotActive, s)
          else if lst_seller listing \<noteq> sgnr then (Err ListingOwnerMismatch, s)
          else
            let seller_balance = get_asset_balance s (lst_asset_class_id listing) sgnr;
                s1 = set_asset_balance (lst_asset_class_id listing) sgnr
                       (saturating_add seller_balance (lst_amount listing)) s;
                s2 = set_listing (listing\<lparr>lst_status := ListingCancelled\<rparr>) s1
            in (Ok [Event_listing_cancelled listing_id sgnr], s2))"

text \<open>The royalty step of a purchase, which alone can fail after the payments were written.\<close>

definition pay_royalty :: "Listing \<Rightarrow> u64 \<Rightarrow> u64 \<Rightarrow> chain_state \<Rightarrow> unit outcome" where
  "pay_royalty listing royalty timestamp s =
     (if 0 < royalty
      then (case get_asset_class s (lst_asset_class_id listing) of
              None \<Rightarrow> (Err AssetClassNotFound, s)
            | Some asset_class \<Rightarrow>
                let creator_account = unwrap_or (get_account s (ac_creator asset_class))
                                        (AccountState_new (ac_creator asset_class) timestamp)
                in (Ok (), set_account
                      (creator_account\<lparr>acct_balance := saturating_add (acct_balance creator_account) royalty\<rparr>) s))
      else (Ok (), s))"

definition execute_buy_listing ::
  "address \<Rightarrow> hash \<Rightarrow> ChainConfig \<Rightarrow> u64 \<Rightarrow> chain_state \<Rightarrow> Event list outcome" where
  "execute_buy_listing buyer listing_id config timestamp s =
     (case get_listing s listing_id of
        None \<Rightarrow> (Err ListingNotFound, s)
      | Some listing \<Rightarrow>
          if \<not> listing_is_active listing then (Err ListingNotActive, s)
          else if lst_seller listing = buyer then (Err CannotBuyOwnListing, s)
          else
            let price = total_price listing;
                protocol_fee = bps_share price (cfg_protocol_fee_bps config);
                royalty = royalty_amount listing;
                seller_proceeds = saturating_sub (saturating_sub price protocol_fee) royalty in
            (case get_account s buyer of
               None \<Rightarrow> (Err (AccountNotFound buyer), s)
             | Some buyer_account \<Rightarrow>
                 if acct_balance buyer_account < price
                 then (Err (InsufficientBalance price (acct_balance buyer_account)), s)
                 else
                   (case checked_sub (acct_balance buyer_account) price of
                      None \<Rightarrow> (Err (InsufficientBalance price (acct_balance buyer_account)), s)
                    | Some b \<Rightarrow>
                        let s1 = set_account (buyer_account\<lparr>acct_balance := b\<rparr>) s;
                            seller_account = unwrap_or (get_account s1 (lst_seller listing))
                                               (AccountState_new (lst_seller listing) timestamp);
                            s2 = set_account (seller_account
                                   \<lparr>acct_balance := saturating_add (acct_balance seller_account) seller_proceeds\<rparr>) s1;
                            s3 = (if 0 < protocol_fee
                                  then let treasury = unwrap_or (get_account s2 ZERO) (AccountState_new ZERO timestamp)
                                       in set_account (treasury
                                            \<lparr>acct_balance := saturating_add (acct_balance treasury) protocol_fee\<rparr>) s2
                                  else s2) in
                        (case pay_royalty listing royalty timestamp s3 of
                           (Ok _, s4) \<Rightarrow>
                             let buyer_asset_balance = get_asset_balance s4 (lst_asset_class_id listing) buyer;
                                 s5 = set_asset_balance (lst_asset_class_id listing) buyer
                                        (saturating_add buyer_asset_balance (lst_amount listing)) s4;
                                 s6 = set_listing (listing\<lparr>lst_status := ListingSold\<rparr>) s5
                             in (Ok [Event_listing_sold listing_id buyer (lst_seller listing)], s6)
                         | (Err e, s4) \<Rightarrow> (Err e, s4)
                         | (Panic, s4) \<Rightarrow> (Panic, s4)))))"

subsection \<open>Escrow of units\<close>

lemma listing_writes:
  "get_listing (set_listing l s) i = (if i = lst_id l then Some l else get_listing s i)"
  by (rule escrows.look_write)

lemma class_units_listing:
  "class_units cls (set_listing l s) + held get_listing (listing_escrow cls) s (lst_id l)
     = class_units cls s + listing_escrow cls l"
  by (rule escrows.total_write)

lemma create_listing_units:
  assumes "amount \<le> get_asset_balance s cls sgnr" and "held get_listing (listing_escrow k) s (lst_id l) = 0"
    and "lst_status l = ListingActive" "lst_asset_class_id l = cls" "lst_amount l = amount"
  shows "class_units k (set_listing l (set_asset_balance cls sgnr (get_asset_balance s cls sgnr - amount) s))
       = class_units k s"
proof -
  have "unat (get_asset_balance s cls sgnr - amount) + unat amount = unat (get_asset_balance s cls sgnr)"
    using assms(1) by (simp add: unat_sub word_le_nat_alt)
  moreover have "held get_listing (listing_escrow k) (set_asset_balance cls sgnr b s) i
      = held get_listing (listing_escrow k) s i" for b i
    by (simp add: held_def)
  ultimately show ?thesis
    using class_units_listing [of k l "set_asset_balance cls sgnr (get_asset_balance s cls sgnr - amount) s"]
      class_units_balance [of k cls sgnr "get_asset_balance s cls sgnr - amount" s] assms(2-)
    by (cases "cls = k") (simp_all add: listing_escrow_def listing_is_active_def)
qed

text \<open>Paying the escrowed units out to an owner and closing the listing.\<close>

lemma close_listing_units:
  assumes "get_listing s i = Some l" and "lst_id l = i" and "listing_is_active l"
    and "st \<noteq> ListingActive" and "class_units (lst_asset_class_id l) s < 2 ^ 64"
  shows "class_units k (set_listing (l\<lparr>lst_status := st\<rparr>)
           (set_asset_balance (lst_asset_class_id l) own
              (saturating_add (get_asset_balance s (lst_asset_class_id l) own) (lst_amount l)) s))
       = class_units k s"
proof -
  let ?c = "lst_asset_class_id l"
  let ?b = "saturating_add (get_asset_balance s ?c own) (lst_amount l)"
  have "unat (get_asset_balance s ?c own) + listing_escrow ?c l \<le> class_units ?c s"
    using asset_units.held_le [of ?c s own] fmsum_ge [of "st_listings s" i l "listing_escrow ?c"] assms(1)
    by (simp add: held_balance_entry class_units_def get_listing_def)
  then have "unat ?b = unat (get_asset_balance s ?c own) + unat (lst_amount l)"
    using assms(3,5) by (simp add: unat_saturating_add listing_escrow_def)
  moreover have "held get_listing (listing_escrow k) (set_asset_balance ?c own ?b s) i = listing_escrow k l"
    using assms(1) by (simp add: held_def)
  ultimately show ?thesis
    using class_units_listing [of k "l\<lparr>lst_status := st\<rparr>" "set_asset_balance ?c own ?b s"]
      class_units_balance [of k ?c own ?b s] assms(2-4)
    by (cases "?c = k") (simp_all add: listing_escrow_def listing_is_active_def)
qed

subsection \<open>Case analysis of a purchase\<close>

abbreviation seller_share :: "Listing \<Rightarrow> ChainConfig \<Rightarrow> u64" where
  "seller_share l config \<equiv>
     saturating_sub (saturating_sub (total_price l) (bps_share (total_price l) (cfg_protocol_fee_bps config)))
       (royalty_amount l)"

abbreviation protocol_share :: "Listing \<Rightarrow> ChainConfig \<Rightarrow> u64" where
  "protocol_share l config \<equiv> bps_share (total_price l) (cfg_protocol_fee_bps config)"

lemma buy_listing_cases:
  obtains (refused) e where "execute_buy_listing buyer i config t s = (Err e, s)"
    | (paid) l ba s1 s2 s3 where "get_listing s i = Some l" "listing_is_active l" "lst_seller l \<noteq> buyer"
      "get_account s buyer = Some ba" "total_price l \<le> acct_balance ba"
      "s1 = set_account (ba\<lparr>acct_balance := acct_balance ba - total_price l\<rparr>) s"
      "s2 = credited (lst_seller l) t (seller_share l config) s1"
      "s3 = (if 0 < protocol_share l config then credited ZERO t (protocol_share l config) s2 else s2)"
      "execute_buy_listing buyer i config t s =
         (case pay_royalty l (royalty_amount l) t s3 of
            (Ok _, s4) \<Rightarrow>
              (Ok [Event_listing_sold i buyer (lst_seller l)],
               set_listing (l\<lparr>lst_status := ListingSold\<rparr>)
                 (set_asset_balance (lst_asset_class_id l) buyer
                   (saturating_add (get_asset_balance s4 (lst_asset_class_id l) buyer) (lst_amount l)) s4))
          | (Err e, s4) \<Rightarrow> (Err e, s4)
          | (Panic, s4) \<Rightarrow> (Panic, s4))"
proof (cases "\<exists>l ba. get_listing s i = Some l \<and> listing_is_active l \<and> lst_seller l \<noteq> buyer \<and>
    get_account s buyer = Some ba \<and> total_price l \<le> acct_balance ba")
  case True
  then obtain l ba where l: "get_listing s i = Some l" "listing_is_active l" "lst_seller l \<noteq> buyer"
    "get_account s buyer = Some ba" "total_price l \<le> acct_balance ba" by blast
  then have "\<not> acct_balance ba < total_price l" by simp
  with l paid [OF l refl refl refl] show thesis
    unfolding execute_buy_listing_def Let_def by simp
next
  case False
  then have "\<exists>e. execute_buy_listing buyer i config t s = (Err e, s)"
    by (auto simp: execute_buy_listing_def Let_def not_le split: option.splits)
  then show thesis using refused by blast
qed

lemma shares_sum:
  assumes "unat (cfg_protocol_fee_bps config) + unat (lst_royalty_bps l) \<le> 10000"
  shows "unat (seller_share l config) + unat (protocol_share l config) + unat (royalty_amount l)
       = unat (total_price l)"
  using bps_shares_le [OF assms, of "total_price l"] by (simp add: unat_saturating_sub royalty_amount_def)

lemma pay_royalty_total:
  assumes "wf_state s" and "ledger_total s + unat royalty < 2 ^ 64"
    and "get_asset_class s (lst_asset_class_id l) \<noteq> None"
  shows "\<exists>s'. pay_royalty l royalty t s = (Ok (), s') \<and> wf_state s' \<and> ledger_total s' = ledger_total s + unat royalty"
proof (cases "0 < royalty")
  case True
  then show ?thesis
    using assms by (auto simp: pay_royalty_def Let_def credited_total wf_intros)
next
  case False
  then show ?thesis
    using assms by (simp add: pay_royalty_def word_gt_0)
qed

lemma buy_listing_total:
  assumes wf: "wf_state s" and fits: "supply_fits s"
    and fees: "\<And>l. get_listing s i = Some l \<Longrightarrow>
      unat (cfg_protocol_fee_bps config) + unat (lst_royalty_bps l) \<le> 10000 \<and>
      get_asset_class s (lst_asset_class_id l) \<noteq> None"
  shows "ledger_total (snd (execute_buy_listing buyer i config t s)) = ledger_total s"
proof (cases rule: buy_listing_cases [of buyer i config t s])
  case (refused e)
  then show ?thesis by simp
next
  case (paid l ba s1 s2 s3)
  note sum = shares_sum [OF conjunct1 [OF fees [OF paid(1)]]]
  have "wf_state s1" and s1: "ledger_total s1 + unat (total_price l) = ledger_total s"
    using wf debit_total [OF paid(4) wf_keys(1) [OF wf paid(4)] paid(5)] by (simp_all add: paid(6) wf_intros)
  then have "wf_state s2" and s2: "ledger_total s2 = ledger_total s1 + unat (seller_share l config)"
    unfolding paid(7) using sum supply_fitsD [OF fits] by (simp_all add: wf_intros credited_total)
  then have "wf_state s3" and s3: "ledger_total s3 = ledger_total s2 + unat (protocol_share l config)"
    unfolding paid(8) using sum s1 supply_fitsD [OF fits]
    by (simp_all add: wf_intros credited_total word_gt_0)
  moreover have "get_asset_class s3 (lst_asset_class_id l) \<noteq> None"
    using fees [OF paid(1)] by (simp add: paid(6-8))
  ultimately obtain s4 where "pay_royalty l (royalty_amount l) t s3 = (Ok (), s4)"
      "ledger_total s4 = ledger_total s3 + unat (royalty_amount l)"
    using pay_royalty_total [of s3 "royalty_amount l" l t] sum s1 s2 supply_fitsD [OF fits] by auto
  then show ?thesis
    using sum s1 s2 s3 by (simp add: paid(9))
qed


subsection \<open>A state with one listing\<close>

definition sample_listing :: Listing where
  "sample_listing =
     \<lparr>lst_id = 9, lst_seller = 1, lst_asset_class_id = 7, lst_amount = 4, lst_price_per_unit = 50,
      lst_currency = 0, lst_status = ListingActive, lst_royalty_bps = 250, lst_created_at = 0\<rparr>"

definition sample_market :: chain_state where
  "sample_market = snd (execute_create_listing (\<lambda>_. 9) 1 7 4 50 0 devnet 0 sample_assets)"

lemma sample_market_eq: "sample_market = set_listing sample_listing (set_asset_balance 7 1 6 sample_assets)"
  by (simp add: sample_market_def execute_create_listing_def Let_def listing_id_of_def
      sample_listing_def devnet_def ChainConfig_default_def)

lemma sample_market_wf [simp]: "wf_state sample_market"
  by (simp add: sample_market_eq wf_intros)

lemma sample_market_reads [simp]:
  "get_listing sample_market i = (if i = 9 then Some sample_listing else None)"
  "get_account sample_market a = get_account sample_state a"
  "get_asset_class sample_market i = get_asset_class sample_assets i"
  by (simp_all add: sample_market_eq listing_writes sample_listing_def)

lemma sample_market_total: "ledger_total sample_market = 1500"
proof -
  have "ledger_total sample_assets = ledger_total sample_state"
    by (simp add: sample_assets_def execute_create_asset_class_def execute_mint_asset_def sample_class
        Let_def get_asset_class_write can_mint_def saturating_add_def)
  then show ?thesis by (simp add: sample_market_eq sample_total)
qed

lemma sample_market_fits [simp]: "supply_fits sample_market"
  by (simp add: supply_fits_def sample_market_total)


subsection \<open>Properties of listings\<close>

lemma create_listing_accounted:
  assumes "assets_accounted s"
    and "\<And>l. get_listing s (listing_id_of sha256 sgnr cls amount price t) = Some l \<Longrightarrow> \<not> listing_is_active l"
  shows "assets_accounted (snd (execute_create_listing sha256 sgnr cls amount price cur config t s))"
proof (cases "get_asset_class s cls \<noteq> None \<and> amount \<le> get_asset_balance s cls sgnr")
  case True
  have "held get_listing (listing_escrow k) s (listing_id_of sha256 sgnr cls amount price t) = 0" for k
    using assms(2) by (auto simp: held_def listing_escrow_def split: option.splits)
  with True show ?thesis
    using assms(1)
    by (auto simp: execute_create_listing_def Let_def leD assets_accounted_def create_listing_units)
next
  case False
  then show ?thesis
    using assms(1) by (auto simp: execute_create_listing_def Let_def not_le split: option.splits)
qed

lemma cancel_listing_accounted:
  assumes "wf_state s" and "assets_accounted s"
  shows "assets_accounted (snd (execute_cancel_listing sgnr i s))"
proof (cases "\<exists>l. get_listing s i = Some l \<and> listing_is_active l \<and> lst_seller l = sgnr")
  case True
  then obtain l where l: "get_listing s i = Some l" "listing_is_active l" "lst_seller l = sgnr" by blast
  then show ?thesis
    using assms(2) close_listing_units [OF l(1) wf_keys(4) [OF assms(1) l(1)] l(2), of ListingCancelled _ sgnr]
      class_units_fits [OF assms(2)]
    by (simp add: execute_cancel_listing_def Let_def assets_accounted_def)
next
  case False
  then show ?thesis
    using assms(2) by (auto simp: execute_cancel_listing_def split: option.splits)
qed

text \<open>The payments of a purchase touch accounts only.\<close>

lemma pay_royalty_frame:
  "class_units k (snd (pay_royalty l r t s)) = class_units k s"
  "recorded_supply (snd (pay_royalty l r t s)) k = recorded_supply s k"
  "get_asset_balance (snd (pay_royalty l r t s)) c a = get_asset_balance s c a"
  "get_listing (snd (pay_royalty l r t s)) i = get_listing s i"
  by (auto simp: pay_royalty_def Let_def split: option.splits)

lemma buy_listing_accounted:
  assumes wf: "wf_state s" and acc: "assets_accounted s"
  shows "assets_accounted (snd (execute_buy_listing buyer i config t s))"
proof (cases rule: buy_listing_cases [of buyer i config t s])
  case (refused e)
  then show ?thesis using acc by simp
next
  case (paid l ba s1 s2 s3)
  define s4 where "s4 = snd (pay_royalty l (royalty_amount l) t s3)"
  have s4: "class_units k s4 = class_units k s" "recorded_supply s4 k = recorded_supply s k"
      "get_listing s4 i = Some l" for k
    using paid(1) by (simp_all add: s4_def pay_royalty_frame paid(6-8))
  have "assets_accounted s4"
    using acc by (simp add: assets_accounted_def s4)
  moreover have "class_units k (set_listing (l\<lparr>lst_status := ListingSold\<rparr>)
        (set_asset_balance (lst_asset_class_id l) buyer
          (saturating_add (get_asset_balance s4 (lst_asset_class_id l) buyer) (lst_amount l)) s4))
      = class_units k s4" for k
    using class_units_fits [OF \<open>assets_accounted s4\<close>]
    by (intro close_listing_units [OF s4(3) wf_keys(4) [OF wf paid(1)] paid(2)]) simp_all
  ultimately show ?thesis
    by (cases "pay_royalty l (royalty_amount l) t s3")
       (auto simp: paid(9) s4_def assets_accounted_def split: result.splits)
qed

text \<open>
  escrow never creates or destroys asset units. If the recorded supplies are exact, they still
  are after listing (unless the derived id is that of a listing still active), after cancelling and
  after buying, whatever the outcome of the call.
\<close>

theorem market_escrow_exact:
  assumes "wf_state s" and "assets_accounted s"
    and "\<And>l. get_listing s (listing_id_of sha sgnr cls amount price t) = Some l \<Longrightarrow> \<not> listing_is_active l"
  shows "s' \<in> {snd (execute_create_listing sha sgnr cls amount price cur config t s),
                snd (execute_cancel_listing sgnr' i s),
                snd (execute_buy_listing buyer i config t' s)} \<Longrightarrow> assets_accounted s'"
  using assms
  by (auto simp: create_listing_accounted cancel_listing_accounted buy_listing_accounted)

lemma sample_market_accounted: "assets_accounted sample_market"
  unfolding sample_market_def
  by (rule create_listing_accounted) simp_all

theorem market_escrow_exact_witness:
  "wf_state sample_market \<and> assets_accounted sample_market \<and>
   assets_accounted (snd (execute_buy_listing 2 9 devnet 0 sample_market))"
proof -
  have "assets_accounted (snd (execute_buy_listing 2 9 devnet 0 sample_market))"
    by (rule market_escrow_exact [where s = sample_market and sha = "\<lambda>_. 11" and sgnr = 1 and cls = 7 and amount = 1
          and price = 1 and t = 0 and cur = 0 and config = devnet and sgnr' = 1 and i = 9 and buyer = 2 and t' = 0])
       (simp_all add: sample_market_accounted listing_id_of_def)
  then show ?thesis by (simp add: sample_market_accounted)
qed

text \<open>
  a listing is closed at most once. After a successful purchase or cancellation every later
  purchase or cancellation of the same listing, by anyone, is refused with \<open>ListingNotActive\<close>.
\<close>

theorem listing_closed_once:
  assumes "wf_state s"
    and "r = execute_buy_listing buyer i config t s \<or> r = execute_cancel_listing sgnr i s"
    and "is_ok (fst r)"
  shows "execute_buy_listing buyer' i config' t' (snd r) = (Err ListingNotActive, snd r) \<and>
         execute_cancel_listing sgnr' i (snd r) = (Err ListingNotActive, snd r)"
proof -
  have "\<exists>l. get_listing (snd r) i = Some l \<and> \<not> listing_is_active l"
    using assms(2)
  proof
    assume r: "r = execute_buy_listing buyer i config t s"
    show ?thesis
    proof (cases rule: buy_listing_cases [of buyer i config t s])
      case (refused e)
      then show ?thesis using assms(3) r by simp
    next
      case (paid l ba s1 s2 s3)
      then show ?thesis
        using assms(3) r wf_keys(4) [OF assms(1) paid(1)]
        by (cases "pay_royalty l (royalty_amount l) t s3")
           (auto simp: listing_writes listing_is_active_def split: result.splits)
    qed
  next
    assume "r = execute_cancel_listing sgnr i s"
    then show ?thesis
      using assms(3) wf_keys(4) [OF assms(1)]
      by (auto simp: execute_cancel_listing_def Let_def listing_writes listing_is_active_def
          split: option.splits if_splits)
  qed
  then show ?thesis
    by (auto simp: execute_buy_listing_def execute_cancel_listing_def)
qed

theorem listing_closed_once_witness:
  "is_ok (fst (execute_cancel_listing 1 9 sample_market)) \<and>
   execute_buy_listing 2 9 devnet 0 (snd (execute_cancel_listing 1 9 sample_market))
     = (Err ListingNotActive, snd (execute_cancel_listing 1 9 sample_market))"
proof -
  have ok: "is_ok (fst (execute_cancel_listing 1 9 sample_market))"
    by (simp add: execute_cancel_listing_def Let_def sample_listing_def listing_is_active_def)
  then show ?thesis
    using listing_closed_once [OF sample_market_wf disjI2 [OF refl] ok, of 2 devnet 0 1] by simp
qed

end
