(* ===== verification/Mod_Staking.thy ===== *)
theory Mod_Staking
  imports Polay_Ledger Polay_Config
begin

section \<open>Staking (\<^verbatim>\<open>polay-execution/src/modules/staking.rs\<close>)\<close>

text \<open>
  Validator registration, delegation, undelegation into the unbonding queue, and the per-block pass
  that pays out mature unbonding entries. The lemmas relate the stake recorded with a validator to
  the delegations made to it, and show that tokens move between balances, delegations and the
  queue without loss, as long as fewer than 256 undelegations of one account complete at one height
  (the queue index is a \<open>u8\<close>).
\<close>

subsection \<open>Handlers\<close>

definition execute_register_validator ::
  "address \<Rightarrow> u16 \<Rightarrow> ChainConfig \<Rightarrow> chain_state \<Rightarrow> Event list outcome" where
  "execute_register_validator sgnr commission_bps config s =
     (if get_validator s sgnr \<noteq> None then (Err ValidatorAlreadyRegistered, s)
      else if cfg_max_commission_bps config < commission_bps then (Err InvalidCommission, s)
      else (Ok [Event_validator_registered sgnr commission_bps],
            set_validator (ValidatorInfo_new sgnr commission_bps) s))"

text \<open>The epoch of the block is computed after the account and the validator were written.\<close>

definition execute_delegate_stake ::
  "address \<Rightarrow> address \<Rightarrow> u64 \<Rightarrow> ChainConfig \<Rightarrow> u64 \<Rightarrow> chain_state \<Rightarrow> Event list outcome" where
  "execute_delegate_stake sgnr validator_addr amount config height s =
     (case get_validator s validator_addr of
        None \<Rightarrow> (Err ValidatorNotFound, s)
      | Some validator \<Rightarrow>
          if \<not> validator_is_active validator then (Err ValidatorNotFound, s)
          else
            (case get_account s sgnr of
               None \<Rightarrow> (Err (AccountNotFound sgnr), s)
             | Some account \<Rightarrow>
                 if acct_balance account < amount
                 then (Err (InsufficientBalance amount (acct_balance account)), s)
                 else
                   (case checked_sub (acct_balance account) amount of
                      None \<Rightarrow> (Err (InsufficientBalance amount (acct_balance account)), s)
                    | Some b \<Rightarrow>
                        let s1 = set_account (account\<lparr>acct_balance := b\<rparr>) s;
                            s2 = set_validator
                                   (validator\<lparr>val_stake := saturating_add (val_stake validator) amount\<rparr>) s1 in
                        if cfg_epoch_length config = 0 then (Panic, s2)
                        else
                          let current_epoch = height div cfg_epoch_length config;
                              delegation = add_stake (unwrap_or (get_delegation s2 sgnr validator_addr)
                                             (Delegation_new sgnr validator_addr)) amount;
                              s3 = set_delegation (delegation\<lparr>del_last_reward_epoch := current_epoch\<rparr>) s2
                          in (Ok [Event_stake_delegated sgnr validator_addr amount], s3))))"

definition execute_undelegate_stake ::
  "address \<Rightarrow> address \<Rightarrow> u64 \<Rightarrow> u64 \<Rightarrow> ChainConfig \<Rightarrow> chain_state \<Rightarrow> Event list outcome" where
  "execute_undelegate_stake sgnr validator_addr amount current_height config s =
     (case get_validator s validator_addr of
        None \<Rightarrow> (Err ValidatorNotFound, s)
      | Some validator \<Rightarrow>
          (case get_delegation s sgnr validator_addr of
             None \<Rightarrow> (Err InsufficientStake, s)
           | Some delegation \<Rightarrow>
               if del_amount delegation < amount then (Err InsufficientStake, s)
               else
                 let s1 = set_delegation (delegation\<lparr>del_amount := del_amount delegation - amount\<rparr>) s;
                     s2 = set_validator
                            (validator\<lparr>val_stake := saturating_sub (val_stake validator) amount\<rparr>) s1;
                     completion_height = current_height + cfg_unbonding_period_blocks config;
                     existing = get_unbonding_entries s2 sgnr;
                     index = word_of_nat (length (filter (\<lambda>e. ub_completion_height e = completion_height) existing));
                     entry = \<lparr>ub_delegator = sgnr, ub_validator = validator_addr, ub_amount = amount,
                              ub_initiated_at = current_height, ub_completion_height = completion_height\<rparr>;
                     s3 = set_unbonding_entry entry index s2
                 in (Ok [Event_unbonding_initiated sgnr validator_addr amount completion_height], s3)))"

fun release_unbondings :: "(UnbondingEntry \<times> u8) list \<Rightarrow> chain_state \<Rightarrow> Event list \<times> chain_state" where
  "release_unbondings [] s = ([], s)"
| "release_unbondings ((entry, index) # mature) s =
     (let account = unwrap_or (get_account s (ub_delegator entry)) (AccountState_new (ub_delegator entry) 0);
          s1 = set_account (account\<lparr>acct_balance := saturating_add (acct_balance account) (ub_amount entry)\<rparr>) s;
          s2 = delete_unbonding_entry (ub_delegator entry) (ub_completion_height entry) index s1;
          (events, s3) = release_unbondings mature s2
      in (Event_unbonding_completed (ub_delegator entry) (ub_validator entry) (ub_amount entry) # events, s3))"

definition process_mature_unbondings :: "u64 \<Rightarrow> chain_state \<Rightarrow> Event list outcome" where
  "process_mature_unbondings current_height s =
     (case release_unbondings (get_mature_unbondings s current_height) s of
        (events, s') \<Rightarrow> (Ok events, s'))"

subsection \<open>Stake and delegations\<close>

definition delegated_to :: "address \<Rightarrow> chain_state \<Rightarrow> nat" where
  "delegated_to v s = fmsum (\<lambda>d. if del_validator d = v then unat (del_amount d) else 0) (st_delegations s)"

definition recorded_stake :: "chain_state \<Rightarrow> address \<Rightarrow> nat" where
  "recorded_stake s v = (case get_validator s v of None \<Rightarrow> 0 | Some info \<Rightarrow> unat (val_stake info))"

definition stake_matches :: "chain_state \<Rightarrow> bool" where
  "stake_matches s \<longleftrightarrow> (\<forall>v. recorded_stake s v = delegated_to v s)"

interpretation stakes: pot "\<lambda>s (d, v). get_delegation s d v" set_delegation
  "\<lambda>d. (del_delegator d, del_validator d)"
  "\<lambda>d. if del_validator d = v then unat (del_amount d) else 0" "delegated_to v" for v
  by (rule fmap_pot [where f = st_delegations and rest = "\<lambda>_. 0"])
     (auto simp: delegated_to_def state_defs)

lemma delegated_to_frame [simp]:
  "delegated_to v (set_account a s) = delegated_to v s"
  "delegated_to v (set_validator i s) = delegated_to v s"
  "delegated_to v (set_unbonding_entry e n s) = delegated_to v s"
  by (simp_all add: delegated_to_def state_defs)

lemma recorded_stake_writes [simp]:
  "recorded_stake (set_account a s) v = recorded_stake s v"
  "recorded_stake (set_delegation d s) v = recorded_stake s v"
  "recorded_stake (set_unbonding_entry e n s) v = recorded_stake s v"
  "recorded_stake (set_validator i s) v = (if val_address i = v then unat (val_stake i) else recorded_stake s v)"
  by (simp_all add: recorded_stake_def state_defs)

lemma stake_matchesD: "stake_matches s \<Longrightarrow> get_validator s v = Some info \<Longrightarrow> unat (val_stake info) = delegated_to v s"
  unfolding stake_matches_def recorded_stake_def by (metis option.simps(5))

lemma delegated_le_ledger: "delegated_to v s \<le> ledger_total s"
proof -
  have "delegated_to v s \<le> fmsum (\<lambda>d. unat (del_amount d)) (st_delegations s)"
    unfolding delegated_to_def fmsum_def by (rule sum_mono) simp
  then show ?thesis by (simp add: ledger_total_def)
qed

lemma register_validator_matches:
  assumes "stake_matches s"
  shows "stake_matches (snd (execute_register_validator sgnr c config s))"
proof -
  have "get_validator s sgnr = None \<Longrightarrow> delegated_to sgnr s = 0"
    using assms by (metis option.simps(4) recorded_stake_def stake_matches_def)
  then show ?thesis
    using assms by (auto simp: execute_register_validator_def stake_matches_def ValidatorInfo_new_def)
qed

subsection \<open>Delegation\<close>

abbreviation delegation_of :: "chain_state \<Rightarrow> address \<Rightarrow> address \<Rightarrow> Delegation" where
  "delegation_of s d v \<equiv> unwrap_or (get_delegation s d v) (Delegation_new d v)"

lemma delegation_of_simps [simp]:
  "wf_state s \<Longrightarrow> del_delegator (delegation_of s d v) = d"
  "wf_state s \<Longrightarrow> del_validator (delegation_of s d v) = v"
  "unat (del_amount (delegation_of s d v))
     = held (\<lambda>s (d, v). get_delegation s d v) (\<lambda>d. unat (del_amount d)) s (d, v)"
proof -
  show "del_delegator (delegation_of s d v) = d" "del_validator (delegation_of s d v) = v" if "wf_state s"
    using wf_keys(13) [OF that, of d v] by (cases "get_delegation s d v"; simp add: Delegation_new_def)+
  show "unat (del_amount (delegation_of s d v))
     = held (\<lambda>s (d, v). get_delegation s d v) (\<lambda>d. unat (del_amount d)) s (d, v)"
    by (cases "get_delegation s d v") (simp_all add: Delegation_new_def)
qed

lemma delegate_stake_cases:
  obtains (refused) e where "execute_delegate_stake sgnr v amount config height s = (Err e, s)"
    | (staked) info acct s2 where "get_validator s v = Some info" "validator_is_active info"
      "get_account s sgnr = Some acct" "amount \<le> acct_balance acct"
      "s2 = set_validator (info\<lparr>val_stake := saturating_add (val_stake info) amount\<rparr>)
              (set_account (acct\<lparr>acct_balance := acct_balance acct - amount\<rparr>) s)"
      "execute_delegate_stake sgnr v amount config height s =
         (Ok [Event_stake_delegated sgnr v amount],
          set_delegation ((add_stake (delegation_of s2 sgnr v) amount)
            \<lparr>del_last_reward_epoch := height div cfg_epoch_length config\<rparr>) s2)"
    | (panicked) "cfg_epoch_length config = 0"
proof (cases "\<exists>info acct. get_validator s v = Some info \<and> validator_is_active info \<and>
    get_account s sgnr = Some acct \<and> amount \<le> acct_balance acct \<and> cfg_epoch_length config \<noteq> 0")
  case True
  then obtain info acct where ep: "cfg_epoch_length config \<noteq> 0" and *: "get_validator s v = Some info" "validator_is_active info"
    "get_account s sgnr = Some acct" "amount \<le> acct_balance acct" by blast
  show thesis
    by (rule staked [OF * refl]) (use * ep in \<open>simp add: execute_delegate_stake_def Let_def leD\<close>)
next
  case False
  then have "cfg_epoch_length config = 0 \<or> (\<exists>e. execute_delegate_stake sgnr v amount config height s = (Err e, s))"
    by (auto simp: execute_delegate_stake_def Let_def not_le split: option.splits)
  then show thesis using refused panicked by blast
qed

lemma delegate_stake_total:
  assumes wf: "wf_state s" and fits: "supply_fits s" and ep: "cfg_epoch_length config \<noteq> 0"
  shows "ledger_total (snd (execute_delegate_stake sgnr v amount config height s)) = ledger_total s"
proof (cases rule: delegate_stake_cases [of sgnr v amount config height s])
  case (staked info acct s2)
  let ?h = "held (\<lambda>s (d, v). get_delegation s d v) (\<lambda>d. unat (del_amount d)) s2 (sgnr, v)"
  let ?d = "(add_stake (delegation_of s2 sgnr v) amount)\<lparr>del_last_reward_epoch := height div cfg_epoch_length config\<rparr>"
  have wf2: "wf_state s2" and s2: "ledger_total s2 + unat amount = ledger_total s"
    using wf debit_total [OF staked(3) wf_keys(1) [OF wf staked(3)] staked(4)]
    by (simp_all add: staked(5) wf_intros)
  have "?h + unat amount < 2 ^ 64"
    using delegations.held_le [of s2 "(sgnr, v)"] s2 supply_fitsD [OF fits] by linarith
  then have "unat (del_amount ?d) = ?h + unat amount"
    by (simp add: add_stake_def unat_saturating_add)
  then show ?thesis
    using delegations.total_write [of ?d s2] s2 wf2 by (simp add: staked(6) add_stake_def)
qed (use ep in simp_all)

lemma delegate_stake_matches:
  assumes wf: "wf_state s" and fits: "supply_fits s" and sm: "stake_matches s"
    and ep: "cfg_epoch_length config \<noteq> 0"
  shows "stake_matches (snd (execute_delegate_stake sgnr v amount config height s))"
proof (cases rule: delegate_stake_cases [of sgnr v amount config height s])
  case (staked info acct s2)
  let ?h = "held (\<lambda>s (d, v). get_delegation s d v) (\<lambda>d. unat (del_amount d)) s2 (sgnr, v)"
  let ?d = "(add_stake (delegation_of s2 sgnr v) amount)\<lparr>del_last_reward_epoch := height div cfg_epoch_length config\<rparr>"
  have wf2: "wf_state s2" and s2: "ledger_total s2 + unat amount = ledger_total s"
    using wf debit_total [OF staked(3) wf_keys(1) [OF wf staked(3)] staked(4)]
    by (simp_all add: staked(5) wf_intros)
  have hv: "held (\<lambda>s (d, v). get_delegation s d v) (\<lambda>d. if del_validator d = k then unat (del_amount d) else 0) s2 (sgnr, v)
      = (if v = k then ?h else 0)" for k
    using wf_keys(13) [OF wf2, of sgnr v] by (auto simp: held_def split: option.splits)
  have fit: "delegated_to v s2 + unat amount < 2 ^ 64"
    using delegated_le_ledger [of v s2] s2 supply_fitsD [OF fits] by linarith
  then have "?h + unat amount < 2 ^ 64"
    using stakes.held_le [of v s2 "(sgnr, v)"] hv [of v] by simp
  then have "delegated_to k (set_delegation ?d s2) = delegated_to k s2 + (if v = k then unat amount else 0)" for k
    using stakes.total_write [of k ?d s2] wf2 hv [of k]
    by (cases "v = k") (simp_all add: add_stake_def unat_saturating_add)
  moreover have "unat (saturating_add (val_stake info) amount) = delegated_to v s2 + unat amount"
    using fit stake_matchesD [OF sm staked(1)] by (simp add: staked(5) unat_saturating_add)
  ultimately show ?thesis
    using sm wf_keys(3) [OF wf staked(1)] by (auto simp: staked(5,6) stake_matches_def)
qed (use ep sm in simp_all)

subsection \<open>The unbonding queue\<close>

text \<open>
  The slots of a delegator at a completion height. Slots are filled from 0 upwards and emptied
  together, so they are downward closed; the next index is then the number of slots in use.
\<close>

definition slots :: "chain_state \<Rightarrow> address \<Rightarrow> u64 \<Rightarrow> u8 set" where
  "slots s d h = {i. fmlookup (st_unbondings s) (d, h, i) \<noteq> None}"

definition slots_contiguous :: "chain_state \<Rightarrow> bool" where
  "slots_contiguous s \<longleftrightarrow> (\<forall>d h i j. i \<in> slots s d h \<longrightarrow> j \<le> i \<longrightarrow> j \<in> slots s d h)"

abbreviation unbonding_at :: "chain_state \<Rightarrow> address \<Rightarrow> u64 \<Rightarrow> u8 \<Rightarrow> nat" where
  "unbonding_at s d h i \<equiv> fmcontrib (\<lambda>e. unat (ub_amount e)) (st_unbondings s) (d, h, i)"

lemma ledger_set_unbonding:
  "ledger_total (set_unbonding_entry e i s) + unbonding_at s (ub_delegator e) (ub_completion_height e) i
     = ledger_total s + unat (ub_amount e)"
  using fmsum_upd_add [of "\<lambda>e. unat (ub_amount e)" "(ub_delegator e, ub_completion_height e, i)" e "st_unbondings s"]
  by (simp add: ledger_total_def set_unbonding_entry_def)

lemma ledger_delete_unbonding:
  "ledger_total (delete_unbonding_entry d h i s) + unbonding_at s d h i = ledger_total s"
  using fmcontrib_le_fmsum [of "\<lambda>e. unat (ub_amount e)" "st_unbondings s" "(d, h, i)"]
  by (simp add: ledger_total_def delete_unbonding_entry_def fmsum_drop)

lemma unbonding_le: "held get_account balance_of s a + unbonding_at s d h i \<le> ledger_total s"
  using fmcontrib_le_fmsum [of balance_of "st_accounts s" a]
    fmcontrib_le_fmsum [of "\<lambda>e. unat (ub_amount e)" "st_unbondings s" "(d, h, i)"]
  by (simp add: held_def fmcontrib_def ledger_total_def get_account_def)

lemma card_word_less: "card {j. j < (i :: 'a::len word)} = unat i"
proof -
  have "unat ` {j. j < i} = {..<unat i}"
  proof (intro equalityI subsetI)
    fix n assume "n \<in> {..<unat i}"
    moreover have "unat i < 2 ^ LENGTH('a)" by (rule unsigned_less)
    ultimately have "n < 2 ^ LENGTH('a)" by (meson lessThan_iff less_trans)
    with \<open>n \<in> {..<unat i}\<close> have "n = unat (word_of_nat n :: 'a word)" "(word_of_nat n :: 'a word) < i"
      by (simp_all add: unat_of_nat word_less_nat_alt)
    then show "n \<in> unat ` {j. j < i}" by blast
  qed (auto simp: word_less_nat_alt)
  moreover have "inj_on unat {j. j < i}"
    by (rule inj_onI) (simp add: unsigned_word_eqI)
  ultimately show ?thesis
    by (metis card_image card_lessThan)
qed

text \<open>A downward closed set of words is an initial segment, as long as its size fits the word.\<close>

lemma closed_words:
  fixes S :: "'a::len word set"
  assumes "\<And>i j. i \<in> S \<Longrightarrow> j \<le> i \<Longrightarrow> j \<in> S" and "card S < 2 ^ LENGTH('a)"
  shows "word_of_nat (card S) \<notin> S" and "\<And>j. j < word_of_nat (card S) \<Longrightarrow> j \<in> S"
proof -
  let ?n = "word_of_nat (card S) :: 'a word"
  have n: "unat ?n = card S" using assms(2) by (simp add: unat_of_nat)
  show "?n \<notin> S"
  proof
    assume "?n \<in> S"
    then have "insert ?n {j. j < ?n} \<subseteq> S" using assms(1) by auto
    then have "card (insert ?n {j. j < ?n}) \<le> card S" by (intro card_mono) simp_all
    then show False using n by (simp add: card_word_less)
  qed
  show "j \<in> S" if "j < ?n" for j
  proof (rule ccontr)
    assume "j \<notin> S"
    then have "S \<subseteq> {i. i < j}" using assms(1) by (auto simp: not_le [symmetric])
    then have "card S \<le> unat j" by (metis card_mono card_word_less finite)
    then show False using that n by (simp add: word_less_nat_alt)
  qed
qed

text \<open>The index an undelegation computes is the number of slots in use.\<close>

lemma entries_at_height:
  assumes "wf_state s"
  shows "length (filter (\<lambda>e. ub_completion_height e = h) (get_unbonding_entries s d)) = card (slots s d h)"
proof -
  have "filter (\<lambda>e. ub_completion_height e = h) (get_unbonding_entries s d)
      = map snd (filter (\<lambda>x. fst (fst x) = d \<and> ub_completion_height (snd x) = h) (sorted_list_of_fmap (st_unbondings s)))"
    by (simp add: get_unbonding_entries_def filter_map comp_def case_prod_beta conj_commute)
  then have "length (filter (\<lambda>e. ub_completion_height e = h) (get_unbonding_entries s d))
      = card {k. \<exists>e. fmlookup (st_unbondings s) k = Some e \<and> fst k = d \<and> ub_completion_height e = h}"
    by (simp add: length_filter_scan case_prod_beta)
  also have "{k. \<exists>e. fmlookup (st_unbondings s) k = Some e \<and> fst k = d \<and> ub_completion_height e = h}
      = (\<lambda>i. (d, h, i)) ` slots s d h"
    using assms by (fastforce simp: wf_state_def unbondings_mirrored_def slots_def)
  also have "card \<dots> = card (slots s d h)"
    by (rule card_image) (simp add: inj_on_def)
  finally show ?thesis .
qed

subsection \<open>Undelegation\<close>

lemma undelegate_stake_cases:
  obtains (refused) e where "execute_undelegate_stake sgnr v amount height config s = (Err e, s)"
    | (queued) info d s2 h i where "get_validator s v = Some info" "get_delegation s sgnr v = Some d"
      "amount \<le> del_amount d" "h = height + cfg_unbonding_period_blocks config"
      "s2 = set_validator (info\<lparr>val_stake := saturating_sub (val_stake info) amount\<rparr>)
              (set_delegation (d\<lparr>del_amount := del_amount d - amount\<rparr>) s)"
      "i = word_of_nat (length (filter (\<lambda>e. ub_completion_height e = h) (get_unbonding_entries s2 sgnr)))"
      "execute_undelegate_stake sgnr v amount height config s =
         (Ok [Event_unbonding_initiated sgnr v amount h],
          set_unbonding_entry \<lparr>ub_delegator = sgnr, ub_validator = v, ub_amount = amount,
            ub_initiated_at = height, ub_completion_height = h\<rparr> i s2)"
proof (cases "\<exists>info d. get_validator s v = Some info \<and> get_delegation s sgnr v = Some d \<and> amount \<le> del_amount d")
  case True
  then obtain info d where *: "get_validator s v = Some info" "get_delegation s sgnr v = Some d"
    "amount \<le> del_amount d" by blast
  show thesis
    by (rule queued [OF * refl refl refl]) (use * in \<open>simp add: execute_undelegate_stake_def Let_def leD\<close>)
next
  case False
  then have "\<exists>e. execute_undelegate_stake sgnr v amount height config s = (Err e, s)"
    by (auto simp: execute_undelegate_stake_def Let_def not_le split: option.splits)
  then show thesis using refused by blast
qed

lemma undelegate_wf:
  "wf_state s \<Longrightarrow> wf_state (snd (execute_undelegate_stake sgnr v amount height config s))"
  by (rule undelegate_stake_cases [of sgnr v amount height config s]) (simp_all add: wf_intros)

lemma delegate_wf:
  "wf_state s \<Longrightarrow> wf_state (snd (execute_delegate_stake sgnr v amount config height s))"
  by (auto simp: execute_delegate_stake_def Let_def intro!: wf_intros split: option.splits)

lemma register_validator_wf: "wf_state s \<Longrightarrow> wf_state (snd (execute_register_validator sgnr c config s))"
  by (simp add: execute_register_validator_def wf_intros)

lemma slots_writes [simp]:
  "slots (set_validator info s) d h = slots s d h"
  "slots (set_delegation dl s) d h = slots s d h"
  "slots (set_account a s) d h = slots s d h"
  "slots (set_unbonding_entry e i s) d h
     = (if d = ub_delegator e \<and> h = ub_completion_height e then insert i (slots s d h) else slots s d h)"
  by (auto simp: slots_def state_defs)

lemma remove_delegation_total:
  assumes "wf_state s" and "get_delegation s d v = Some dl" and "amount \<le> del_amount dl"
  shows "ledger_total (set_delegation (dl\<lparr>del_amount := del_amount dl - amount\<rparr>) s) + unat amount = ledger_total s"
  using delegations.total_write [of "dl\<lparr>del_amount := del_amount dl - amount\<rparr>" s] assms
    wf_keys(13) [OF assms(1,2)]
  by (simp add: unat_sub word_le_nat_alt)

lemma undelegate_stake_total:
  assumes wf: "wf_state s" and slots: "slots_contiguous s"
    and room: "card (slots s sgnr (height + cfg_unbonding_period_blocks config)) < 256"
  shows "ledger_total (snd (execute_undelegate_stake sgnr v amount height config s)) = ledger_total s \<and>
         slots_contiguous (snd (execute_undelegate_stake sgnr v amount height config s))"
proof (cases rule: undelegate_stake_cases [of sgnr v amount height config s])
  case (refused e)
  then show ?thesis using slots by simp
next
  case (queued info d s2 h i)
  have "wf_state s2" using wf by (simp add: queued(5) wf_intros)
  then have i: "i = word_of_nat (card (slots s sgnr h))"
    unfolding queued(6) by (simp add: entries_at_height) (simp add: queued(5))
  have closed: "\<And>i j. i \<in> slots s sgnr h \<Longrightarrow> j \<le> i \<Longrightarrow> j \<in> slots s sgnr h"
    using slots by (auto simp: slots_contiguous_def)
  have size: "card (slots s sgnr h) < 2 ^ LENGTH(8)" using room by (simp add: queued(4))
  have free: "i \<notin> slots s sgnr h" unfolding i by (rule closed_words(1) [OF closed size])
  have below: "\<And>j. j < i \<Longrightarrow> j \<in> slots s sgnr h" unfolding i by (rule closed_words(2) [OF closed size])
  have "fmlookup (st_unbondings s2) (sgnr, h, i) = None"
    using free by (simp add: slots_def queued(5) state_defs)
  then have "ledger_total (snd (execute_undelegate_stake sgnr v amount height config s)) = ledger_total s2 + unat amount"
    using ledger_set_unbonding [of "\<lparr>ub_delegator = sgnr, ub_validator = v, ub_amount = amount,
            ub_initiated_at = height, ub_completion_height = h\<rparr>" i s2]
    by (simp add: queued(7))
  moreover have "ledger_total s2 + unat amount = ledger_total s"
    using remove_delegation_total [OF wf queued(2,3)] by (simp add: queued(5))
  moreover have "slots_contiguous (snd (execute_undelegate_stake sgnr v amount height config s))"
    using slots below by (auto simp: queued(5,7) slots_contiguous_def order_le_less)
  ultimately show ?thesis by simp
qed

lemma undelegate_stake_matches:
  assumes wf: "wf_state s" and sm: "stake_matches s"
  shows "stake_matches (snd (execute_undelegate_stake sgnr v amount height config s))"
proof (cases rule: undelegate_stake_cases [of sgnr v amount height config s])
  case (refused e)
  then show ?thesis using sm by simp
next
  case (queued info d s2 h i)
  let ?d = "d\<lparr>del_amount := del_amount d - amount\<rparr>"
  have keys: "del_delegator d = sgnr" "del_validator d = v"
    using wf_keys(13) [OF wf queued(2)] by auto
  have moved: "delegated_to k (set_delegation ?d s) + (if v = k then unat amount else 0) = delegated_to k s" for k
    using stakes.total_write [of k ?d s] queued(2,3) keys
    by (cases "v = k") (simp_all add: unat_sub word_le_nat_alt)
  have "recorded_stake s2 k = delegated_to k s2" for k
  proof (cases "v = k")
    case True
    then show ?thesis
      using moved [of k] wf_keys(3) [OF wf queued(1)] stake_matchesD [OF sm queued(1)]
      by (simp add: queued(5) unat_saturating_sub)
  next
    case False
    then show ?thesis
      using moved [of k] sm wf_keys(3) [OF wf queued(1)] by (simp add: queued(5) stake_matches_def)
  qed
  then show ?thesis
    by (simp add: queued(7) stake_matches_def)
qed

subsection \<open>Paying out mature entries\<close>

fun entry_key :: "UnbondingEntry \<times> u8 \<Rightarrow> address \<times> u64 \<times> u8" where
  "entry_key (e, i) = (ub_delegator e, ub_completion_height e, i)"

text \<open>One round of the loop moves one entry into its delegator's balance.\<close>

lemma release_step:
  assumes wf: "wf_state s" and fits: "supply_fits s"
    and e: "fmlookup (st_unbondings s) (entry_key (e, i)) = Some e"
    and s': "s' = delete_unbonding_entry (ub_delegator e) (ub_completion_height e) i
                    (credited (ub_delegator e) 0 (ub_amount e) s)"
  shows "wf_state s'" "ledger_total s' = ledger_total s"
    "fmlookup (st_unbondings s') k = (if k = entry_key (e, i) then None else fmlookup (st_unbondings s) k)"
proof -
  let ?s1 = "credited (ub_delegator e) 0 (ub_amount e) s"
  show "wf_state s'" using wf by (simp add: s' wf_intros)
  have at: "unbonding_at s (ub_delegator e) (ub_completion_height e) i = unat (ub_amount e)"
    using e by simp
  have ub: "st_unbondings ?s1 = st_unbondings s" by (simp add: set_account_def)
  have "ledger_total ?s1 = ledger_total s + unat (ub_amount e)"
  proof (rule credit_total [where a = "ub_delegator e"])
    show "held get_account balance_of s (ub_delegator e) + unat (ub_amount e) < 2 ^ 64"
      using unbonding_le [of s "ub_delegator e" "ub_delegator e" "ub_completion_height e" i] at
        supply_fitsD [OF fits] by linarith
  qed (use wf in simp_all)
  then show "ledger_total s' = ledger_total s"
    using ledger_delete_unbonding [of "ub_delegator e" "ub_completion_height e" i ?s1] at
    by (simp add: s' ub)
  show "fmlookup (st_unbondings s') k = (if k = entry_key (e, i) then None else fmlookup (st_unbondings s) k)"
    by (simp add: s' delete_unbonding_entry_def set_account_def)
qed

lemma release_unbondings_spec:
  assumes "wf_state s" and "supply_fits s" and "distinct (map entry_key ms)"
    and "\<And>e i. (e, i) \<in> set ms \<Longrightarrow> fmlookup (st_unbondings s) (entry_key (e, i)) = Some e"
  shows "wf_state (snd (release_unbondings ms s)) \<and> ledger_total (snd (release_unbondings ms s)) = ledger_total s \<and>
    (\<forall>k. fmlookup (st_unbondings (snd (release_unbondings ms s))) k
       = (if k \<in> entry_key ` set ms then None else fmlookup (st_unbondings s) k))"
  using assms
proof (induction ms arbitrary: s)
  case (Cons p ms)
  obtain e i where p: "p = (e, i)" by (cases p)
  define s' where "s' = delete_unbonding_entry (ub_delegator e) (ub_completion_height e) i
                    (credited (ub_delegator e) 0 (ub_amount e) s)"
  have look: "fmlookup (st_unbondings s) (entry_key (e, i)) = Some e"
    using Cons.prems(4) [of e i] p by simp
  note step = release_step [OF Cons.prems(1,2) look s'_def]
  have res: "snd (release_unbondings (p # ms) s) = snd (release_unbondings ms s')"
    by (simp add: p s'_def Let_def split: prod.split)
  have "fmlookup (st_unbondings s') (entry_key (e', i')) = Some e'" if "(e', i') \<in> set ms" for e' i'
  proof -
    have "entry_key (e, i) \<notin> entry_key ` set ms"
      using Cons.prems(3) unfolding p by (simp del: entry_key.simps)
    then have "entry_key (e', i') \<noteq> entry_key (e, i)"
      using imageI [OF that, of entry_key] by metis
    then show ?thesis
      unfolding step(3) using Cons.prems(4) [of e' i'] that by simp
  qed
  then have IH: "wf_state (snd (release_unbondings ms s')) \<and>
      ledger_total (snd (release_unbondings ms s')) = ledger_total s' \<and>
      (\<forall>k. fmlookup (st_unbondings (snd (release_unbondings ms s'))) k
         = (if k \<in> entry_key ` set ms then None else fmlookup (st_unbondings s') k))"
    using Cons.prems(2,3) step(1,2) p by (intro Cons.IH) (simp_all add: supply_fits_def)
  then show ?case
    unfolding res using step(2,3) p by auto
qed simp

lemma mature_entries:
  assumes "wf_state s"
  shows "set (get_mature_unbondings s h) = {(e, i). ub_completion_height e \<le> h \<and>
      fmlookup (st_unbondings s) (entry_key (e, i)) = Some e}"
    and "distinct (map entry_key (get_mature_unbondings s h))"
proof -
  let ?xs = "sorted_list_of_fmap (st_unbonding_index s)"
  have mirror: "fmlookup (st_unbonding_index s) (k, d, i) = Some e \<longleftrightarrow>
      fmlookup (st_unbondings s) (d, k, i) = Some e \<and> ub_delegator e = d \<and> ub_completion_height e = k" for k d i e
    using assms by (auto simp: wf_state_def unbondings_mirrored_def)
  have tw: "takeWhile (\<lambda>((k, d, i), e). k \<le> h) ?xs = filter (\<lambda>((k, d, i), e). k \<le> h) ?xs"
    by (rule takeWhile_sorted_keys [OF sorted_keys_scan]) (auto simp: less_eq_prod_def)
  show "set (get_mature_unbondings s h) = {(e, i). ub_completion_height e \<le> h \<and>
      fmlookup (st_unbondings s) (entry_key (e, i)) = Some e}"
    unfolding get_mature_unbondings_def tw by (force simp: set_scan mirror)
  have "map entry_key (get_mature_unbondings s h)
      = map (\<lambda>(k, d, i). (d, k, i)) (map fst (filter (\<lambda>((k, d, i), e). k \<le> h) ?xs))"
    unfolding get_mature_unbondings_def tw by (auto simp: set_scan mirror)
  moreover have "distinct (map fst (filter (\<lambda>((k, d, i), e). k \<le> h) ?xs))"
    using distinct_keys_scan by (rule distinct_map_filter)
  ultimately show "distinct (map entry_key (get_mature_unbondings s h))"
    by (simp only:) (auto simp: distinct_map inj_on_def)
qed

lemma process_mature_spec:
  assumes "wf_state s" and "supply_fits s"
  shows "wf_state (snd (process_mature_unbondings h s))"
    "ledger_total (snd (process_mature_unbondings h s)) = ledger_total s"
    "fmlookup (st_unbondings (snd (process_mature_unbondings h s))) (d, k, i)
       = (if k \<le> h then None else fmlookup (st_unbondings s) (d, k, i))"
proof -
  let ?ms = "get_mature_unbondings s h"
  have res: "snd (process_mature_unbondings h s) = snd (release_unbondings ?ms s)"
    by (simp add: process_mature_unbondings_def split: prod.split)
  have spec: "wf_state (snd (release_unbondings ?ms s)) \<and> ledger_total (snd (release_unbondings ?ms s)) = ledger_total s \<and>
    (\<forall>k. fmlookup (st_unbondings (snd (release_unbondings ?ms s))) k
       = (if k \<in> entry_key ` set ?ms then None else fmlookup (st_unbondings s) k))"
    using mature_entries [OF assms(1), of h] by (intro release_unbondings_spec assms) auto
  show "wf_state (snd (process_mature_unbondings h s))"
    "ledger_total (snd (process_mature_unbondings h s)) = ledger_total s"
    using spec by (simp_all add: res)
  have keys: "ub_delegator e = d \<and> ub_completion_height e = k"
    if "fmlookup (st_unbondings s) (d, k, i) = Some e" for e
    using assms(1) that by (simp add: wf_state_def unbondings_mirrored_def)
  have "(d, k, i) \<in> entry_key ` set ?ms \<longleftrightarrow> k \<le> h \<and> fmlookup (st_unbondings s) (d, k, i) \<noteq> None"
  proof
    assume "(d, k, i) \<in> entry_key ` set ?ms"
    then obtain e where "(e, i) \<in> set ?ms" "entry_key (e, i) = (d, k, i)" by auto
    then show "k \<le> h \<and> fmlookup (st_unbondings s) (d, k, i) \<noteq> None"
      unfolding mature_entries(1) [OF assms(1)] by simp
  next
    assume *: "k \<le> h \<and> fmlookup (st_unbondings s) (d, k, i) \<noteq> None"
    then obtain e where "fmlookup (st_unbondings s) (d, k, i) = Some e" by blast
    with * keys [of e] have "(e, i) \<in> set ?ms" "entry_key (e, i) = (d, k, i)"
      unfolding mature_entries(1) [OF assms(1)] by simp_all
    then show "(d, k, i) \<in> entry_key ` set ?ms" by (metis imageI)
  qed
  then show "fmlookup (st_unbondings (snd (process_mature_unbondings h s))) (d, k, i)
       = (if k \<le> h then None else fmlookup (st_unbondings s) (d, k, i))"
    using spec by (auto simp: res)
qed

subsection \<open>A state with one validator, a delegation and an unbonding entry\<close>

definition sample_staked :: chain_state where
  "sample_staked =
     snd (execute_delegate_stake 1 2 600 devnet 10
       (snd (execute_register_validator 2 100 devnet sample_state)))"

definition sample_unbonding :: chain_state where
  "sample_unbonding = snd (execute_undelegate_stake 1 2 200 10 devnet sample_staked)"

lemma devnet_epoch [simp]: "cfg_epoch_length devnet = 7200" "cfg_epoch_length devnet \<noteq> 0"
  by (simp_all add: devnet_def ChainConfig_default_def)

lemma sample_queue_empty [simp]:
  "st_unbondings sample_state = fmempty" "st_delegations sample_state = fmempty" "get_validator sample_state v = None"
  by (simp_all add: sample_state_def state_defs empty_state_def)

lemma sample_staked_facts:
  "wf_state sample_staked" "supply_fits sample_staked" "stake_matches sample_staked"
  "slots_contiguous sample_staked" "slots sample_staked d h = {}"
proof -
  let ?s = "snd (execute_register_validator 2 100 devnet sample_state)"
  have reg: "wf_state ?s" "ledger_total ?s = ledger_total sample_state" "st_unbondings ?s = fmempty"
  proof -
    show "wf_state ?s" by (rule register_validator_wf) simp
    show "ledger_total ?s = ledger_total sample_state" by (simp add: execute_register_validator_def)
    show "st_unbondings ?s = fmempty" by (simp add: execute_register_validator_def set_validator_def)
  qed
  then have fits: "supply_fits ?s"
    using sample_fits by (simp add: supply_fits_def)
  show "wf_state sample_staked"
    unfolding sample_staked_def by (intro delegate_wf reg)
  show "supply_fits sample_staked"
    unfolding sample_staked_def supply_fits_def
    using delegate_stake_total [OF reg(1) fits, of devnet] supply_fitsD [OF fits] by simp
  have "stake_matches sample_state"
    by (simp add: stake_matches_def recorded_stake_def delegated_to_def)
  then show "stake_matches sample_staked"
    unfolding sample_staked_def by (intro delegate_stake_matches register_validator_matches reg fits) simp_all
  show "slots sample_staked d h = {}" for d h
    unfolding sample_staked_def
    by (rule delegate_stake_cases [of 1 2 600 devnet 10 ?s]) (use reg(3) in \<open>simp_all add: slots_def state_defs\<close>)
  then show "slots_contiguous sample_staked"
    by (simp add: slots_contiguous_def)
qed

text \<open>
  C20: staking moves tokens and never creates or destroys them. With a non-zero epoch length (which
  \<open>validate\<close> enforces), fewer than 256 undelegations of the signer completing at the same height,
  and a supply that fits a \<open>u64\<close>, registration, delegation, undelegation and the pay-out of mature
  entries all leave the sum of balances, stakes and queued entries unchanged, on every outcome.
\<close>

theorem staking_conserves:
  assumes "wf_state s" and "supply_fits s" and "slots_contiguous s"
    and "cfg_epoch_length config \<noteq> 0"
    and "card (slots s sgnr (height + cfg_unbonding_period_blocks config)) < 256"
  shows "s' \<in> {snd (execute_register_validator sgnr c config s),
                snd (execute_delegate_stake sgnr v amount config height s),
                snd (execute_undelegate_stake sgnr v amount height config s),
                snd (process_mature_unbondings height s)} \<Longrightarrow>
         ledger_total s' = ledger_total s"
  using assms process_mature_spec(2) [OF assms(1,2), of height] undelegate_stake_total [OF assms(1,3,5)]
  by (auto simp: delegate_stake_total execute_register_validator_def)

theorem staking_conserves_witness:
  "wf_state sample_staked \<and> supply_fits sample_staked \<and> slots_contiguous sample_staked \<and>
   ledger_total (snd (execute_undelegate_stake 1 2 200 10 devnet sample_staked)) = ledger_total sample_staked"
  using staking_conserves [of sample_staked devnet 1 10
      "snd (execute_undelegate_stake 1 2 200 10 devnet sample_staked)" 100 2 200]
  by (simp add: sample_staked_facts)



text \<open>
  unbonding entries are released exactly when they are mature. After
  \<open>process_mature_unbondings\<close> at a height, no entry with a completion height up to it is left in
  either index, every later entry is still there untouched, and the ledger total is unchanged, so
  what left the queue is in the delegators' balances.
\<close>

theorem unbonding_released_at_maturity:
  assumes "wf_state s" and "supply_fits s"
  shows "let s' = snd (process_mature_unbondings height s) in
    (\<forall>d h i. fmlookup (st_unbondings s') (d, h, i)
        = (if h \<le> height then None else fmlookup (st_unbondings s) (d, h, i)) \<and>
      fmlookup (st_unbonding_index s') (h, d, i) = fmlookup (st_unbondings s') (d, h, i)) \<and>
    get_mature_unbondings s' height = [] \<and> ledger_total s' = ledger_total s"
proof -
  let ?s' = "snd (process_mature_unbondings height s)"
  note spec = process_mature_spec [OF assms, of height]
  have "set (get_mature_unbondings ?s' height) = {}"
    unfolding mature_entries(1) [OF spec(1)] using spec(3) by auto
  moreover have "fmlookup (st_unbonding_index ?s') (h, d, i) = fmlookup (st_unbondings ?s') (d, h, i)" for d h i
    using spec(1) by (simp add: wf_state_def unbondings_mirrored_def)
  ultimately show ?thesis
    unfolding Let_def using spec(2,3) by simp
qed

theorem unbonding_released_at_maturity_witness:
  "get_mature_unbondings (snd (process_mature_unbondings 20000 sample_unbonding)) 20000 = [] \<and>
   wf_state sample_unbonding \<and> supply_fits sample_unbonding"
proof -
  have "wf_state sample_unbonding"
    unfolding sample_unbonding_def by (intro undelegate_wf sample_staked_facts)
  moreover have "supply_fits sample_unbonding"
    unfolding sample_unbonding_def supply_fits_def
    using undelegate_stake_total [OF sample_staked_facts(1,4), of 1 10 devnet 2 200]
      supply_fitsD [OF sample_staked_facts(2)]
    by (simp add: sample_staked_facts)
  ultimately show ?thesis
    using unbonding_released_at_maturity [of sample_unbonding 20000] by (simp add: Let_def)
qed

end
