(* ===== verification/Mod_Identity.thy ===== *)
theory Mod_Identity
  imports Polay_Ledger
begin

section \<open>Player identity (\<^verbatim>\<open>polay-execution/src/modules/identity.rs\<close>)\<close>

text \<open>
  Profiles, achievements and reputation. Hex encoding (crate \<^verbatim>\<open>hex\<close>) is the parameter
  \<open>hex_encode\<close>; it only supplies the user name of a profile that is opened implicitly.
\<close>

definition to_hex :: "(u8 list \<Rightarrow> string) \<Rightarrow> address \<Rightarrow> string" where
  "to_hex hex_encode a = hex_encode (as_bytes a)"

definition execute_create_profile ::
  "address \<Rightarrow> string \<Rightarrow> string \<Rightarrow> string option \<Rightarrow> u64 \<Rightarrow> chain_state \<Rightarrow> Event list outcome" where
  "execute_create_profile sgnr username display_name metadata timestamp s =
     (if get_profile s sgnr \<noteq> None then (Err ProfileAlreadyExists, s)
      else (Ok [Event_profile_created sgnr username],
            set_profile (PlayerProfile_new sgnr username display_name metadata timestamp) s))"

definition execute_add_achievement ::
  "address \<Rightarrow> address \<Rightarrow> string \<Rightarrow> string \<Rightarrow> string \<Rightarrow> u64 \<Rightarrow> chain_state \<Rightarrow> Event list outcome" where
  "execute_add_achievement sgnr player achievement_id name metadata timestamp s =
     (if get_attestor s sgnr = None then (Err Unauthorized, s)
      else
        let achievement = \<lparr>ach_id = achievement_id, ach_player = player, ach_name = name,
                           ach_metadata = metadata, ach_awarded_at = timestamp, ach_soulbound = True\<rparr>
        in (Ok [Event_achievement_awarded player achievement_id name], set_achievement achievement s))"

definition execute_update_reputation ::
  "(u8 list \<Rightarrow> string) \<Rightarrow> address \<Rightarrow> address \<Rightarrow> i64 \<Rightarrow> string \<Rightarrow> u64 \<Rightarrow> chain_state \<Rightarrow> Event list outcome" where
  "execute_update_reputation hex_encode sgnr player delta rsn timestamp s =
     (if get_attestor s sgnr = None then (Err Unauthorized, s)
      else
        let profile = (case get_profile s player of
                         Some p \<Rightarrow> p
                       | None \<Rightarrow> PlayerProfile_new player (to_hex hex_encode player) ''Anonymous'' None timestamp);
            profile' = adjust_reputation profile delta
        in (Ok [Event_reputation_changed player delta (prof_reputation profile')], set_profile profile' s))"

lemma identity_wf:
  assumes "wf_state s"
  shows "wf_state (snd (execute_create_profile sgnr u d m t s))"
    "wf_state (snd (execute_add_achievement sgnr player i n m' t s))"
    "wf_state (snd (execute_update_reputation hx sgnr player delta r t s))"
  using assms
  by (simp_all add: execute_create_profile_def execute_add_achievement_def execute_update_reputation_def
      Let_def wf_intros)

lemma identity_total:
  "ledger_total (snd (execute_create_profile sgnr u d m t s)) = ledger_total s"
  "ledger_total (snd (execute_add_achievement sgnr player i n m' t s)) = ledger_total s"
  "ledger_total (snd (execute_update_reputation hx sgnr player delta r t s)) = ledger_total s"
  by (simp_all add: execute_create_profile_def execute_add_achievement_def execute_update_reputation_def Let_def)

lemma sint_bounds: "- (2 ^ 63) \<le> sint (w :: i64)" "sint (w :: i64) < 2 ^ 63"
  using sint_ge [of w] sint_lt [of w] by simp_all

text \<open>Signed saturation clamps the mathematical sum.\<close>

lemma sint_saturating_add_signed:
  "sint (saturating_add_signed a b :: i64) = max (- (2 ^ 63)) (min (2 ^ 63 - 1) (sint a + sint b))"
proof -
  consider "sint a + sint b < - (2 ^ 63)" | "2 ^ 63 \<le> sint a + sint b"
    | "- (2 ^ 63) \<le> sint a + sint b" "sint a + sint b < 2 ^ 63" by linarith
  then show ?thesis
  proof cases
    case 3
    then have "sint (a + b) = sint a + sint b"
      by (simp add: signed_take_bit_int_eq_self sint_word_ariths(1))
    with 3 show ?thesis by (simp add: saturating_add_signed_def Let_def)
  qed (simp_all add: saturating_add_signed_def Let_def)
qed

text \<open>
  reputation follows the attestor's adjustments exactly, clamped to the signed 64-bit range.
  \<open>execute_update_reputation\<close> by a registered attestor sets the player's reputation to the old one
  (zero for a player without a profile) plus \<open>delta\<close>, never wrapping around; without that
  registration it is refused and nothing changes.
\<close>

theorem reputation_update_exact:
  assumes "wf_state s"
  shows "case execute_update_reputation hx sgnr player delta rsn t s of
      (Ok _, s') \<Rightarrow> get_attestor s sgnr \<noteq> None \<and>
        (\<exists>p. get_profile s' player = Some p \<and>
          sint (prof_reputation p) = max (- (2 ^ 63)) (min (2 ^ 63 - 1)
            ((case get_profile s player of None \<Rightarrow> 0 | Some q \<Rightarrow> sint (prof_reputation q)) + sint delta))) \<and>
        (\<forall>q. q \<noteq> player \<longrightarrow> get_profile s' q = get_profile s q)
    | (_, s') \<Rightarrow> get_attestor s sgnr = None \<and> s' = s"
  using wf_keys(5) [OF assms, of player]
  by (auto simp: execute_update_reputation_def Let_def adjust_reputation_def PlayerProfile_new_def
      sint_saturating_add_signed get_profile_def set_profile_def split: option.splits)

definition sample_attestor :: Attestor where
  "sample_attestor = \<lparr>att_address = 2, att_game_id = ''arena'', att_endpoint = [], att_metadata = [],
     att_status = AttestorActive, att_registered_at = 0\<rparr>"

definition sample_attested :: chain_state where
  "sample_attested = set_attestor sample_attestor sample_state"

lemma sample_attested_facts [simp]:
  "wf_state sample_attested" "get_attestor sample_attested 2 = Some sample_attestor"
  "get_attestor sample_attested 1 = None" "get_account sample_attested a = get_account sample_state a"
  by (simp_all add: sample_attested_def wf_intros)
     (simp_all add: get_attestor_def set_attestor_def sample_attestor_def sample_state_def set_account_def empty_state_def)

theorem reputation_update_exact_witness:
  "wf_state sample_attested \<and>
   (\<exists>p. get_profile (snd (execute_update_reputation (\<lambda>_. []) 2 1 5 [] 0 sample_attested)) 1 = Some p \<and>
      sint (prof_reputation p) = 5)"
proof -
  have "get_profile sample_attested 1 = None"
    by (simp add: sample_attested_def sample_state_def state_defs empty_state_def)
  then show ?thesis
    using reputation_update_exact [of sample_attested, where hx = "\<lambda>_. []" and sgnr = 2 and player = 1 and delta = 5
        and rsn = "[]" and t = 0]
    by (auto simp: execute_update_reputation_def Let_def)
qed

end
