(* ===== verification/Mod_Session.thy ===== *)
theory Mod_Session
  imports Polay_Ledger
begin

section \<open>Session keys (\<^verbatim>\<open>polay-execution/src/modules/session.rs\<close>)\<close>

text \<open>
  Creating and revoking temporary signing keys. The address of a session key is the SHA-256 digest
  of its public key (parameter \<open>sha256\<close>).
\<close>

definition execute_create_session ::
  "(u8 list \<Rightarrow> hash) \<Rightarrow> address \<Rightarrow> u8 list \<Rightarrow> SessionPermission \<Rightarrow> u64 \<Rightarrow> u64 \<Rightarrow> u64 \<Rightarrow> chain_state \<Rightarrow>
   Event list outcome" where
  "execute_create_session sha256 sgnr session_pubkey permissions expires_at spending_limit current_height s =
     (if length session_pubkey \<noteq> 32 then (Err (InvalidSessionPubkey (length session_pubkey)), s)
      else
        let session_address = sha256 session_pubkey in
        if expires_at \<le> current_height
        then (Err (InvalidInput ''session expires_at must be greater than current height''), s)
        else if (case get_session s sgnr session_address of
                   Some existing \<Rightarrow> session_is_valid existing current_height
                 | None \<Rightarrow> False)
        then (Err SessionAlreadyExists, s)
        else
          let grant = \<lparr>ses_granter = sgnr, ses_session_pubkey = session_pubkey,
                       ses_session_address = session_address, ses_permissions = permissions,
                       ses_expires_at = expires_at, ses_spending_limit = spending_limit,
                       ses_amount_spent = 0, ses_revoked = False, ses_created_at = current_height\<rparr>
          in (Ok [Event_session_created sgnr session_address expires_at], set_session grant s))"

definition execute_revoke_session :: "address \<Rightarrow> address \<Rightarrow> chain_state \<Rightarrow> Event list outcome" where
  "execute_revoke_session sgnr session_address s =
     (case get_session s sgnr session_address of
        None \<Rightarrow> (Err SessionNotFound, s)
      | Some grant \<Rightarrow>
          if ses_granter grant \<noteq> sgnr then (Err Unauthorized, s)
          else if ses_revoked grant then (Err SessionRevoked, s)
          else (Ok [Event_session_revoked sgnr session_address],
                set_session (grant\<lparr>ses_revoked := True\<rparr>) s))"

lemma get_session_write:
  "get_session (set_session g s) a b
     = (if a = ses_granter g \<and> b = ses_session_address g then Some g else get_session s a b)"
  by (auto simp: get_session_def set_session_def)

lemma session_wf:
  assumes "wf_state s"
  shows "wf_state (snd (execute_create_session sha sgnr pk perm ex lim h s))"
    "wf_state (snd (execute_revoke_session sgnr a s))"
  using assms
  by (auto simp: execute_create_session_def execute_revoke_session_def Let_def intro!: wf_intros split: option.splits)

lemma session_total:
  "ledger_total (snd (execute_create_session sha sgnr pk perm ex lim h s)) = ledger_total s"
  "ledger_total (snd (execute_revoke_session sgnr a s)) = ledger_total s"
  by (auto simp: execute_create_session_def execute_revoke_session_def Let_def split: option.splits)

text \<open>
  the life of a session key. A created session is valid from the height it was created at up to
  and including its expiry height and at no later height; a live session cannot be replaced; and
  after its granter revokes it, it is valid at no height at all, and revoking it again is refused.
\<close>

theorem session_lifecycle:
  assumes "wf_state s" and "is_ok (fst (execute_create_session sha sgnr pk perm ex lim h s))"
  shows "let a = sha pk; s1 = snd (execute_create_session sha sgnr pk perm ex lim h s);
             s2 = snd (execute_revoke_session sgnr a s1) in
    (\<exists>g. get_session s1 sgnr a = Some g \<and> (\<forall>k. session_is_valid g k \<longleftrightarrow> k \<le> ex) \<and> h < ex) \<and>
    (\<forall>perm' ex' lim' k. h \<le> k \<longrightarrow> k \<le> ex \<longrightarrow>
       \<not> is_ok (fst (execute_create_session sha sgnr pk perm' ex' lim' k s1))) \<and>
    (\<exists>g. get_session s2 sgnr a = Some g \<and> (\<forall>k. \<not> session_is_valid g k)) \<and>
    execute_revoke_session sgnr a s2 = (Err SessionRevoked, s2)"
proof -
  let ?s1 = "snd (execute_create_session sha sgnr pk perm ex lim h s)"
  let ?g = "\<lparr>ses_granter = sgnr, ses_session_pubkey = pk, ses_session_address = sha pk,
     ses_permissions = perm, ses_expires_at = ex, ses_spending_limit = lim, ses_amount_spent = 0,
     ses_revoked = False, ses_created_at = h\<rparr>"
  have s1: "?s1 = set_session ?g s" "h < ex" "length pk = 32"
    using assms(2) by (auto simp: execute_create_session_def Let_def not_le split: if_splits)
  then have g: "get_session ?s1 sgnr (sha pk) = Some ?g"
    by (simp add: get_session_write)
  have s2: "snd (execute_revoke_session sgnr (sha pk) ?s1) = set_session (?g\<lparr>ses_revoked := True\<rparr>) ?s1"
    using g by (simp add: execute_revoke_session_def)
  have "get_session (snd (execute_revoke_session sgnr (sha pk) ?s1)) sgnr (sha pk) = Some (?g\<lparr>ses_revoked := True\<rparr>)"
    unfolding s2 by (simp add: get_session_write)
  moreover have "\<not> is_ok (fst (execute_create_session sha sgnr pk perm' ex' lim' k ?s1))" if "k \<le> ex" for perm' ex' lim' k
    using that g s1(3) by (simp add: execute_create_session_def Let_def session_is_valid_def)
  ultimately show ?thesis
    using g s1(2) unfolding Let_def
    by (intro conjI exI [of _ ?g] exI [of _ "?g\<lparr>ses_revoked := True\<rparr>"])
       (auto simp: session_is_valid_def execute_revoke_session_def)
qed

theorem session_lifecycle_witness:
  "is_ok (fst (execute_create_session (\<lambda>_. 77) 1 (replicate 32 0) PermAll 50 10 5 sample_state)) \<and>
   (let s1 = snd (execute_create_session (\<lambda>_. 77) 1 (replicate 32 0) PermAll 50 10 5 sample_state);
        s2 = snd (execute_revoke_session 1 77 s1) in
    execute_revoke_session 1 77 s2 = (Err SessionRevoked, s2))"
proof -
  have "get_session sample_state 1 77 = None"
    by (simp add: sample_state_def state_defs empty_state_def)
  then have ok: "is_ok (fst (execute_create_session (\<lambda>_. 77) 1 (replicate 32 0) PermAll 50 10 5 sample_state))"
    by (simp add: execute_create_session_def Let_def)
  then show ?thesis
    using session_lifecycle [OF wf_sample_state ok] by (simp add: Let_def)
qed

end
