(* ===== verification/Mod_Attestation.thy ===== *)
theory Mod_Attestation
  imports Mod_Identity Polay_Config
begin

section \<open>Attestation (\<^verbatim>\<open>polay-execution/src/modules/attestation.rs\<close>)\<close>

text \<open>
  Attestor registration, submission of match results and distribution of rewards. Rewards are not
  taken from anywhere: they are new tokens. The total of a distribution is a plain \<open>u64\<close> sum.
\<close>

definition execute_register_attestor ::
  "address \<Rightarrow> string \<Rightarrow> string \<Rightarrow> string \<Rightarrow> u64 \<Rightarrow> chain_state \<Rightarrow> Event list outcome" where
  "execute_register_attestor sgnr game_id endpoint metadata timestamp s =
     (if get_attestor s sgnr \<noteq> None then (Err AttestorAlreadyRegistered, s)
      else
        let attestor = \<lparr>att_address = sgnr, att_game_id = game_id, att_endpoint = endpoint,
                        att_metadata = metadata, att_status = AttestorActive, att_registered_at = timestamp\<rparr>
        in (Ok [Event_new ''attestation'' ''attestor_registered''
                  [(''address'', Hex sgnr), (''game_id'', Text game_id)]],
            set_attestor attestor s))"

definition execute_submit_match_result ::
  "address \<Rightarrow> MatchResult \<Rightarrow> ChainConfig \<Rightarrow> u64 \<Rightarrow> chain_state \<Rightarrow> Event list outcome" where
  "execute_submit_match_result sgnr match_result config timestamp s =
     (case get_attestor s sgnr of
        None \<Rightarrow> (Err AttestorNotFound, s)
      | Some attestor \<Rightarrow>
          if \<not> can_submit attestor then (Err AttestorNotActive, s)
          else if att_game_id attestor \<noteq> mr_game_id match_result then (Err Unauthorized, s)
          else if \<not> is_well_formed match_result
          then (Err (InvalidMatchResult ''players/scores/winners inconsistent''), s)
          else
            let s1 = set_match_result match_result s;
                quarantined = (case mr_anti_cheat_score match_result of
                                 Some score \<Rightarrow> score < cfg_attestation_quarantine_threshold config
                               | None \<Rightarrow> False);
                settlement = \<lparr>ms_match_id = mr_match_id match_result, ms_settled = False,
                              ms_rewards_distributed = [], ms_quarantined = quarantined,
                              ms_settled_at = timestamp\<rparr>
            in (Ok [Event_match_result_submitted (mr_match_id match_result) (mr_game_id match_result)],
                set_match_settlement settlement s1))"

fun credit_rewards :: "(address \<times> u64) list \<Rightarrow> u64 \<Rightarrow> chain_state \<Rightarrow> chain_state" where
  "credit_rewards [] timestamp s = s"
| "credit_rewards ((player, amount) # rewards) timestamp s =
     (let account = unwrap_or (get_account s player) (AccountState_new player timestamp)
      in credit_rewards rewards timestamp
           (set_account (account\<lparr>acct_balance := saturating_add (acct_balance account) amount\<rparr>) s))"

definition execute_distribute_reward ::
  "address \<Rightarrow> hash \<Rightarrow> (address \<times> u64) list \<Rightarrow> u64 \<Rightarrow> chain_state \<Rightarrow> Event list outcome" where
  "execute_distribute_reward sgnr match_id rewards timestamp s =
     (case get_match_settlement s match_id of
        None \<Rightarrow> (Err MatchSettlementNotFound, s)
      | Some settlement \<Rightarrow>
          if ms_settled settlement then (Err MatchAlreadySettled, s)
          else if ms_quarantined settlement then (Err MatchQuarantined, s)
          else
            (case get_attestor s sgnr of
               None \<Rightarrow> (Err AttestorNotFound, s)
             | Some attestor \<Rightarrow>
                 (case get_match_result s match_id of
                    None \<Rightarrow> (Err MatchResultNotFound, s)
                  | Some match_result \<Rightarrow>
                      if att_game_id attestor \<noteq> mr_game_id match_result then (Err Unauthorized, s)
                      else
                        let total_distributed = sum_list (map snd rewards) in
                        if mr_reward_pool match_result < total_distributed
                        then (Err (RewardPoolExceeded (mr_reward_pool match_result) total_distributed), s)
                        else
                          let s1 = credit_rewards rewards timestamp s;
                              s2 = set_match_settlement
                                     (settlement\<lparr>ms_settled := True, ms_rewards_distributed := rewards,
                                        ms_settled_at := timestamp\<rparr>) s1
                          in (Ok [Event_rewards_distributed match_id total_distributed], s2))))"

subsection \<open>Rewards\<close>

abbreviation reward_total :: "(address \<times> u64) list \<Rightarrow> nat" where
  "reward_total rewards \<equiv> (\<Sum>p\<leftarrow>rewards. unat (snd p))"

lemma credit_rewards_wf: "wf_state s \<Longrightarrow> wf_state (credit_rewards rs t s)"
  by (induction rs t s rule: credit_rewards.induct) (simp_all add: Let_def wf_intros)

lemma credit_rewards_total:
  "wf_state s \<Longrightarrow> ledger_total s + reward_total rs < 2 ^ 64 \<Longrightarrow>
     ledger_total (credit_rewards rs t s) = ledger_total s + reward_total rs"
  by (induction rs t s rule: credit_rewards.induct) (simp_all add: Let_def wf_intros credited_total)

lemma credit_rewards_frame [simp]:
  "get_match_settlement (credit_rewards rs t s) i = get_match_settlement s i"
  "get_attestor (credit_rewards rs t s) a = get_attestor s a"
  "get_match_result (credit_rewards rs t s) i = get_match_result s i"
  by (induction rs t s rule: credit_rewards.induct) (simp_all add: Let_def state_defs)

lemma settlement_writes:
  "get_match_settlement (set_match_settlement m s) i = (if i = ms_match_id m then Some m else get_match_settlement s i)"
  "get_match_settlement (set_match_result r s) i = get_match_settlement s i"
  "get_match_settlement (set_account a s) i = get_match_settlement s i"
  "get_match_result (set_match_result r s) i = (if i = mr_match_id r then Some r else get_match_result s i)"
  "get_match_result (set_match_settlement m s) i = get_match_result s i"
  "get_attestor (set_match_result r s) b = get_attestor s b"
  "get_attestor (set_match_settlement m s) b = get_attestor s b"
  by (simp_all add: state_defs)

lemma distribute_reward_Ok:
  assumes "is_ok (fst (execute_distribute_reward sgnr i rewards t s))"
  obtains m r where "get_match_settlement s i = Some m" "\<not> ms_settled m" "\<not> ms_quarantined m"
    "get_match_result s i = Some r" "sum_list (map snd rewards) \<le> mr_reward_pool r"
    "snd (execute_distribute_reward sgnr i rewards t s) =
       set_match_settlement (m\<lparr>ms_settled := True, ms_rewards_distributed := rewards, ms_settled_at := t\<rparr>)
         (credit_rewards rewards t s)"
  using assms that
  by (auto simp: execute_distribute_reward_def Let_def not_less split: option.splits if_splits)

lemma distribute_settled:
  "get_match_settlement s i = Some m \<Longrightarrow> ms_settled m \<Longrightarrow>
     execute_distribute_reward sgnr i rewards t s = (Err MatchAlreadySettled, s)"
  by (simp add: execute_distribute_reward_def)

lemma attestation_wf:
  assumes "wf_state s"
  shows "wf_state (snd (execute_register_attestor sgnr g e m t s))"
    "wf_state (snd (execute_submit_match_result sgnr mr config t s))"
    "wf_state (snd (execute_distribute_reward sgnr i rewards t s))"
  using assms
  by (auto simp: execute_register_attestor_def execute_submit_match_result_def execute_distribute_reward_def
      Let_def credit_rewards_wf intro!: wf_intros split: option.splits)

subsection \<open>Properties\<close>

text \<open>
  a distribution pays each match at most its pool, once. If \<open>execute_distribute_reward\<close> succeeds
  and the rewards do not overflow a \<open>u64\<close>, the ledger grows by exactly the rewards, which are at
  most the match's reward pool, and every further distribution for the match is refused with
  \<open>MatchAlreadySettled\<close>.
\<close>

theorem distribution_bounded_and_final:
  assumes "wf_state s" and "is_ok (fst (execute_distribute_reward sgnr i rewards t s))"
    and "ledger_total s + reward_total rewards < 2 ^ 64"
  shows "let s' = snd (execute_distribute_reward sgnr i rewards t s) in
    ledger_total s' = ledger_total s + reward_total rewards \<and>
    (\<exists>r. get_match_result s i = Some r \<and> reward_total rewards \<le> unat (mr_reward_pool r)) \<and>
    execute_distribute_reward sgnr' i rewards' t' s' = (Err MatchAlreadySettled, s')"
proof -
  obtain m r where m: "get_match_settlement s i = Some m"
    and r: "get_match_result s i = Some r" "sum_list (map snd rewards) \<le> mr_reward_pool r"
    and s': "snd (execute_distribute_reward sgnr i rewards t s) =
       set_match_settlement (m\<lparr>ms_settled := True, ms_rewards_distributed := rewards, ms_settled_at := t\<rparr>)
         (credit_rewards rewards t s)"
    using distribute_reward_Ok [OF assms(2)] by metis
  have "unat (sum_list (map snd rewards)) = reward_total rewards"
    using unat_sum_list [of "map snd rewards"] assms(3) by (simp add: comp_def)
  then have "reward_total rewards \<le> unat (mr_reward_pool r)"
    using r(2) by (simp add: word_le_nat_alt)
  then show ?thesis
    using r(1) credit_rewards_total [OF assms(1,3)] wf_keys(8) [OF assms(1) m]
    unfolding Let_def s' by (simp add: distribute_settled settlement_writes)
qed

definition sample_match :: MatchResult where
  "sample_match = \<lparr>mr_match_id = 5, mr_game_id = ''arena'', mr_timestamp = 0, mr_players = [1, 3],
     mr_scores = [10, 4], mr_winners = [1], mr_reward_pool = 100, mr_server_signature = [],
     mr_anti_cheat_score = Some 90, mr_replay_ref = None\<rparr>"

definition sample_submitted :: chain_state where
  "sample_submitted = snd (execute_submit_match_result 2 sample_match devnet 0 sample_attested)"

lemma sample_match_sel [simp]: "mr_match_id sample_match = 5" "mr_reward_pool sample_match = 100"
  by (simp_all add: sample_match_def)

lemma submit_sample:
  assumes "get_attestor s 2 = Some sample_attestor"
  shows "execute_submit_match_result 2 sample_match devnet t s =
     (Ok [Event_match_result_submitted 5 ''arena''],
      set_match_settlement \<lparr>ms_match_id = 5, ms_settled = False, ms_rewards_distributed = [],
        ms_quarantined = False, ms_settled_at = t\<rparr> (set_match_result sample_match s))"
  using assms
  by (simp add: execute_submit_match_result_def sample_attestor_def sample_match_def can_submit_def
      is_well_formed_def devnet_def ChainConfig_default_def Let_def)

lemma distribute_sample:
  assumes "get_attestor s 2 = Some sample_attestor" "get_match_result s 5 = Some sample_match"
    "get_match_settlement s 5 = Some m" "\<not> ms_settled m" "\<not> ms_quarantined m"
    "sum_list (map snd rewards) \<le> 100"
  shows "execute_distribute_reward 2 5 rewards t s =
     (Ok [Event_rewards_distributed 5 (sum_list (map snd rewards))],
      set_match_settlement (m\<lparr>ms_settled := True, ms_rewards_distributed := rewards, ms_settled_at := t\<rparr>)
        (credit_rewards rewards t s))"
  using assms
  by (simp add: execute_distribute_reward_def sample_attestor_def sample_match_def Let_def leD)

lemma sample_submitted_facts:
  "wf_state sample_submitted" "ledger_total sample_submitted = 1500"
  "get_attestor sample_submitted 2 = Some sample_attestor"
  "get_match_result sample_submitted 5 = Some sample_match"
  "\<exists>m. get_match_settlement sample_submitted 5 = Some m \<and> \<not> ms_settled m \<and> \<not> ms_quarantined m"
proof -
  show "wf_state sample_submitted"
    unfolding sample_submitted_def by (rule attestation_wf) simp
  show "ledger_total sample_submitted = 1500"
    by (simp add: sample_submitted_def submit_sample) (simp add: sample_attested_def sample_total)
qed (simp_all add: sample_submitted_def submit_sample settlement_writes)

theorem distribution_bounded_and_final_witness:
  "ledger_total (snd (execute_distribute_reward 2 5 [(1, 60), (3, 40)] 1 sample_submitted)) = 1600 \<and>
   fst (execute_distribute_reward 2 5 [(1, 1)] 2
     (snd (execute_distribute_reward 2 5 [(1, 60), (3, 40)] 1 sample_submitted))) = Err MatchAlreadySettled"
proof -
  obtain m where m: "get_match_settlement sample_submitted 5 = Some m" "\<not> ms_settled m" "\<not> ms_quarantined m"
    using sample_submitted_facts(5) by blast
  have ok: "is_ok (fst (execute_distribute_reward 2 5 [(1, 60), (3, 40)] 1 sample_submitted))"
    using distribute_sample [OF sample_submitted_facts(3,4) m, of "[(1, 60), (3, 40)]" 1] by simp
  show ?thesis
    using distribution_bounded_and_final [OF sample_submitted_facts(1) ok, of 2 "[(1, 1)]" 2]
    by (simp add: sample_submitted_facts(2) Let_def)
qed


end
