(* ===== verification/Mod_Rental.thy ===== *)
theory Mod_Rental
  imports Polay_Ledger
begin

section \<open>Rentals (\<^verbatim>\<open>polay-execution/src/modules/rental.rs\<close>)\<close>

text \<open>
  Listing an asset for rent, renting it against rent and deposit, returning it early, claiming an
  expired rental and cancelling a listing. The rent goes to the owner at once; the deposit is held
  by the rental while it is active.
\<close>

subsection \<open>Handlers\<close>

definition rental_id_of :: "(u8 list \<Rightarrow> hash) \<Rightarrow> address \<Rightarrow> hash \<Rightarrow> u64 \<Rightarrow> hash" where
  "rental_id_of sha256 sgnr asset_id timestamp =
     sha256 (as_bytes sgnr @ as_bytes asset_id @ le_bytes 8 timestamp)"

definition execute_list_for_rent ::
  "(u8 list \<Rightarrow> hash) \<Rightarrow> address \<Rightarrow> hash \<Rightarrow> hash \<Rightarrow> u64 \<Rightarrow> u64 \<Rightarrow> u64 \<Rightarrow> u64 \<Rightarrow> u64 \<Rightarrow> chain_state \<Rightarrow>
   (hash \<times> Event list) outcome" where
  "execute_list_for_rent sha256 sgnr asset_class_id asset_id price_per_block deposit min_duration
     max_duration timestamp s =
     (if get_asset_class s asset_class_id = None then (Err AssetClassNotFound, s)
      else if get_asset_balance s asset_class_id sgnr = 0 then (Err Unauthorized, s)
      else
        let rental_id = rental_id_of sha256 sgnr asset_id timestamp;
            rental = \<lparr>rnt_rental_id = rental_id, rnt_owner = sgnr, rnt_renter = None,
                      rnt_asset_class_id = asset_class_id, rnt_asset_id = asset_id,
                      rnt_price_per_block = price_per_block, rnt_deposit = deposit,
                      rnt_min_duration = min_duration, rnt_max_duration = max_duration,
                      rnt_start_height = None, rnt_end_height = None, rnt_status = RentalListed,
                      rnt_created_at = timestamp\<rparr>
        in (Ok (rental_id, [Event_rental_listed sgnr rental_id asset_id]), set_rental rental s))"

definition execute_rent_asset ::
  "address \<Rightarrow> hash \<Rightarrow> u64 \<Rightarrow> u64 \<Rightarrow> chain_state \<Rightarrow> Event list outcome" where
  "execute_rent_asset sgnr rental_id duration height s =
     (case get_rental s rental_id of
        None \<Rightarrow> (Err RentalNotFound, s)
      | Some rental \<Rightarrow>
          if rnt_status rental \<noteq> RentalListed then (Err RentalNotListed, s)
          else if duration < rnt_min_duration rental
          then (Err (InvalidRentalDuration duration (rnt_min_duration rental)), s)
          else if rnt_max_duration rental < duration
          then (Err (InvalidRentalDuration duration (rnt_max_duration rental)), s)
          else
            let rental_cost = saturating_mul (rnt_price_per_block rental) duration;
                total_cost = saturating_add rental_cost (rnt_deposit rental) in
            (case get_account s sgnr of
               None \<Rightarrow> (Err (AccountNotFound sgnr), s)
             | Some renter_account \<Rightarrow>
                 if acct_balance renter_account < total_cost
                 then (Err (InsufficientBalance total_cost (acct_balance renter_account)), s)
                 else
                   (case checked_sub (acct_balance renter_account) total_cost of
                      None \<Rightarrow> (Err (InsufficientBalance total_cost (acct_balance renter_account)), s)
                    | Some b \<Rightarrow>
                        let s1 = set_account (renter_account\<lparr>acct_balance := b\<rparr>) s;
                            owner_account = unwrap_or (get_account s1 (rnt_owner rental))
                                              (AccountState_new (rnt_owner rental) 0);
                            s2 = set_account (owner_account
                                   \<lparr>acct_balance := saturating_add (acct_balance owner_account) rental_cost\<rparr>) s1;
                            s3 = set_rental (rental\<lparr>rnt_renter := Some sgnr, rnt_start_height := Some height,
                                   rnt_end_height := Some (saturating_add height duration),
                                   rnt_status := RentalActive\<rparr>) s2
                        in (Ok [Event_asset_rented sgnr rental_id duration], s3))))"

definition execute_return_rental :: "address \<Rightarrow> hash \<Rightarrow> u64 \<Rightarrow> chain_state \<Rightarrow> Event list outcome" where
  "execute_return_rental sgnr rental_id height s =
     (case get_rental s rental_id of
        None \<Rightarrow> (Err RentalNotFound, s)
      | Some rental \<Rightarrow>
          if rnt_status rental \<noteq> RentalActive then (Err RentalNotActive, s)
          else
            (case rnt_renter rental of
               None \<Rightarrow> (Err RentalNotActive, s)
             | Some renter_addr \<Rightarrow>
                 if sgnr \<noteq> renter_addr then (Err RentalRenterMismatch, s)
                 else
                   let end_height = unwrap_or (rnt_end_height rental) height;
                       remaining_blocks = saturating_sub end_height height;
                       rental_refund = saturating_mul remaining_blocks (rnt_price_per_block rental);
                       total_refund = saturating_add rental_refund (rnt_deposit rental);
                       renter_account = unwrap_or (get_account s sgnr) (AccountState_new sgnr 0);
                       s1 = set_account (renter_account
                              \<lparr>acct_balance := saturating_add (acct_balance renter_account) total_refund\<rparr>) s;
                       s2 = (if 0 < rental_refund
                             then let owner_account = unwrap_or (get_account s1 (rnt_owner rental))
                                                        (AccountState_new (rnt_owner rental) 0)
                                  in set_account (owner_account
                                       \<lparr>acct_balance := saturating_sub (acct_balance owner_account) rental_refund\<rparr>) s1
                             else s1);
                       s3 = set_rental (rental\<lparr>rnt_status := RentalReturned\<rparr>) s2
                   in (Ok [Event_rental_returned sgnr rental_id], s3)))"

definition execute_claim_expired_rental :: "address \<Rightarrow> hash \<Rightarrow> u64 \<Rightarrow> chain_state \<Rightarrow> Event list outcome" where
  "execute_claim_expired_rental sgnr rental_id height s =
     (case get_rental s rental_id of
        None \<Rightarrow> (Err RentalNotFound, s)
      | Some rental \<Rightarrow>
          if rnt_status rental \<noteq> RentalActive then (Err RentalNotActive, s)
          else if height < unwrap_or (rnt_end_height rental) 0 then (Err RentalNotExpired, s)
          else
            let s1 = (case rnt_renter rental of
                        None \<Rightarrow> s
                      | Some renter_addr \<Rightarrow>
                          if 0 < rnt_deposit rental
                          then let renter_account = unwrap_or (get_account s renter_addr)
                                                      (AccountState_new renter_addr 0)
                               in set_account (renter_account
                                    \<lparr>acct_balance := saturating_add (acct_balance renter_account) (rnt_deposit rental)\<rparr>) s
                          else s);
                s2 = set_rental (rental\<lparr>rnt_status := RentalExpired\<rparr>) s1
            in (Ok [Event_rental_expired rental_id], s2))"

definition execute_cancel_rental_listing :: "address \<Rightarrow> hash \<Rightarrow> chain_state \<Rightarrow> Event list outcome" where
  "execute_cancel_rental_listing sgnr rental_id s =
     (case get_rental s rental_id of
        None \<Rightarrow> (Err RentalNotFound, s)
      | Some rental \<Rightarrow>
          if rnt_status rental \<noteq> RentalListed then (Err RentalNotListed, s)
          else if rnt_owner rental \<noteq> sgnr then (Err RentalOwnerMismatch, s)
          else (Ok [Event_rental_cancelled sgnr rental_id],
                set_rental (rental\<lparr>rnt_status := RentalCancelled\<rparr>) s))"

subsection \<open>Case analyses\<close>

lemma rent_asset_cases:
  obtains (refused) e where "execute_rent_asset sgnr i duration height s = (Err e, s)"
    | (rented) r acct cost where "get_rental s i = Some r" "rnt_status r = RentalListed"
      "rnt_min_duration r \<le> duration" "duration \<le> rnt_max_duration r"
      "get_account s sgnr = Some acct" "cost = saturating_mul (rnt_price_per_block r) duration"
      "saturating_add cost (rnt_deposit r) \<le> acct_balance acct"
      "execute_rent_asset sgnr i duration height s =
         (Ok [Event_asset_rented sgnr i duration],
          set_rental (r\<lparr>rnt_renter := Some sgnr, rnt_start_height := Some height,
              rnt_end_height := Some (saturating_add height duration), rnt_status := RentalActive\<rparr>)
            (credited (rnt_owner r) 0 cost
              (set_account (acct\<lparr>acct_balance := acct_balance acct - saturating_add cost (rnt_deposit r)\<rparr>) s)))"
proof (cases "\<exists>r acct. get_rental s i = Some r \<and> rnt_status r = RentalListed \<and>
    rnt_min_duration r \<le> duration \<and> duration \<le> rnt_max_duration r \<and> get_account s sgnr = Some acct \<and>
    saturating_add (saturating_mul (rnt_price_per_block r) duration) (rnt_deposit r) \<le> acct_balance acct")
  case True
  then obtain r acct where *: "get_rental s i = Some r" "rnt_status r = RentalListed"
    "rnt_min_duration r \<le> duration" "duration \<le> rnt_max_duration r" "get_account s sgnr = Some acct"
    "saturating_add (saturating_mul (rnt_price_per_block r) duration) (rnt_deposit r) \<le> acct_balance acct" by blast
  show thesis
    by (rule rented [OF *(1-5) refl *(6)]) (use * in \<open>simp add: execute_rent_asset_def Let_def leD\<close>)
next
  case False
  then have "\<exists>e. execute_rent_asset sgnr i duration height s = (Err e, s)"
    by (auto simp: execute_rent_asset_def Let_def not_le not_less split: option.splits)
  then show thesis using refused by blast
qed

lemma rental_writes:
  "get_rental (set_rental r s) i = (if i = rnt_rental_id r then Some r else get_rental s i)"
  by (rule rentals.look_write)

lemma rental_wf:
  assumes "wf_state s"
  shows "wf_state (snd (execute_list_for_rent sha sgnr cls ast price dep mn mx t s))"
    "wf_state (snd (execute_rent_asset sgnr i duration height s))"
    "wf_state (snd (execute_return_rental sgnr i height s))"
    "wf_state (snd (execute_claim_expired_rental sgnr i height s))"
    "wf_state (snd (execute_cancel_rental_listing sgnr i s))"
  using assms
  by (auto simp: execute_list_for_rent_def execute_rent_asset_def execute_return_rental_def
      execute_claim_expired_rental_def execute_cancel_rental_listing_def Let_def intro!: wf_intros
      split: option.splits)

text \<open>An active rental has a renter.\<close>

definition rentals_sound :: "chain_state \<Rightarrow> bool" where
  "rentals_sound s \<longleftrightarrow>
     (\<forall>i r. get_rental s i = Some r \<longrightarrow> rnt_status r = RentalActive \<longrightarrow> rnt_renter r \<noteq> None)"

lemma rentals_sound_write:
  "rentals_sound s \<Longrightarrow> (rnt_status r = RentalActive \<Longrightarrow> rnt_renter r \<noteq> None) \<Longrightarrow> rentals_sound (set_rental r s)"
  "rentals_sound s \<Longrightarrow> rentals_sound (set_account a s)"
  by (auto simp: rentals_sound_def rental_writes)

lemma rental_soundness:
  assumes "rentals_sound s"
  shows "rentals_sound (snd (execute_list_for_rent sha sgnr cls ast price dep mn mx t s))"
    "rentals_sound (snd (execute_rent_asset sgnr i duration height s))"
    "rentals_sound (snd (execute_return_rental sgnr i height s))"
    "rentals_sound (snd (execute_claim_expired_rental sgnr i height s))"
    "rentals_sound (snd (execute_cancel_rental_listing sgnr i s))"
  using assms
  by (auto simp: execute_list_for_rent_def execute_rent_asset_def execute_return_rental_def
      execute_claim_expired_rental_def execute_cancel_rental_listing_def Let_def
      intro!: rentals_sound_write split: option.splits)

subsection \<open>Conservation\<close>

lemma list_for_rent_total:
  assumes "\<And>r. get_rental s (rental_id_of sha sgnr ast t) = Some r \<Longrightarrow> rnt_status r \<noteq> RentalActive"
  shows "ledger_total (snd (execute_list_for_rent sha sgnr cls ast price dep mn mx t s)) = ledger_total s"
proof -
  have "held get_rental rental_escrow s (rental_id_of sha sgnr ast t) = 0"
    using assms by (auto simp: held_def rental_escrow_def split: option.splits)
  then show ?thesis
    by (auto simp: execute_list_for_rent_def Let_def rentals.total_rewrite rental_escrow_def)
qed

lemma rent_asset_total:
  assumes wf: "wf_state s" and fits: "supply_fits s"
    and small: "\<And>r. get_rental s i = Some r \<Longrightarrow>
      unat (rnt_price_per_block r) * unat duration + unat (rnt_deposit r) < 2 ^ 64"
  shows "ledger_total (snd (execute_rent_asset sgnr i duration height s)) = ledger_total s"
proof (cases rule: rent_asset_cases [of sgnr i duration height s])
  case (refused e)
  then show ?thesis by simp
next
  case (rented r acct cost)
  let ?s1 = "set_account (acct\<lparr>acct_balance := acct_balance acct - saturating_add cost (rnt_deposit r)\<rparr>) s"
  let ?s2 = "credited (rnt_owner r) 0 cost ?s1"
  let ?r = "r\<lparr>rnt_renter := Some sgnr, rnt_start_height := Some height,
              rnt_end_height := Some (saturating_add height duration), rnt_status := RentalActive\<rparr>"
  have cost: "unat cost = unat (rnt_price_per_block r) * unat duration"
    using small [OF rented(1)] by (simp add: rented(6) unat_saturating_mul)
  then have all: "unat (saturating_add cost (rnt_deposit r)) = unat cost + unat (rnt_deposit r)"
    using small [OF rented(1)] by (simp add: unat_saturating_add)
  have s1: "ledger_total ?s1 + unat cost + unat (rnt_deposit r) = ledger_total s"
    using debit_total [OF rented(5) wf_keys(1) [OF wf rented(5)] rented(7)] all by simp
  then have "ledger_total ?s2 = ledger_total ?s1 + unat cost"
    using wf supply_fitsD [OF fits] by (intro credited_total) (simp_all add: wf_intros)
  moreover have "held get_rental rental_escrow ?s2 (rnt_rental_id ?r) = 0"
    using rented(1,2) wf_keys(10) [OF wf rented(1)] by (simp add: held_def rental_escrow_def)
  then have "ledger_total (set_rental ?r ?s2) = ledger_total ?s2 + unat (rnt_deposit r)"
    using rentals.total_write [of ?r ?s2] by (simp add: rental_escrow_def)
  ultimately show ?thesis
    using s1 by (simp add: rented(8))
qed

text \<open>Closing an active rental takes its deposit out of escrow.\<close>

lemma close_rental_total:
  assumes "wf_state s" and "get_rental s i = Some r" and "rnt_status r = RentalActive" and "st \<noteq> RentalActive"
  shows "ledger_total (set_rental (r\<lparr>rnt_status := st\<rparr>) s) + unat (rnt_deposit r) = ledger_total s"
  using rentals.total_write [of "r\<lparr>rnt_status := st\<rparr>" s] wf_keys(10) [OF assms(1,2)] assms(2-)
  by (simp add: rental_escrow_def)

lemma claim_expired_total:
  assumes wf: "wf_state s" and fits: "supply_fits s" and snd: "rentals_sound s"
  shows "ledger_total (snd (execute_claim_expired_rental sgnr i height s)) = ledger_total s"
proof (cases "\<exists>r. get_rental s i = Some r \<and> rnt_status r = RentalActive \<and> unwrap_or (rnt_end_height r) 0 \<le> height")
  case False
  then show ?thesis
    by (auto simp: execute_claim_expired_rental_def not_le split: option.splits)
next
  case True
  then obtain r where r: "get_rental s i = Some r" "rnt_status r = RentalActive"
    "unwrap_or (rnt_end_height r) 0 \<le> height" by blast
  then obtain q where q: "rnt_renter r = Some q"
    using snd by (auto simp: rentals_sound_def)
  let ?s1 = "if 0 < rnt_deposit r then credited q 0 (rnt_deposit r) s else s"
  have "ledger_total ?s1 = ledger_total s + unat (rnt_deposit r)"
  proof (cases "0 < rnt_deposit r")
    case True
    have "ledger_total (credited q 0 (rnt_deposit r) s) = ledger_total s + unat (rnt_deposit r)"
    proof (rule credit_total [where a = q])
      show "held get_account balance_of s q + unat (rnt_deposit r) < 2 ^ 64"
        using held_pots_le(4) [of s q i] r(1,2) supply_fitsD [OF fits] by (simp add: rental_escrow_def)
    qed (use wf in simp_all)
    with True show ?thesis by simp
  qed (simp add: word_gt_0)
  moreover have "wf_state ?s1" "get_rental ?s1 i = Some r"
    using wf r by (simp_all add: wf_intros)
  then have "ledger_total (set_rental (r\<lparr>rnt_status := RentalExpired\<rparr>) ?s1) + unat (rnt_deposit r) = ledger_total ?s1"
    using r(2) by (intro close_rental_total) simp_all
  moreover have "snd (execute_claim_expired_rental sgnr i height s) = set_rental (r\<lparr>rnt_status := RentalExpired\<rparr>) ?s1"
    using r q by (simp add: execute_claim_expired_rental_def Let_def leD)
  ultimately show ?thesis by simp
qed

lemma cancel_rental_total:
  assumes "wf_state s"
  shows "ledger_total (snd (execute_cancel_rental_listing sgnr i s)) = ledger_total s"
proof (cases "\<exists>r. get_rental s i = Some r \<and> rnt_status r = RentalListed \<and> rnt_owner r = sgnr")
  case True
  then obtain r where r: "get_rental s i = Some r" "rnt_status r = RentalListed" "rnt_owner r = sgnr" by blast
  then show ?thesis
    using wf_keys(10) [OF assms r(1)]
    by (simp add: execute_cancel_rental_listing_def rentals.total_rewrite rental_escrow_def)
next
  case False
  then show ?thesis
    by (auto simp: execute_cancel_rental_listing_def split: option.splits)
qed

text \<open>
  What returning a rental refunds: the unused blocks at the rental price (clipped at the largest
  \<open>u64\<close>), on top of the deposit.
\<close>

definition rent_refund :: "Rental \<Rightarrow> u64 \<Rightarrow> u64" where
  "rent_refund r height =
     saturating_mul (saturating_sub (unwrap_or (rnt_end_height r) height) height) (rnt_price_per_block r)"

lemma return_rental_cases:
  obtains (refused) e where "execute_return_rental sgnr i height s = (Err e, s)"
    | (returned) r where "get_rental s i = Some r" "rnt_status r = RentalActive" "rnt_renter r = Some sgnr"
      "execute_return_rental sgnr i height s =
         (Ok [Event_rental_returned sgnr i],
          set_rental (r\<lparr>rnt_status := RentalReturned\<rparr>)
            (let s1 = credited sgnr 0 (saturating_add (rent_refund r height) (rnt_deposit r)) s in
             if 0 < rent_refund r height
             then set_account ((unwrap_or (get_account s1 (rnt_owner r)) (AccountState_new (rnt_owner r) 0))
                    \<lparr>acct_balance := saturating_sub (acct_balance (unwrap_or (get_account s1 (rnt_owner r))
                        (AccountState_new (rnt_owner r) 0))) (rent_refund r height)\<rparr>) s1
             else s1))"
proof (cases "\<exists>r. get_rental s i = Some r \<and> rnt_status r = RentalActive \<and> rnt_renter r = Some sgnr")
  case True
  then obtain r where *: "get_rental s i = Some r" "rnt_status r = RentalActive" "rnt_renter r = Some sgnr" by blast
  show thesis
    by (rule returned [OF *]) (use * in \<open>simp add: execute_return_rental_def rent_refund_def Let_def\<close>)
next
  case False
  then have "\<exists>e. execute_return_rental sgnr i height s = (Err e, s)"
    by (auto simp: execute_return_rental_def Let_def split: option.splits)
  then show thesis using refused by blast
qed

lemma clipped_debit_total:
  assumes "wf_state s"
  shows "ledger_total (set_account ((unwrap_or (get_account s a) (AccountState_new a t))
           \<lparr>acct_balance := saturating_sub (acct_balance (unwrap_or (get_account s a) (AccountState_new a t))) amt\<rparr>) s)
         + unat amt = ledger_total s + (unat amt - held get_account balance_of s a)"
  using accounts.total_write [of "(unwrap_or (get_account s a) (AccountState_new a t))
           \<lparr>acct_balance := saturating_sub (acct_balance (unwrap_or (get_account s a) (AccountState_new a t))) amt\<rparr>" s]
    assms
  by (simp add: balance_of_def unat_saturating_sub)

text \<open>
  C27: renting, expiring and cancelling conserve the ledger, with the deposits of active rentals
  counted as escrow, when rent plus deposit fit a \<open>u64\<close>; a listing does too, unless its derived id is
  that of an active rental.
\<close>

theorem rental_conserves:
  assumes "wf_state s" and "supply_fits s" and "rentals_sound s"
    and "\<And>r. get_rental s i = Some r \<Longrightarrow>
      unat (rnt_price_per_block r) * unat duration + unat (rnt_deposit r) < 2 ^ 64"
    and "\<And>r. get_rental s (rental_id_of sha sgnr ast t) = Some r \<Longrightarrow> rnt_status r \<noteq> RentalActive"
  shows "s' \<in> {snd (execute_list_for_rent sha sgnr cls ast price dep mn mx t s),
                snd (execute_rent_asset sgnr i duration height s),
                snd (execute_claim_expired_rental sgnr i height s),
                snd (execute_cancel_rental_listing sgnr i s)} \<Longrightarrow>
         ledger_total s' = ledger_total s \<and> rentals_sound s'"
  using list_for_rent_total [OF assms(5)] rent_asset_total [OF assms(1,2,4)] claim_expired_total [OF assms(1-3)]
    cancel_rental_total [OF assms(1)] rental_soundness [OF assms(3)]
  by auto

definition sample_rental :: Rental where
  "sample_rental = \<lparr>rnt_rental_id = 21, rnt_owner = 2, rnt_renter = None, rnt_asset_class_id = 7,
     rnt_asset_id = 8, rnt_price_per_block = 3, rnt_deposit = 50, rnt_min_duration = 1,
     rnt_max_duration = 100, rnt_start_height = None, rnt_end_height = None,
     rnt_status = RentalListed, rnt_created_at = 0\<rparr>"

definition sample_rentals :: chain_state where
  "sample_rentals = set_rental sample_rental sample_state"

lemma sample_rentals_facts [simp]:
  "wf_state sample_rentals" "get_rental sample_rentals 21 = Some sample_rental"
  "get_rental sample_rentals 99 = None" "ledger_total sample_rentals = 1500"
  "get_account sample_rentals a = get_account sample_state a" "rentals_sound sample_rentals"
proof -
  have none: "get_rental sample_state i = None" for i
    by (simp add: sample_state_def state_defs empty_state_def)
  show "wf_state sample_rentals" by (simp add: sample_rentals_def wf_intros)
  show "get_rental sample_rentals 21 = Some sample_rental" "get_rental sample_rentals 99 = None"
    by (simp_all add: sample_rentals_def rental_writes sample_rental_def none)
  show "ledger_total sample_rentals = 1500"
    by (simp add: sample_rentals_def rentals.total_rewrite held_def none rental_escrow_def sample_rental_def sample_total)
  show "rentals_sound sample_rentals"
    unfolding sample_rentals_def by (rule rentals_sound_write) (simp_all add: rentals_sound_def none sample_rental_def)
qed (simp add: sample_rentals_def)

theorem rental_conserves_witness:
  "wf_state sample_rentals \<and> rentals_sound sample_rentals \<and>
   ledger_total (snd (execute_rent_asset 1 21 10 5 sample_rentals)) = 1500 \<and>
   is_ok (fst (execute_rent_asset 1 21 10 5 sample_rentals))"
proof -
  have "is_ok (fst (execute_rent_asset 1 21 10 5 sample_rentals))"
    by (simp add: execute_rent_asset_def sample_rental_def AccountState_with_balance_def Let_def
        saturating_mul_def saturating_add_def)
  moreover have "ledger_total (snd (execute_rent_asset 1 21 10 5 sample_rentals)) = ledger_total sample_rentals \<and>
      rentals_sound (snd (execute_rent_asset 1 21 10 5 sample_rentals))"
    by (rule rental_conserves [where s = sample_rentals and i = 21 and duration = 10 and sgnr = 1 and height = 5
          and sha = "\<lambda>_. 99" and ast = 8 and t = 0 and cls = 7 and price = 1 and dep = 1 and mn = 1 and mx = 1])
       (simp_all add: supply_fits_def rental_id_of_def, simp_all add: sample_rental_def)
  ultimately show ?thesis by simp
qed


definition sample_rented :: chain_state where
  "sample_rented = snd (execute_rent_asset 1 21 10 5 sample_rentals)"

lemma sample_rented_rental:
  "get_rental sample_rented 21 = Some (sample_rental\<lparr>rnt_renter := Some 1, rnt_start_height := Some 5,
     rnt_end_height := Some 15, rnt_status := RentalActive\<rparr>)"
  by (simp add: sample_rented_def execute_rent_asset_def sample_rental_def AccountState_with_balance_def Let_def
      saturating_mul_def saturating_add_def rental_writes)

lemma sample_rented_facts: "wf_state sample_rented" "ledger_total sample_rented = 1500"
proof -
  show "wf_state sample_rented" unfolding sample_rented_def by (rule rental_wf) simp
  show "ledger_total sample_rented = 1500"
    unfolding sample_rented_def
    by (subst rent_asset_total) (simp_all add: supply_fits_def, simp add: sample_rental_def)
qed


subsection \<open>The life of a rental\<close>

text \<open>
  The transitions a rental may take: a renter with a duration in range, the renter's return, expiry
  at the end height (which anyone may trigger), and cancellation by the owner.
\<close>

inductive rental_step :: "address \<Rightarrow> u64 \<Rightarrow> Rental \<Rightarrow> Rental \<Rightarrow> bool" where
  rent: "rnt_status r = RentalListed \<Longrightarrow> rnt_min_duration r \<le> d \<Longrightarrow> d \<le> rnt_max_duration r \<Longrightarrow>
     rental_step a h r (r\<lparr>rnt_renter := Some a, rnt_start_height := Some h,
       rnt_end_height := Some (saturating_add h d), rnt_status := RentalActive\<rparr>)"
| return: "rnt_status r = RentalActive \<Longrightarrow> rnt_renter r = Some a \<Longrightarrow>
     rental_step a h r (r\<lparr>rnt_status := RentalReturned\<rparr>)"
| expire: "rnt_status r = RentalActive \<Longrightarrow> unwrap_or (rnt_end_height r) 0 \<le> h \<Longrightarrow>
     rental_step a h r (r\<lparr>rnt_status := RentalExpired\<rparr>)"
| cancel: "rnt_status r = RentalListed \<Longrightarrow> rnt_owner r = a \<Longrightarrow>
     rental_step a h r (r\<lparr>rnt_status := RentalCancelled\<rparr>)"

inductive_cases rental_stepE: "rental_step a h r r'"

lemma rental_step_closed:
  "rental_step a h r r' \<Longrightarrow> rnt_status r = RentalListed \<or> rnt_status r = RentalActive"
  by (auto elim: rental_stepE)

lemma claim_expired_step:
  assumes "\<And>r. get_rental s i = Some r \<Longrightarrow> rnt_rental_id r = i"
  shows "case execute_claim_expired_rental sgnr i height s of
      (Ok _, s') \<Rightarrow> (\<exists>r r'. get_rental s i = Some r \<and> rental_step sgnr height r r' \<and>
          rnt_status r \<in> {RentalListed, RentalActive} \<and>
          (\<forall>k. get_rental s' k = (if k = i then Some r' else get_rental s k)))
    | (_, s') \<Rightarrow> s' = s"
proof (cases "\<exists>r. get_rental s i = Some r \<and> rnt_status r = RentalActive \<and> unwrap_or (rnt_end_height r) 0 \<le> height")
  case False
  then show ?thesis
    by (auto simp: execute_claim_expired_rental_def not_le split: option.splits)
next
  case True
  then obtain r where r: "get_rental s i = Some r" "rnt_status r = RentalActive"
    "unwrap_or (rnt_end_height r) 0 \<le> height" by blast
  then show ?thesis
    using rental_step.expire [OF r(2,3), of sgnr] assms [OF r(1)]
    by (auto simp: execute_claim_expired_rental_def Let_def leD rental_writes split: option.split)
qed

lemma cancel_rental_step:
  assumes "\<And>r. get_rental s i = Some r \<Longrightarrow> rnt_rental_id r = i"
  shows "case execute_cancel_rental_listing sgnr i s of
      (Ok _, s') \<Rightarrow> (\<exists>r r'. get_rental s i = Some r \<and> rental_step sgnr height r r' \<and>
          rnt_status r \<in> {RentalListed, RentalActive} \<and>
          (\<forall>k. get_rental s' k = (if k = i then Some r' else get_rental s k)))
    | (_, s') \<Rightarrow> s' = s"
proof (cases "\<exists>r. get_rental s i = Some r \<and> rnt_status r = RentalListed \<and> rnt_owner r = sgnr")
  case False
  then show ?thesis
    by (auto simp: execute_cancel_rental_listing_def split: option.splits)
next
  case True
  then obtain r where r: "get_rental s i = Some r" "rnt_status r = RentalListed" "rnt_owner r = sgnr" by blast
  then show ?thesis
    using rental_step.cancel [OF r(2,3), of height] assms [OF r(1)]
    by (auto simp: execute_cancel_rental_listing_def rental_writes)
qed

text \<open>
  the rental handlers implement the rental state machine. Every call to rent, return, claim or
  cancel either fails and leaves the store as it was, or takes exactly one permitted transition of
  the rental it names and leaves every other rental alone; a returned, expired or cancelled rental
  never changes again.
\<close>

theorem rental_state_machine:
  assumes "wf_state s"
    and "out \<in> {execute_rent_asset sgnr i duration height s, execute_return_rental sgnr i height s,
                execute_claim_expired_rental sgnr i height s, execute_cancel_rental_listing sgnr i s}"
  shows "case out of
      (Ok _, s') \<Rightarrow> (\<exists>r r'. get_rental s i = Some r \<and> rental_step sgnr height r r' \<and>
          rnt_status r \<in> {RentalListed, RentalActive} \<and>
          (\<forall>k. get_rental s' k = (if k = i then Some r' else get_rental s k)))
    | (_, s') \<Rightarrow> s' = s"
proof -
  have id: "get_rental s i = Some r \<Longrightarrow> rnt_rental_id r = i" for r
    using wf_keys(10) [OF assms(1)] .
  from assms(2) consider "out = execute_rent_asset sgnr i duration height s" | "out = execute_return_rental sgnr i height s"
    | "out = execute_claim_expired_rental sgnr i height s" | "out = execute_cancel_rental_listing sgnr i s" by blast
  then show ?thesis
  proof cases
    case 1
    show ?thesis
    proof (cases rule: rent_asset_cases [of sgnr i duration height s])
      case (rented r acct cost)
      then show ?thesis
        using 1 id [OF rented(1)] rental_step.rent [OF rented(2-4), of sgnr height] by (auto simp: rental_writes)
    qed (simp add: 1)
  next
    case 2
    show ?thesis
    proof (cases rule: return_rental_cases [of sgnr i height s])
      case (returned r)
      then show ?thesis
        using 2 id [OF returned(1)] rental_step.return [OF returned(2,3), of height]
        by (auto simp: rental_writes Let_def)
    qed (simp add: 2)
  next
    case 3
    show ?thesis
      unfolding 3 by (rule claim_expired_step [OF id])
  next
    case 4
    show ?thesis
      unfolding 4 by (rule cancel_rental_step [OF id])
  qed
qed

theorem rental_state_machine_witness:
  "\<exists>r. get_rental (snd (execute_cancel_rental_listing 2 21 sample_rentals)) 21 = Some r \<and>
     rental_step 2 0 sample_rental r"
proof -
  have "is_ok (fst (execute_cancel_rental_listing 2 21 sample_rentals))"
    by (simp add: execute_cancel_rental_listing_def sample_rental_def)
  then show ?thesis
    using rental_state_machine [OF sample_rentals_facts(1), of "execute_cancel_rental_listing 2 21 sample_rentals" 2 21 1 0]
    by (auto split: prod.splits result.splits)
qed

end
