(* ===== verification/Mod_Guild.thy ===== *)
theory Mod_Guild
  imports Polay_Ledger
begin

section \<open>Guilds (\<^verbatim>\<open>polay-execution/src/modules/guild.rs\<close>)\<close>

text \<open>
  Guild creation, membership, treasury and ranks. \<open>str::to_lowercase\<close> is modelled on ASCII letters:
  no other character lowers to a letter of the two role names it is compared with.
\<close>

subsection \<open>Handlers\<close>

definition guild_id_of :: "(u8 list \<Rightarrow> hash) \<Rightarrow> address \<Rightarrow> string \<Rightarrow> u64 \<Rightarrow> hash" where
  "guild_id_of sha256 sgnr name timestamp = sha256 (as_bytes sgnr @ str_bytes name @ le_bytes 8 timestamp)"

definition execute_create_guild ::
  "(u8 list \<Rightarrow> hash) \<Rightarrow> address \<Rightarrow> string \<Rightarrow> string \<Rightarrow> u32 \<Rightarrow> u64 \<Rightarrow> chain_state \<Rightarrow>
   (hash \<times> Event list) outcome" where
  "execute_create_guild sha256 sgnr name description max_members timestamp s =
     (let guild_id = guild_id_of sha256 sgnr name timestamp;
          guild = \<lparr>gld_guild_id = guild_id, gld_name = name, gld_description = description,
                   gld_leader = sgnr, gld_treasury_balance = 0, gld_member_count = 1,
                   gld_max_members = max_members, gld_created_at = timestamp\<rparr>;
          membership = \<lparr>gm_guild_id = guild_id, gm_member = sgnr, gm_role = Leader, gm_joined_at = timestamp\<rparr>;
          s1 = set_guild guild s;
          s2 = set_guild_membership membership s1
      in (Ok (guild_id, [Event_guild_created sgnr guild_id name]), s2))"

definition execute_join_guild :: "address \<Rightarrow> hash \<Rightarrow> u64 \<Rightarrow> chain_state \<Rightarrow> Event list outcome" where
  "execute_join_guild sgnr guild_id height s =
     (case get_guild s guild_id of
        None \<Rightarrow> (Err GuildNotFound, s)
      | Some guild \<Rightarrow>
          if get_guild_membership s guild_id sgnr \<noteq> None then (Err AlreadyGuildMember, s)
          else if gld_max_members guild \<le> gld_member_count guild then (Err (GuildFull (gld_max_members guild)), s)
          else
            let membership = \<lparr>gm_guild_id = guild_id, gm_member = sgnr, gm_role = Member, gm_joined_at = height\<rparr>;
                s1 = set_guild (guild\<lparr>gld_member_count := gld_member_count guild + 1\<rparr>) s;
                s2 = set_guild_membership membership s1
            in (Ok [Event_guild_joined sgnr guild_id], s2))"

definition execute_leave_guild :: "address \<Rightarrow> hash \<Rightarrow> chain_state \<Rightarrow> Event list outcome" where
  "execute_leave_guild sgnr guild_id s =
     (case get_guild s guild_id of
        None \<Rightarrow> (Err GuildNotFound, s)
      | Some guild \<Rightarrow>
          (case get_guild_membership s guild_id sgnr of
             None \<Rightarrow> (Err NotGuildMember, s)
           | Some membership \<Rightarrow>
               if gm_role membership = Leader then (Err LeaderCannotLeave, s)
               else
                 let s1 = delete_guild_membership guild_id sgnr s;
                     count = gld_member_count guild - 1;
                     s2 = (if count = 0 then delete_guild guild_id s1
                           else set_guild (guild\<lparr>gld_member_count := count\<rparr>) s1)
                 in (Ok [Event_guild_left sgnr guild_id], s2)))"

definition execute_guild_deposit :: "address \<Rightarrow> hash \<Rightarrow> u64 \<Rightarrow> chain_state \<Rightarrow> Event list outcome" where
  "execute_guild_deposit sgnr guild_id amount s =
     (case get_guild s guild_id of
        None \<Rightarrow> (Err GuildNotFound, s)
      | Some guild \<Rightarrow>
          if get_guild_membership s guild_id sgnr = None then (Err NotGuildMember, s)
          else
            (case get_account s sgnr of
               None \<Rightarrow> (Err (AccountNotFound sgnr), s)
             | Some account \<Rightarrow>
                 if acct_balance account < amount
                 then (Err (InsufficientBalance amount (acct_balance account)), s)
                 else
                   (case checked_sub (acct_balance account) amount of
                      None \<Rightarrow> (Err (InsufficientBalance amount (acct_balance account)), s)
                    | Some b \<Rightarrow>
                        let s1 = set_account (account\<lparr>acct_balance := b\<rparr>) s;
                            s2 = set_guild (guild\<lparr>gld_treasury_balance := gld_treasury_balance guild + amount\<rparr>) s1
                        in (Ok [Event_guild_deposit sgnr guild_id amount], s2))))"

definition execute_guild_withdraw :: "address \<Rightarrow> hash \<Rightarrow> u64 \<Rightarrow> chain_state \<Rightarrow> Event list outcome" where
  "execute_guild_withdraw sgnr guild_id amount s =
     (case get_guild s guild_id of
        None \<Rightarrow> (Err GuildNotFound, s)
      | Some guild \<Rightarrow>
          (case get_guild_membership s guild_id sgnr of
             None \<Rightarrow> (Err NotGuildMember, s)
           | Some membership \<Rightarrow>
               if gm_role membership = Member then (Err NotAuthorized, s)
               else if gld_treasury_balance guild < amount
               then (Err (InsufficientTreasuryBalance amount (gld_treasury_balance guild)), s)
               else
                 (case get_account s sgnr of
                    None \<Rightarrow> (Err (AccountNotFound sgnr), s)
                  | Some account \<Rightarrow>
                      let s1 = set_guild (guild\<lparr>gld_treasury_balance := gld_treasury_balance guild - amount\<rparr>) s;
                          s2 = set_account (account\<lparr>acct_balance := acct_balance account + amount\<rparr>) s1
                      in (Ok [Event_guild_withdrawal sgnr guild_id amount], s2))))"

definition to_lowercase :: "string \<Rightarrow> string" where
  "to_lowercase = map (\<lambda>c. let n = of_char c :: nat in if 65 \<le> n \<and> n \<le> 90 then char_of (n + 32) else c)"

definition execute_guild_promote ::
  "address \<Rightarrow> hash \<Rightarrow> address \<Rightarrow> string \<Rightarrow> chain_state \<Rightarrow> Event list outcome" where
  "execute_guild_promote sgnr guild_id mem role s =
     (case get_guild s guild_id of
        None \<Rightarrow> (Err GuildNotFound, s)
      | Some guild \<Rightarrow>
          (case get_guild_membership s guild_id sgnr of
             None \<Rightarrow> (Err NotGuildMember, s)
           | Some signer_membership \<Rightarrow>
               if gm_role signer_membership \<noteq> Leader then (Err NotAuthorized, s)
               else
                 (case get_guild_membership s guild_id mem of
                    None \<Rightarrow> (Err NotGuildMember, s)
                  | Some target_membership \<Rightarrow>
                      if to_lowercase role = ''officer''
                      then (Ok [Event_guild_member_promoted mem guild_id role],
                            set_guild_membership (target_membership\<lparr>gm_role := Officer\<rparr>) s)
                      else if to_lowercase role = ''member''
                      then (Ok [Event_guild_member_promoted mem guild_id role],
                            set_guild_membership (target_membership\<lparr>gm_role := Member\<rparr>) s)
                      else (Err (InvalidGuildRole role), s))))"

definition execute_guild_kick :: "address \<Rightarrow> hash \<Rightarrow> address \<Rightarrow> chain_state \<Rightarrow> Event list outcome" where
  "execute_guild_kick sgnr guild_id mem s =
     (case get_guild s guild_id of
        None \<Rightarrow> (Err GuildNotFound, s)
      | Some guild \<Rightarrow>
          (case get_guild_membership s guild_id sgnr of
             None \<Rightarrow> (Err NotGuildMember, s)
           | Some signer_membership \<Rightarrow>
               if gm_role signer_membership = Member then (Err NotAuthorized, s)
               else
                 (case get_guild_membership s guild_id mem of
                    None \<Rightarrow> (Err NotGuildMember, s)
                  | Some target_membership \<Rightarrow>
                      if gm_role target_membership = Leader then (Err CannotKickLeader, s)
                      else if gm_role signer_membership = Officer \<and> gm_role target_membership = Officer
                      then (Err NotAuthorized, s)
                      else
                        let s1 = delete_guild_membership guild_id mem s;
                            s2 = set_guild (guild\<lparr>gld_member_count := gld_member_count guild - 1\<rparr>) s1
                        in (Ok [Event_guild_member_kicked mem guild_id], s2))))"

lemma guild_wf:
  assumes "wf_state s"
  shows "wf_state (snd (execute_create_guild sha sgnr n d mx t s))"
    "wf_state (snd (execute_join_guild sgnr i h s))"
    "wf_state (snd (execute_leave_guild sgnr i s))"
    "wf_state (snd (execute_guild_deposit sgnr i amount s))"
    "wf_state (snd (execute_guild_withdraw sgnr i amount s))"
    "wf_state (snd (execute_guild_promote sgnr i mem role s))"
    "wf_state (snd (execute_guild_kick sgnr i mem s))"
  using assms
  by (auto simp: execute_create_guild_def execute_join_guild_def execute_leave_guild_def
      execute_guild_deposit_def execute_guild_withdraw_def execute_guild_promote_def
      execute_guild_kick_def Let_def intro!: wf_intros split: option.splits)

subsection \<open>Head counts\<close>

definition members :: "chain_state \<Rightarrow> hash \<Rightarrow> address set" where
  "members s g = {m. get_guild_membership s g m \<noteq> None}"

definition guild_counted :: "chain_state \<Rightarrow> hash \<Rightarrow> bool" where
  "guild_counted s g =
     (case get_guild s g of
        None \<Rightarrow> members s g = {}
      | Some G \<Rightarrow> unat (gld_member_count G) = card (members s g) \<and>
                  gld_member_count G \<le> max 1 (gld_max_members G))"

definition guilds_counted :: "chain_state \<Rightarrow> bool" where
  "guilds_counted s \<longleftrightarrow> (\<forall>g. guild_counted s g)"

lemma finite_members [simp]: "finite (members s g)"
  by simp

lemma members_writes [simp]:
  "members (set_guild G s) g = members s g"
  "members (delete_guild i s) g = members s g"
  "members (set_account a s) g = members s g"
  "members (set_guild_membership M s) g = (if g = gm_guild_id M then insert (gm_member M) (members s g) else members s g)"
  "members (delete_guild_membership i m s) g = (if g = i then members s g - {m} else members s g)"
  by (auto simp: members_def get_guild_membership_def set_guild_def delete_guild_def set_account_def
      set_guild_membership_def delete_guild_membership_def)

lemma guild_writes:
  "get_guild (set_guild G s) g = (if g = gld_guild_id G then Some G else get_guild s g)"
  "get_guild (delete_guild i s) g = (if g = i then None else get_guild s g)"
  by (simp_all add: get_guild_def set_guild_def delete_guild_def)

lemma guilds_countedD:
  assumes "guilds_counted s" and "get_guild s g = Some G"
  shows "unat (gld_member_count G) = card (members s g)" "gld_member_count G \<le> max 1 (gld_max_members G)"
  using assms by (auto simp: guilds_counted_def guild_counted_def split: option.splits)

text \<open>
  A write to one guild keeps the counts of all if it keeps its own: the obligations of the three
  kinds of updates.
\<close>

lemma counted_update:
  assumes "guilds_counted s"
    and "\<And>g. g \<noteq> i \<Longrightarrow> get_guild s' g = get_guild s g" "\<And>g. g \<noteq> i \<Longrightarrow> members s' g = members s g"
    and "guild_counted s' i"
  shows "guilds_counted s'"
  unfolding guilds_counted_def
proof
  fix g
  show "guild_counted s' g"
  proof (cases "g = i")
    case False
    have "guild_counted s' g = guild_counted s g"
      unfolding guild_counted_def assms(2) [OF False] assms(3) [OF False] ..
    then show ?thesis
      using assms(1) by (simp add: guilds_counted_def)
  qed (use assms(4) in simp)
qed

lemma unat_minus_one: "w \<noteq> 0 \<Longrightarrow> unat (w - 1 :: 'a::len word) = unat w - 1"
  by (simp add: unat_sub word_le_nat_alt unat_gt_0 Suc_leI)

lemma plus_one_below:
  fixes w v :: "'a::len word"
  assumes "w < v"
  shows "unat (w + 1) = Suc (unat w)" and "w + 1 \<le> v"
proof -
  have "Suc (unat w) < 2 ^ LENGTH('a)"
    using assms unfolding word_less_nat_alt by (meson Suc_leI order_le_less_trans unsigned_less)
  then show eq: "unat (w + 1) = Suc (unat w)"
    by (simp add: unat_word_ariths)
  then show "w + 1 \<le> v"
    using assms by (simp add: word_less_nat_alt word_le_nat_alt)
qed

lemma join_guild_cases:
  obtains (refused) e where "execute_join_guild sgnr i h s = (Err e, s)"
    | (joined) G where "get_guild s i = Some G" "get_guild_membership s i sgnr = None"
      "gld_member_count G < gld_max_members G"
      "execute_join_guild sgnr i h s =
         (Ok [Event_guild_joined sgnr i],
          set_guild_membership \<lparr>gm_guild_id = i, gm_member = sgnr, gm_role = Member, gm_joined_at = h\<rparr>
            (set_guild (G\<lparr>gld_member_count := gld_member_count G + 1\<rparr>) s))"
proof (cases "\<exists>e. execute_join_guild sgnr i h s = (Err e, s)")
  case False
  then obtain G where *: "get_guild s i = Some G" "get_guild_membership s i sgnr = None"
    "gld_member_count G < gld_max_members G"
    by (auto simp: execute_join_guild_def Let_def not_le split: option.splits if_splits)
  show thesis
    by (rule joined [OF *]) (use * in \<open>simp add: execute_join_guild_def Let_def leD\<close>)
qed (use refused in blast)

lemma join_guild_counted:
  assumes wf: "wf_state s" and c: "guilds_counted s"
  shows "guilds_counted (snd (execute_join_guild sgnr i h s))"
proof (cases rule: join_guild_cases [of sgnr i h s])
  case (joined G)
  then have "sgnr \<notin> members s i" by (simp add: members_def)
  with joined show ?thesis
    using plus_one_below [OF joined(3)] wf_keys(11) [OF wf joined(1)] guilds_countedD [OF c joined(1)]
    by (intro counted_update [OF c, of i]) (auto simp: guild_writes guild_counted_def le_max_iff_disj)
qed (use c in simp)

lemma leave_guild_cases:
  obtains (refused) e where "execute_leave_guild sgnr i s = (Err e, s)"
    | (left_guild) G m where "get_guild s i = Some G" "get_guild_membership s i sgnr = Some m" "gm_role m \<noteq> Leader"
      "execute_leave_guild sgnr i s =
         (Ok [Event_guild_left sgnr i],
          if gld_member_count G = 1 then delete_guild i (delete_guild_membership i sgnr s)
          else set_guild (G\<lparr>gld_member_count := gld_member_count G - 1\<rparr>) (delete_guild_membership i sgnr s))"
proof (cases "\<exists>G m. get_guild s i = Some G \<and> get_guild_membership s i sgnr = Some m \<and> gm_role m \<noteq> Leader")
  case True
  then obtain G m where *: "get_guild s i = Some G" "get_guild_membership s i sgnr = Some m" "gm_role m \<noteq> Leader" by blast
  show thesis
    by (rule left_guild [OF *]) (use * in \<open>simp add: execute_leave_guild_def Let_def\<close>)
next
  case False
  then have "\<exists>e. execute_leave_guild sgnr i s = (Err e, s)"
    by (auto simp: execute_leave_guild_def Let_def split: option.splits)
  then show thesis using refused by blast
qed

lemma kick_guild_cases:
  obtains (refused) e where "execute_guild_kick sgnr i mem s = (Err e, s)"
    | (kicked) G m where "get_guild s i = Some G" "get_guild_membership s i mem = Some m" "gm_role m \<noteq> Leader"
      "execute_guild_kick sgnr i mem s =
         (Ok [Event_guild_member_kicked mem i],
          set_guild (G\<lparr>gld_member_count := gld_member_count G - 1\<rparr>) (delete_guild_membership i mem s))"
proof (cases "\<exists>e. execute_guild_kick sgnr i mem s = (Err e, s)")
  case False
  then obtain G m k where *: "get_guild s i = Some G" "get_guild_membership s i sgnr = Some k" "gm_role k \<noteq> Member"
    "get_guild_membership s i mem = Some m" "gm_role m \<noteq> Leader" "\<not> (gm_role k = Officer \<and> gm_role m = Officer)"
    by (auto simp: execute_guild_kick_def Let_def split: option.splits if_splits)
  show thesis
    by (rule kicked [OF *(1,4,5)]) (use * in \<open>simp add: execute_guild_kick_def Let_def\<close>)
qed (use refused in blast)

lemma member_leaves:
  assumes "guilds_counted s" and "get_guild s i = Some G" and "get_guild_membership s i m = Some k"
  shows "unat (gld_member_count G - 1) = card (members s i - {m})"
    "gld_member_count G - 1 \<le> max 1 (gld_max_members G)"
    "gld_member_count G = 1 \<Longrightarrow> members s i - {m} = {}"
proof -
  note c = guilds_countedD [OF assms(1,2)]
  have m: "m \<in> members s i" using assms(3) by (simp add: members_def)
  then have "0 < card (members s i)" by (auto simp: card_gt_0_iff)
  with c have nz: "gld_member_count G \<noteq> 0" by (metis unat_0 less_irrefl)
  then show card: "unat (gld_member_count G - 1) = card (members s i - {m})"
    using c m by (simp add: unat_minus_one)
  have "gld_member_count G - 1 \<le> gld_member_count G"
    using unat_minus_one [OF nz] by (simp add: word_le_nat_alt)
  then show "gld_member_count G - 1 \<le> max 1 (gld_max_members G)"
    using c(2) by (rule order_trans)
  show "gld_member_count G = 1 \<Longrightarrow> members s i - {m} = {}"
    using card by simp
qed

lemma leave_guild_counted:
  assumes wf: "wf_state s" and c: "guilds_counted s"
  shows "guilds_counted (snd (execute_leave_guild sgnr i s))"
proof (cases rule: leave_guild_cases [of sgnr i s])
  case (left_guild G m)
  then show ?thesis
    using member_leaves [OF c left_guild(1,2)] wf_keys(11) [OF wf left_guild(1)]
    by (intro counted_update [OF c, of i]) (auto simp: guild_writes guild_counted_def)
qed (use c in simp)

lemma kick_guild_counted:
  assumes wf: "wf_state s" and c: "guilds_counted s"
  shows "guilds_counted (snd (execute_guild_kick sgnr i mem s))"
proof (cases rule: kick_guild_cases [of sgnr i mem s])
  case (kicked G m)
  then show ?thesis
    using member_leaves [OF c kicked(1,2)] wf_keys(11) [OF wf kicked(1)]
    by (intro counted_update [OF c, of i]) (auto simp: guild_writes guild_counted_def)
qed (use c in simp)


lemma create_guild_counted:
  assumes c: "guilds_counted s" and fresh: "get_guild s (guild_id_of sha sgnr n t) = None"
  shows "guilds_counted (snd (execute_create_guild sha sgnr n d mx t s))"
proof -
  have "guild_counted s (guild_id_of sha sgnr n t)"
    using c by (simp add: guilds_counted_def)
  then have "members s (guild_id_of sha sgnr n t) = {}"
    using fresh by (simp add: guild_counted_def)
  then show ?thesis
    by (intro counted_update [OF c, of "guild_id_of sha sgnr n t"])
       (auto simp: execute_create_guild_def Let_def guild_writes guild_counted_def)
qed

lemma guild_money_cases:
  obtains (refused) e where "execute_guild_deposit sgnr i amount s = (Err e, s)"
    | (deposited) G acct where "get_guild s i = Some G" "get_account s sgnr = Some acct" "amount \<le> acct_balance acct"
      "execute_guild_deposit sgnr i amount s =
         (Ok [Event_guild_deposit sgnr i amount],
          set_guild (G\<lparr>gld_treasury_balance := gld_treasury_balance G + amount\<rparr>)
            (set_account (acct\<lparr>acct_balance := acct_balance acct - amount\<rparr>) s))"
proof (cases "\<exists>e. execute_guild_deposit sgnr i amount s = (Err e, s)")
  case False
  then obtain G m acct where *: "get_guild s i = Some G" "get_guild_membership s i sgnr = Some m"
    "get_account s sgnr = Some acct" "amount \<le> acct_balance acct"
    by (auto simp: execute_guild_deposit_def Let_def not_less split: option.splits if_splits)
  show thesis
    by (rule deposited [OF *(1,3,4)])
       (use * in \<open>simp add: execute_guild_deposit_def Let_def leD checked_sub_def\<close>)
qed (use refused in blast)

lemma guild_withdraw_cases:
  obtains (refused) e where "execute_guild_withdraw sgnr i amount s = (Err e, s)"
    | (withdrawn) G m acct where "get_guild s i = Some G" "get_guild_membership s i sgnr = Some m"
      "gm_role m \<noteq> Member" "get_account s sgnr = Some acct" "amount \<le> gld_treasury_balance G"
      "execute_guild_withdraw sgnr i amount s =
         (Ok [Event_guild_withdrawal sgnr i amount],
          set_account (acct\<lparr>acct_balance := acct_balance acct + amount\<rparr>)
            (set_guild (G\<lparr>gld_treasury_balance := gld_treasury_balance G - amount\<rparr>) s))"
proof (cases "\<exists>e. execute_guild_withdraw sgnr i amount s = (Err e, s)")
  case False
  then obtain G m acct where *: "get_guild s i = Some G" "get_guild_membership s i sgnr = Some m"
    "gm_role m \<noteq> Member" "get_account s sgnr = Some acct" "amount \<le> gld_treasury_balance G"
    by (auto simp: execute_guild_withdraw_def Let_def not_less split: option.splits if_splits)
  show thesis
    by (rule withdrawn [OF *]) (use * in \<open>simp add: execute_guild_withdraw_def Let_def leD\<close>)
qed (use refused in blast)

lemma promote_guild_cases:
  obtains (refused) e where "execute_guild_promote sgnr i mem role s = (Err e, s)"
    | (promoted) G k m r where "get_guild s i = Some G" "get_guild_membership s i sgnr = Some k" "gm_role k = Leader"
      "get_guild_membership s i mem = Some m" "r \<noteq> Leader"
      "execute_guild_promote sgnr i mem role s =
         (Ok [Event_guild_member_promoted mem i role], set_guild_membership (m\<lparr>gm_role := r\<rparr>) s)"
proof (cases "\<exists>e. execute_guild_promote sgnr i mem role s = (Err e, s)")
  case False
  then obtain G k m where *: "get_guild s i = Some G" "get_guild_membership s i sgnr = Some k" "gm_role k = Leader"
    "get_guild_membership s i mem = Some m" "to_lowercase role = ''officer'' \<or> to_lowercase role = ''member''"
    by (auto simp: execute_guild_promote_def Let_def split: option.splits if_splits)
  show thesis
    by (rule promoted [OF *(1-4), of "if to_lowercase role = ''officer'' then Officer else Member"])
       (use * in \<open>auto simp: execute_guild_promote_def\<close>)
qed (use refused in blast)

lemma money_and_ranks_counted:
  assumes wf: "wf_state s" and c: "guilds_counted s"
  shows "guilds_counted (snd (execute_guild_deposit sgnr i amount s))"
    "guilds_counted (snd (execute_guild_withdraw sgnr i amount s))"
    "guilds_counted (snd (execute_guild_promote sgnr i mem role s))"
proof -
  show "guilds_counted (snd (execute_guild_deposit sgnr i amount s))"
  proof (cases rule: guild_money_cases [of sgnr i amount s])
    case (deposited G acct)
    then show ?thesis
      using wf_keys(11) [OF wf deposited(1)] guilds_countedD [OF c deposited(1)]
      by (intro counted_update [OF c, of i]) (auto simp: guild_writes guild_counted_def)
  qed (use c in simp)
  show "guilds_counted (snd (execute_guild_withdraw sgnr i amount s))"
  proof (cases rule: guild_withdraw_cases [of sgnr i amount s])
    case (withdrawn G m acct)
    then show ?thesis
      using wf_keys(11) [OF wf withdrawn(1)] guilds_countedD [OF c withdrawn(1)]
      by (intro counted_update [OF c, of i]) (auto simp: guild_writes guild_counted_def)
  qed (use c in simp)
  show "guilds_counted (snd (execute_guild_promote sgnr i mem role s))"
  proof (cases rule: promote_guild_cases [of sgnr i mem role s])
    case (promoted G k m r)
    then have "mem \<in> members s i" by (simp add: members_def)
    with promoted show ?thesis
      using wf_keys(14) [OF wf promoted(4)] guilds_countedD [OF c promoted(1)]
      by (intro counted_update [OF c, of i]) (auto simp: guild_counted_def insert_absorb)
  qed (use c in simp)
qed


subsection \<open>The treasury\<close>

lemma delete_guild_total:
  "ledger_total (delete_guild i s) + held get_guild (\<lambda>g. unat (gld_treasury_balance g)) s i = ledger_total s"
  using fmsum_drop [of "\<lambda>g. unat (gld_treasury_balance g)" i "st_guilds s"]
    fmcontrib_le_fmsum [of "\<lambda>g. unat (gld_treasury_balance g)" "st_guilds s" i]
  by (simp add: ledger_total_def delete_guild_def held_def fmcontrib_def get_guild_def)

lemma guild_deposit_total:
  assumes wf: "wf_state s" and fits: "supply_fits s"
  shows "ledger_total (snd (execute_guild_deposit sgnr i amount s)) = ledger_total s"
proof (cases rule: guild_money_cases [of sgnr i amount s])
  case (deposited G acct)
  let ?s1 = "set_account (acct\<lparr>acct_balance := acct_balance acct - amount\<rparr>) s"
  let ?G = "G\<lparr>gld_treasury_balance := gld_treasury_balance G + amount\<rparr>"
  have s1: "ledger_total ?s1 + unat amount = ledger_total s"
    using debit_total [OF deposited(2) wf_keys(1) [OF wf deposited(2)] deposited(3)] .
  have G: "held get_guild (\<lambda>g. unat (gld_treasury_balance g)) ?s1 (gld_guild_id ?G) = unat (gld_treasury_balance G)"
    using deposited(1) wf_keys(11) [OF wf deposited(1)] by simp
  then have "unat (gld_treasury_balance G) + unat amount < 2 ^ 64"
    using guilds.held_le [of ?s1 "gld_guild_id ?G"] s1 supply_fitsD [OF fits] by linarith
  then have "unat (gld_treasury_balance ?G) = unat (gld_treasury_balance G) + unat amount"
    by (simp add: unat_word_ariths)
  then show ?thesis
    using guilds.total_write [of ?G ?s1] G s1 by (simp add: deposited(4))
qed simp

lemma guild_withdraw_total:
  assumes wf: "wf_state s" and fits: "supply_fits s"
  shows "ledger_total (snd (execute_guild_withdraw sgnr i amount s)) = ledger_total s"
proof (cases rule: guild_withdraw_cases [of sgnr i amount s])
  case (withdrawn G m acct)
  let ?G = "G\<lparr>gld_treasury_balance := gld_treasury_balance G - amount\<rparr>"
  let ?s1 = "set_guild ?G s"
  have s1: "ledger_total ?s1 + unat amount = ledger_total s"
    using guilds.total_write [of ?G s] withdrawn(1,5) wf_keys(11) [OF wf withdrawn(1)]
    by (simp add: unat_sub word_le_nat_alt)
  have acct: "held get_account balance_of ?s1 (acct_address acct) = unat (acct_balance acct)"
    using withdrawn(4) wf_keys(1) [OF wf withdrawn(4)] by (simp add: balance_of_def)
  then have "unat (acct_balance acct) + unat amount < 2 ^ 64"
    using accounts.held_le [of ?s1 "acct_address acct"] s1 supply_fitsD [OF fits] by linarith
  then have "unat (acct_balance acct + amount) = unat (acct_balance acct) + unat amount"
    by (simp add: unat_word_ariths)
  then show ?thesis
    using accounts.total_write [of "acct\<lparr>acct_balance := acct_balance acct + amount\<rparr>" ?s1] acct s1
    by (simp add: withdrawn(6) balance_of_def)
qed simp

text \<open>Rewriting a guild without touching its treasury changes nothing.\<close>

lemma recount_total:
  assumes "wf_state s" and "get_guild s i = Some G" and "get_guild s' i = Some G" and "ledger_total s' = ledger_total s"
  shows "ledger_total (set_guild (G\<lparr>gld_member_count := n\<rparr>) s') = ledger_total s"
  using guilds.total_rewrite [of s' "G\<lparr>gld_member_count := n\<rparr>"] wf_keys(11) [OF assms(1,2)] assms(3,4) by simp

lemma guild_membership_total:
  assumes wf: "wf_state s"
  shows "ledger_total (snd (execute_join_guild sgnr i h s)) = ledger_total s"
    "ledger_total (snd (execute_guild_kick sgnr i mem s)) = ledger_total s"
    "ledger_total (snd (execute_guild_promote sgnr i mem role s)) = ledger_total s"
proof -
  show "ledger_total (snd (execute_join_guild sgnr i h s)) = ledger_total s"
    by (cases rule: join_guild_cases [of sgnr i h s]) (simp_all add: recount_total [OF wf])
  show "ledger_total (snd (execute_guild_kick sgnr i mem s)) = ledger_total s"
    by (cases rule: kick_guild_cases [of sgnr i mem s]) (simp_all add: recount_total [OF wf])
  show "ledger_total (snd (execute_guild_promote sgnr i mem role s)) = ledger_total s"
    by (cases rule: promote_guild_cases [of sgnr i mem role s]) simp_all
qed

text \<open>What leaves the ledger with the last member: the treasury of the guild that is deleted.\<close>

definition abandoned :: "address \<Rightarrow> hash \<Rightarrow> chain_state \<Rightarrow> nat" where
  "abandoned sgnr i s =
     (if is_ok (fst (execute_leave_guild sgnr i s)) \<and> get_guild (snd (execute_leave_guild sgnr i s)) i = None
      then held get_guild (\<lambda>g. unat (gld_treasury_balance g)) s i else 0)"

lemma leave_guild_total:
  assumes wf: "wf_state s"
  shows "ledger_total (snd (execute_leave_guild sgnr i s)) + abandoned sgnr i s = ledger_total s"
proof (cases rule: leave_guild_cases [of sgnr i s])
  case (left_guild G m)
  show ?thesis
  proof (cases "gld_member_count G = 1")
    case True
    then show ?thesis
      using delete_guild_total [of i "delete_guild_membership i sgnr s"] left_guild
      by (simp add: abandoned_def guild_writes)
  next
    case False
    then show ?thesis
      using left_guild wf_keys(11) [OF wf left_guild(1)]
      by (simp add: abandoned_def guild_writes recount_total [OF wf])
  qed
qed (simp add: abandoned_def)

lemma create_guild_total:
  assumes "get_guild s (guild_id_of sha sgnr n t) = None"
  shows "ledger_total (snd (execute_create_guild sha sgnr n d mx t s)) = ledger_total s"
  using assms by (simp add: execute_create_guild_def Let_def guilds.total_rewrite)

subsection \<open>Properties\<close>

fun rank :: "GuildRole \<Rightarrow> nat" where
  "rank Member = 0"
| "rank Officer = 1"
| "rank Leader = 2"

lemma rank_simps:
  "rank r = 0 \<longleftrightarrow> r = Member" "rank r = Suc 0 \<longleftrightarrow> r = Officer" "rank r = 2 \<longleftrightarrow> r = Leader"
  "Suc 0 \<le> rank r \<longleftrightarrow> r \<noteq> Member"
  "rank r < rank r' \<longleftrightarrow> r \<noteq> Leader \<and> r' \<noteq> Member \<and> \<not> (r' = Officer \<and> r = Officer)"
  by (cases r; cases r'; simp)+

definition rank_in :: "chain_state \<Rightarrow> hash \<Rightarrow> address \<Rightarrow> nat option" where
  "rank_in s g a = map_option (rank \<circ> gm_role) (get_guild_membership s g a)"

definition sample_guild :: chain_state where
  "sample_guild =
     snd (execute_join_guild 2 31 5 (snd (execute_create_guild (\<lambda>_. 31) 1 ''ducks'' ''pond'' 3 4 sample_state)))"

text \<open>
  the head count of every guild is the number of its membership records and within its
  capacity, and a guild that does not exist has no members: every guild handler keeps this, creation
  under a fresh id.
\<close>

theorem guild_head_count:
  assumes "wf_state s" and "guilds_counted s" and "get_guild s (guild_id_of sha sgnr n t) = None"
  shows "s' \<in> {snd (execute_create_guild sha sgnr n d mx t s), snd (execute_join_guild sgnr i h s),
                snd (execute_leave_guild sgnr i s), snd (execute_guild_deposit sgnr i amount s),
                snd (execute_guild_withdraw sgnr i amount s), snd (execute_guild_promote sgnr i mem role s),
                snd (execute_guild_kick sgnr i mem s)} \<Longrightarrow>
         wf_state s' \<and> guilds_counted s'"
  using guild_wf [OF assms(1)] create_guild_counted [OF assms(2,3)] join_guild_counted [OF assms(1,2)]
    leave_guild_counted [OF assms(1,2)] money_and_ranks_counted [OF assms(1,2)] kick_guild_counted [OF assms(1,2)]
  by auto

text \<open>
  C24: deposits and withdrawals move tokens between the signer's account and the treasury, with no
  overflow of either; creating, joining, promoting and kicking move none. Leaving moves none either,
  except that the last leaver takes the guild with them and its treasury leaves the ledger.
\<close>

theorem guild_treasury_conserves:
  assumes "wf_state s" and "supply_fits s" and "get_guild s (guild_id_of sha sgnr n t) = None"
  shows "s' \<in> {snd (execute_create_guild sha sgnr n d mx t s), snd (execute_join_guild sgnr i h s),
                snd (execute_guild_deposit sgnr i amount s), snd (execute_guild_withdraw sgnr i amount s),
                snd (execute_guild_promote sgnr i mem role s), snd (execute_guild_kick sgnr i mem s)} \<Longrightarrow>
         ledger_total s' = ledger_total s \<and>
         ledger_total (snd (execute_leave_guild sgnr i s)) + abandoned sgnr i s = ledger_total s"
  using create_guild_total [OF assms(3)] guild_membership_total [OF assms(1)] leave_guild_total [OF assms(1)]
    guild_deposit_total [OF assms(1,2)] guild_withdraw_total [OF assms(1,2)]
  by auto

text \<open>
  authority in a guild. A kick succeeds exactly when the guild exists, both are members and the
  signer, an officer or the leader, outranks the other member; only leaders change ranks, never to
  leader; only officers and leaders withdraw.
\<close>

theorem guild_authority:
  "(is_ok (fst (execute_guild_kick sgnr i mem s)) \<longleftrightarrow>
      get_guild s i \<noteq> None \<and> (\<exists>a b. rank_in s i sgnr = Some a \<and> rank_in s i mem = Some b \<and> 1 \<le> a \<and> b < a)) \<and>
   (is_ok (fst (execute_guild_promote sgnr i mem role s)) \<longrightarrow> rank_in s i sgnr = Some 2 \<and> rank_in s i mem \<noteq> None) \<and>
   (is_ok (fst (execute_guild_withdraw sgnr i amount s)) \<longrightarrow> rank_in s i sgnr \<in> {Some 1, Some 2})"
proof (intro conjI impI)
  show "is_ok (fst (execute_guild_kick sgnr i mem s)) \<longleftrightarrow>
      get_guild s i \<noteq> None \<and> (\<exists>a b. rank_in s i sgnr = Some a \<and> rank_in s i mem = Some b \<and> 1 \<le> a \<and> b < a)"
    by (auto simp: execute_guild_kick_def rank_in_def Let_def rank_simps split: option.splits)
next
  assume "is_ok (fst (execute_guild_promote sgnr i mem role s))"
  then show "rank_in s i sgnr = Some 2" "rank_in s i mem \<noteq> None"
    by (cases rule: promote_guild_cases [of sgnr i mem role s]; simp add: rank_in_def)+
next
  assume "is_ok (fst (execute_guild_withdraw sgnr i amount s))"
  then show "rank_in s i sgnr \<in> {Some 1, Some 2}"
    by (cases rule: guild_withdraw_cases [of sgnr i amount s])
       (auto simp: rank_in_def rank_simps intro: GuildRole.exhaust)
qed


lemma no_guilds_yet: "get_guild sample_state g = None" "members sample_state g = {}"
  by (simp_all add: members_def sample_state_def state_defs empty_state_def)

lemma sample_guild_facts:
  "wf_state sample_guild" "guilds_counted sample_guild" "ledger_total sample_guild = 1500"
  "get_guild sample_guild 31 = Some \<lparr>gld_guild_id = 31, gld_name = ''ducks'', gld_description = ''pond'',
     gld_leader = 1, gld_treasury_balance = 0, gld_member_count = 2, gld_max_members = 3, gld_created_at = 4\<rparr>"
  "get_guild sample_guild 77 = None"
  "get_guild_membership sample_guild 31 1 = Some \<lparr>gm_guild_id = 31, gm_member = 1, gm_role = Leader, gm_joined_at = 4\<rparr>"
  "get_guild_membership sample_guild 31 2 = Some \<lparr>gm_guild_id = 31, gm_member = 2, gm_role = Member, gm_joined_at = 5\<rparr>"
  "get_account sample_guild a = get_account sample_state a"
proof -
  let ?c = "snd (execute_create_guild (\<lambda>_. 31) 1 ''ducks'' ''pond'' 3 4 sample_state)"
  have wf: "wf_state ?c" by (intro guild_wf) simp
  then show "wf_state sample_guild" unfolding sample_guild_def by (rule guild_wf)
  have "guilds_counted sample_state"
    by (simp add: guilds_counted_def guild_counted_def no_guilds_yet)
  then have "guilds_counted ?c"
    by (rule create_guild_counted) (simp add: no_guilds_yet)
  then show "guilds_counted sample_guild"
    unfolding sample_guild_def by (intro join_guild_counted wf)
  show "ledger_total sample_guild = 1500"
    unfolding sample_guild_def
    by (simp add: guild_membership_total [OF wf] create_guild_total no_guilds_yet sample_total)
qed (simp_all add: sample_guild_def execute_create_guild_def execute_join_guild_def guild_id_of_def Let_def,
     simp_all add: state_defs sample_state_def empty_state_def word_le_nat_alt)

theorem guild_head_count_witness:
  "is_ok (fst (execute_leave_guild 2 31 sample_guild)) \<and> guilds_counted (snd (execute_leave_guild 2 31 sample_guild))"
proof
  show "is_ok (fst (execute_leave_guild 2 31 sample_guild))"
    by (simp add: execute_leave_guild_def sample_guild_facts Let_def)
  show "guilds_counted (snd (execute_leave_guild 2 31 sample_guild))"
    using guild_head_count [of sample_guild "\<lambda>_. 77" 2 "''x''" 0 "snd (execute_leave_guild 2 31 sample_guild)"
        "''y''" 5 31 6 7 3 "''member''"]
    by (simp add: sample_guild_facts guild_id_of_def)
qed

theorem guild_treasury_conserves_witness:
  "is_ok (fst (execute_guild_deposit 2 31 200 sample_guild)) \<and>
   ledger_total (snd (execute_guild_deposit 2 31 200 sample_guild)) = 1500 \<and>
   ledger_total (snd (execute_leave_guild 2 31 sample_guild)) + abandoned 2 31 sample_guild = 1500"
proof -
  have "is_ok (fst (execute_guild_deposit 2 31 200 sample_guild))"
    by (simp add: execute_guild_deposit_def sample_guild_facts AccountState_with_balance_def checked_sub_def Let_def)
  then show ?thesis
    using guild_treasury_conserves [of sample_guild "\<lambda>_. 77" 2 "''x''" 0
        "snd (execute_guild_deposit 2 31 200 sample_guild)" "''y''" 5 31 6 200 3 "''member''"]
    by (simp add: sample_guild_facts guild_id_of_def supply_fits_def)
qed

theorem guild_authority_witness:
  "is_ok (fst (execute_guild_kick 1 31 2 sample_guild)) \<and> \<not> is_ok (fst (execute_guild_kick 2 31 1 sample_guild)) \<and>
   is_ok (fst (execute_guild_promote 1 31 2 ''Officer'' sample_guild)) \<and> rank_in sample_guild 31 1 = Some 2"
proof -
  have "to_lowercase ''Officer'' = ''officer''" by code_simp
  then have "is_ok (fst (execute_guild_promote 1 31 2 ''Officer'' sample_guild))"
    by (simp add: execute_guild_promote_def sample_guild_facts)
  then show ?thesis
    using guild_authority [of 1 31 2 sample_guild "''Officer''" 0] guild_authority [of 2 31 1 sample_guild "''Officer''" 0]
    by (simp add: sample_guild_facts rank_in_def)
qed

end
