(* ===== verification/Mod_Tournament.thy ===== *)
theory Mod_Tournament
  imports Polay_Ledger
begin

section \<open>Tournaments (\<^verbatim>\<open>polay-execution/src/modules/tournament.rs\<close>)\<close>

text \<open>
  Registration with entry fees, start, results, prizes and cancellation. Indexing a slice out of
  range is a \<open>Panic\<close>, with the store as it is at that point. Sums and products are the wrapping ones of
  \<open>u64\<close>; where a theorem needs that they do not wrap it says so.
\<close>

subsection \<open>Handlers\<close>

definition tournament_id_of :: "(u8 list \<Rightarrow> hash) \<Rightarrow> address \<Rightarrow> string \<Rightarrow> u64 \<Rightarrow> hash" where
  "tournament_id_of sha256 sgnr name start_height =
     sha256 (as_bytes sgnr @ str_bytes name @ le_bytes 8 start_height)"

definition execute_create_tournament ::
  "(u8 list \<Rightarrow> hash) \<Rightarrow> address \<Rightarrow> string \<Rightarrow> string \<Rightarrow> u64 \<Rightarrow> u32 \<Rightarrow> u32 \<Rightarrow> u64 \<Rightarrow> u32 list \<Rightarrow> u64 \<Rightarrow>
   chain_state \<Rightarrow> (hash \<times> Event list) outcome" where
  "execute_create_tournament sha256 sgnr name game_id entry_fee max_participants min_participants
     start_height prize_distribution timestamp s =
     (if 100 < length prize_distribution
      then (Err (InvalidInput ''prize_distribution must have at most 100 entries''), s)
      else
        let tournament_id = tournament_id_of sha256 sgnr name start_height;
            tournament = \<lparr>trn_tournament_id = tournament_id, trn_name = name, trn_organizer = sgnr,
              trn_game_id = game_id, trn_entry_fee = entry_fee, trn_prize_pool = 0,
              trn_max_participants = max_participants, trn_min_participants = min_participants,
              trn_participants = [], trn_status = TournamentRegistration, trn_start_height = start_height,
              trn_end_height = None, trn_prize_distribution = prize_distribution, trn_rankings = [],
              trn_prizes_claimed = [], trn_created_at = timestamp\<rparr>
        in (Ok (tournament_id, [Event_tournament_created sgnr tournament_id name]), set_tournament tournament s))"

definition execute_join_tournament :: "address \<Rightarrow> hash \<Rightarrow> chain_state \<Rightarrow> Event list outcome" where
  "execute_join_tournament sgnr tournament_id s =
     (case get_tournament s tournament_id of
        None \<Rightarrow> (Err TournamentNotFound, s)
      | Some tournament \<Rightarrow>
          if trn_status tournament \<noteq> TournamentRegistration then (Err TournamentNotInRegistration, s)
          else if trn_start_height tournament \<le> get_chain_height s then (Err RegistrationClosed, s)
          else if is_tournament_participant s tournament_id sgnr then (Err AlreadyRegistered, s)
          else if unat (trn_max_participants tournament) \<le> length (trn_participants tournament)
          then (Err TournamentFull, s)
          else
            let joined = (\<lambda>s1.
                  let t = tournament\<lparr>trn_prize_pool := trn_prize_pool tournament + trn_entry_fee tournament,
                                      trn_participants := trn_participants tournament @ [sgnr]\<rparr>;
                      s2 = set_tournament t s1;
                      s3 = set_tournament_participant tournament_id sgnr s2
                  in (Ok [Event_tournament_joined sgnr tournament_id], s3))
            in
            if 0 < trn_entry_fee tournament
            then
              (case get_account s sgnr of
                 None \<Rightarrow> (Err (AccountNotFound sgnr), s)
               | Some account \<Rightarrow>
                   if acct_balance account < trn_entry_fee tournament
                   then (Err (InsufficientBalance (trn_entry_fee tournament) (acct_balance account)), s)
                   else
                     (case checked_sub (acct_balance account) (trn_entry_fee tournament) of
                        None \<Rightarrow> (Err (InsufficientBalance (trn_entry_fee tournament) (acct_balance account)), s)
                      | Some b \<Rightarrow> joined (set_account (account\<lparr>acct_balance := b\<rparr>) s)))
            else joined s)"

definition execute_start_tournament :: "address \<Rightarrow> hash \<Rightarrow> u64 \<Rightarrow> chain_state \<Rightarrow> Event list outcome" where
  "execute_start_tournament sgnr tournament_id height s =
     (case get_tournament s tournament_id of
        None \<Rightarrow> (Err TournamentNotFound, s)
      | Some tournament \<Rightarrow>
          if trn_status tournament \<noteq> TournamentRegistration then (Err TournamentNotInRegistration, s)
          else if height < trn_start_height tournament then (Err RegistrationClosed, s)
          else if length (trn_participants tournament) < unat (trn_min_participants tournament)
          then (Err NotEnoughParticipants, s)
          else (Ok [Event_tournament_started tournament_id (word_of_nat (length (trn_participants tournament)))],
                set_tournament (tournament\<lparr>trn_status := TournamentActive\<rparr>) s))"

definition execute_report_tournament_results ::
  "address \<Rightarrow> hash \<Rightarrow> address list \<Rightarrow> u64 \<Rightarrow> chain_state \<Rightarrow> Event list outcome" where
  "execute_report_tournament_results sgnr tournament_id rankings height s =
     (case get_tournament s tournament_id of
        None \<Rightarrow> (Err TournamentNotFound, s)
      | Some tournament \<Rightarrow>
          if trn_status tournament \<noteq> TournamentActive then (Err TournamentNotActive, s)
          else if sgnr \<noteq> trn_organizer tournament then (Err NotOrganizer, s)
          else if \<not> list_all (\<lambda>addr. addr \<in> set (trn_participants tournament)) rankings
          then (Err InvalidRankings, s)
          else if length (trn_prize_distribution tournament) < length rankings then (Err InvalidRankings, s)
          else
            let s1 = set_tournament (tournament\<lparr>trn_rankings := rankings,
                       trn_prizes_claimed := replicate (length rankings) False,
                       trn_end_height := Some height, trn_status := TournamentCompleted\<rparr>) s
            in (case rankings of
                  [] \<Rightarrow> (Panic, s1)
                | winner # _ \<Rightarrow> (Ok [Event_tournament_results_reported tournament_id winner], s1)))"

fun position :: "('a \<Rightarrow> bool) \<Rightarrow> 'a list \<Rightarrow> nat option" where
  "position P [] = None"
| "position P (x # xs) = (if P x then Some 0 else map_option Suc (position P xs))"

definition execute_claim_tournament_prize :: "address \<Rightarrow> hash \<Rightarrow> chain_state \<Rightarrow> Event list outcome" where
  "execute_claim_tournament_prize sgnr tournament_id s =
     (case get_tournament s tournament_id of
        None \<Rightarrow> (Err TournamentNotFound, s)
      | Some tournament \<Rightarrow>
          if trn_status tournament \<noteq> TournamentCompleted then (Err TournamentNotCompleted, s)
          else
            (case position (\<lambda>addr. addr = sgnr) (trn_rankings tournament) of
               None \<Rightarrow> (Err NotRanked, s)
             | Some index \<Rightarrow>
                 if length (trn_prizes_claimed tournament) \<le> index then (Panic, s)
                 else if trn_prizes_claimed tournament ! index then (Err PrizeAlreadyClaimed, s)
                 else if length (trn_prize_distribution tournament) \<le> index then (Panic, s)
                 else
                   let prize = trn_prize_pool tournament * ucast (trn_prize_distribution tournament ! index) div 100;
                       account = unwrap_or (get_account s sgnr) (AccountState_with_balance sgnr 0 0);
                       s1 = set_account (account\<lparr>acct_balance := acct_balance account + prize\<rparr>) s;
                       s2 = set_tournament (tournament
                              \<lparr>trn_prizes_claimed := (trn_prizes_claimed tournament)[index := True]\<rparr>) s1
                   in (Ok [Event_tournament_prize_claimed sgnr tournament_id prize], s2)))"

fun refund_entries :: "u64 \<Rightarrow> address list \<Rightarrow> chain_state \<Rightarrow> chain_state" where
  "refund_entries fee [] s = s"
| "refund_entries fee (p # ps) s =
     (let account = unwrap_or (get_account s p) (AccountState_with_balance p 0 0)
      in refund_entries fee ps (set_account (account\<lparr>acct_balance := acct_balance account + fee\<rparr>) s))"

definition execute_cancel_tournament :: "address \<Rightarrow> hash \<Rightarrow> chain_state \<Rightarrow> Event list outcome" where
  "execute_cancel_tournament sgnr tournament_id s =
     (case get_tournament s tournament_id of
        None \<Rightarrow> (Err TournamentNotFound, s)
      | Some tournament \<Rightarrow>
          if trn_status tournament \<noteq> TournamentRegistration then (Err CannotCancelActiveTournament, s)
          else if sgnr \<noteq> trn_organizer tournament then (Err NotOrganizer, s)
          else
            let refunded_count = word_of_nat (length (trn_participants tournament));
                s1 = (if 0 < trn_entry_fee tournament
                      then refund_entries (trn_entry_fee tournament) (trn_participants tournament) s else s);
                s2 = set_tournament (tournament\<lparr>trn_status := TournamentCancelled, trn_prize_pool := 0\<rparr>) s1
            in (Ok [Event_tournament_cancelled tournament_id refunded_count], s2))"

subsection \<open>Case analyses\<close>

lemma tournament_writes:
  "get_tournament (set_tournament t s) i = (if i = trn_tournament_id t then Some t else get_tournament s i)"
  by (rule tournaments.look_write)

lemma refund_entries_wf [simp]: "wf_state s \<Longrightarrow> wf_state (refund_entries fee ps s)"
  by (induction ps arbitrary: s) (simp_all add: Let_def wf_intros)

lemma refund_entries_frame [simp]: "get_tournament (refund_entries fee ps s) i = get_tournament s i"
  by (induction ps arbitrary: s) (simp_all add: Let_def)

lemma join_tournament_cases:
  obtains (refused) e where "execute_join_tournament sgnr i s = (Err e, s)"
    | (joined) t s1 where "get_tournament s i = Some t" "trn_status t = TournamentRegistration"
      "\<not> is_tournament_participant s i sgnr" "length (trn_participants t) < unat (trn_max_participants t)"
      "trn_entry_fee t = 0 \<and> s1 = s \<or>
       (\<exists>acct. get_account s sgnr = Some acct \<and> trn_entry_fee t \<le> acct_balance acct \<and>
         s1 = set_account (acct\<lparr>acct_balance := acct_balance acct - trn_entry_fee t\<rparr>) s)"
      "execute_join_tournament sgnr i s =
         (Ok [Event_tournament_joined sgnr i],
          set_tournament_participant i sgnr
            (set_tournament (t\<lparr>trn_prize_pool := trn_prize_pool t + trn_entry_fee t,
                                trn_participants := trn_participants t @ [sgnr]\<rparr>) s1))"
proof (cases "\<exists>e. execute_join_tournament sgnr i s = (Err e, s)")
  case False
  then obtain t where *: "get_tournament s i = Some t" "trn_status t = TournamentRegistration"
    "get_chain_height s < trn_start_height t"
    "\<not> is_tournament_participant s i sgnr" "length (trn_participants t) < unat (trn_max_participants t)"
    by (auto simp: execute_join_tournament_def Let_def not_le split: option.splits if_splits)
  show thesis
  proof (cases "trn_entry_fee t = 0")
    case True
    with * show thesis
      by (intro joined [of t s]) (simp_all add: execute_join_tournament_def Let_def not_le)
  next
    case fee: False
    with * False obtain acct where a: "get_account s sgnr = Some acct" "trn_entry_fee t \<le> acct_balance acct"
      by (auto simp: execute_join_tournament_def Let_def not_le not_less word_neq_0_conv split: option.splits if_splits)
    with * fee show thesis
      by (intro joined [of t "set_account (acct\<lparr>acct_balance := acct_balance acct - trn_entry_fee t\<rparr>) s"])
         (simp_all add: execute_join_tournament_def Let_def not_le leD word_neq_0_conv)
  qed
qed (use refused in blast)

lemma claim_prize_cases:
  obtains (refused) e where "execute_claim_tournament_prize sgnr i s = (Err e, s)"
    | (panicked) t k where "get_tournament s i = Some t" "trn_status t = TournamentCompleted"
      "position (\<lambda>addr. addr = sgnr) (trn_rankings t) = Some k"
      "length (trn_prizes_claimed t) \<le> k \<or> length (trn_prize_distribution t) \<le> k"
      "execute_claim_tournament_prize sgnr i s = (Panic, s)"
    | (claimed) t k where "get_tournament s i = Some t" "trn_status t = TournamentCompleted"
      "position (\<lambda>addr. addr = sgnr) (trn_rankings t) = Some k" "k < length (trn_prizes_claimed t)"
      "k < length (trn_prize_distribution t)" "\<not> trn_prizes_claimed t ! k"
      "execute_claim_tournament_prize sgnr i s =
         (Ok [Event_tournament_prize_claimed sgnr i (prize_at t k)],
          set_tournament (t\<lparr>trn_prizes_claimed := (trn_prizes_claimed t)[k := True]\<rparr>)
            (set_account ((unwrap_or (get_account s sgnr) (AccountState_with_balance sgnr 0 0))
               \<lparr>acct_balance := acct_balance (unwrap_or (get_account s sgnr) (AccountState_with_balance sgnr 0 0))
                   + prize_at t k\<rparr>) s))"
proof (cases "\<exists>e. execute_claim_tournament_prize sgnr i s = (Err e, s)")
  case False
  then obtain t k where *: "get_tournament s i = Some t" "trn_status t = TournamentCompleted"
    "position (\<lambda>addr. addr = sgnr) (trn_rankings t) = Some k"
    by (auto simp: execute_claim_tournament_prize_def split: option.splits if_splits)
  show thesis
  proof (cases "length (trn_prizes_claimed t) \<le> k \<or> length (trn_prize_distribution t) \<le> k")
    case True
    with * False show thesis
      by (intro panicked [of t k]) (auto simp: execute_claim_tournament_prize_def split: if_splits)
  next
    case in_range: False
    with * False have open_prize: "\<not> trn_prizes_claimed t ! k"
      by (auto simp: execute_claim_tournament_prize_def)
    with * in_range show thesis
      by (intro claimed [of t k]) (simp_all add: execute_claim_tournament_prize_def Let_def prize_at_def)
  qed
qed (use refused in blast)


lemma tournament_wf:
  assumes "wf_state s"
  shows "wf_state (snd (execute_create_tournament sha sgnr n g fee mx mn h ds t s))"
    "wf_state (snd (execute_join_tournament sgnr i s))"
    "wf_state (snd (execute_start_tournament sgnr i height s))"
    "wf_state (snd (execute_report_tournament_results sgnr i rs height s))"
    "wf_state (snd (execute_claim_tournament_prize sgnr i s))"
    "wf_state (snd (execute_cancel_tournament sgnr i s))"
  using assms
  by (auto simp: execute_create_tournament_def execute_join_tournament_def execute_start_tournament_def
      execute_report_tournament_results_def execute_claim_tournament_prize_def execute_cancel_tournament_def Let_def
      intro!: wf_intros refund_entries_wf split: option.splits list.splits)

subsection \<open>Well-formed tournaments\<close>

definition tournament_sound :: "Tournament \<Rightarrow> bool" where
  "tournament_sound t =
     (case trn_status t of
        TournamentRegistration \<Rightarrow>
          unat (trn_prize_pool t) = unat (trn_entry_fee t) * length (trn_participants t) \<and> trn_prizes_claimed t = []
      | TournamentActive \<Rightarrow> trn_prizes_claimed t = []
      | TournamentCompleted \<Rightarrow>
          length (trn_prizes_claimed t) = length (trn_rankings t) \<and>
          length (trn_rankings t) \<le> length (trn_prize_distribution t) \<and>
          set (trn_rankings t) \<subseteq> set (trn_participants t)
      | TournamentCancelled \<Rightarrow> trn_prize_pool t = 0 \<and> trn_prizes_claimed t = [])"

definition tournaments_sound :: "chain_state \<Rightarrow> bool" where
  "tournaments_sound s \<longleftrightarrow> (\<forall>i t. get_tournament s i = Some t \<longrightarrow> tournament_sound t)"

text \<open>The percentages add up to at most a hundred and the pool is far enough from the end of \<open>u64\<close>.\<close>

definition payable :: "Tournament \<Rightarrow> bool" where
  "payable t \<longleftrightarrow> sum_list (map unat (trn_prize_distribution t)) \<le> 100 \<and> unat (trn_prize_pool t) * 100 < 2 ^ 64"

lemma tournaments_sound_write:
  "tournaments_sound s \<Longrightarrow> tournament_sound t \<Longrightarrow> tournaments_sound (set_tournament t s)"
  "tournaments_sound s \<Longrightarrow> tournaments_sound (set_account a s)"
  "tournaments_sound s \<Longrightarrow> tournaments_sound (set_tournament_participant i p s)"
  "tournaments_sound s \<Longrightarrow> tournaments_sound (refund_entries fee ps s)"
  by (auto simp: tournaments_sound_def tournament_writes)

subsection \<open>Prizes\<close>

lemma claimed_prizes_sum:
  "claimed_prizes t = (\<Sum>i<length (trn_prizes_claimed t). if trn_prizes_claimed t ! i then unat (prize_at t i) else 0)"
  by (simp add: claimed_prizes_def interv_sum_list_conv_sum_set_nat atLeast0LessThan)

lemma unat_prize_at:
  assumes "payable t" and "i < length (trn_prize_distribution t)"
  shows "unat (prize_at t i) = unat (trn_prize_pool t) * unat (trn_prize_distribution t ! i) div 100"
proof -
  let ?d = "trn_prize_distribution t ! i"
  have "unat ?d \<le> sum_list (map unat (trn_prize_distribution t))"
    using assms(2) by (intro member_le_sum_list) simp_all
  then have d: "unat ?d \<le> 100"
    using assms(1) by (simp add: payable_def)
  then have "unat (trn_prize_pool t) * unat ?d \<le> unat (trn_prize_pool t) * 100"
    by (rule mult_le_mono2)
  also have "\<dots> < 2 ^ 64"
    using assms(1) by (simp add: payable_def)
  finally have "unat (trn_prize_pool t) * unat ?d < 2 ^ 64" .
  moreover have "unat (ucast ?d :: u64) = unat ?d"
    using d by (simp add: unat_ucast_mod)
  ultimately show ?thesis
    by (simp add: prize_at_def unat_div unat_word_ariths)
qed

lemma sum_div_le: "(\<Sum>i<(n::nat). f i div k) \<le> (\<Sum>i<n. f i) div (k :: nat)"
proof (induction n)
  case (Suc n)
  have "(\<Sum>i<n. f i) div k + f n div k \<le> ((\<Sum>i<n. f i) + f n) div k"
    using div_add1_eq [of "\<Sum>i<n. f i" "f n" k] by simp
  with Suc show ?case by simp
qed simp

lemma claimed_prizes_le:
  assumes p: "payable t" and n: "length (trn_prizes_claimed t) \<le> length (trn_prize_distribution t)"
  shows "claimed_prizes t \<le> unat (trn_prize_pool t)"
proof -
  let ?P = "unat (trn_prize_pool t)" and ?ds = "trn_prize_distribution t"
  have "claimed_prizes t \<le> (\<Sum>i<length (trn_prizes_claimed t). unat (prize_at t i))"
    unfolding claimed_prizes_sum by (rule sum_mono) simp
  also have "\<dots> \<le> (\<Sum>i<length ?ds. unat (prize_at t i))"
    using n by (intro sum_mono2) auto
  also have "\<dots> = (\<Sum>i<length ?ds. ?P * unat (?ds ! i) div 100)"
    using unat_prize_at [OF p] by simp
  also have "\<dots> \<le> (\<Sum>i<length ?ds. ?P * unat (?ds ! i)) div 100"
    by (rule sum_div_le)
  also have "(\<Sum>i<length ?ds. ?P * unat (?ds ! i)) = ?P * sum_list (map unat ?ds)"
    by (simp add: sum_list_sum_nth atLeast0LessThan sum_distrib_left)
  also have "?P * sum_list (map unat ?ds) div 100 \<le> ?P * 100 div 100"
    using p by (intro div_le_mono mult_le_mono) (simp_all add: payable_def)
  finally show ?thesis by simp
qed

lemma claim_escrow:
  assumes "payable t" and "length (trn_prizes_claimed t) \<le> length (trn_prize_distribution t)"
    and "k < length (trn_prizes_claimed t)" and "\<not> trn_prizes_claimed t ! k"
  shows "tournament_escrow (t\<lparr>trn_prizes_claimed := (trn_prizes_claimed t)[k := True]\<rparr>) + unat (prize_at t k)
       = tournament_escrow t"
proof -
  let ?t = "t\<lparr>trn_prizes_claimed := (trn_prizes_claimed t)[k := True]\<rparr>"
  have same: "prize_at ?t i = prize_at t i" for i by (simp add: prize_at_def)
  have "claimed_prizes ?t = claimed_prizes t + unat (prize_at t k)"
    using assms(3,4) unfolding claimed_prizes_sum same
    by (simp add: sum.remove [of _ k] nth_list_update)
  moreover have "claimed_prizes ?t \<le> unat (trn_prize_pool ?t)"
    using assms(1,2) by (intro claimed_prizes_le) (simp_all add: payable_def)
  ultimately show ?thesis by (simp add: tournament_escrow_def)
qed


subsection \<open>Conservation\<close>

definition account_total :: "chain_state \<Rightarrow> nat" where
  "account_total s = fmsum balance_of (st_accounts s)"

interpretation account_sum: pot get_account set_account acct_address balance_of account_total
  by (rule fmap_pot [where f = st_accounts and rest = "\<lambda>_. 0"]) (auto simp: state_defs account_total_def)

lemma account_and_pool_le: "account_total s + held get_tournament tournament_escrow s i \<le> ledger_total s"
  using fmcontrib_le_fmsum [of tournament_escrow "st_tournaments s" i]
  by (simp add: held_def fmcontrib_def ledger_total_def account_total_def get_tournament_def)

text \<open>A wrapping credit that has room adds exactly its amount to both sums.\<close>

lemma plain_credit:
  fixes a :: address and t :: u64
  assumes wf: "wf_state s" and room: "account_total s + unat amt < 2 ^ 64"
  defines "acct \<equiv> unwrap_or (get_account s a) (AccountState_with_balance a 0 t)"
  shows "ledger_total (set_account (acct\<lparr>acct_balance := acct_balance acct + amt\<rparr>) s) = ledger_total s + unat amt"
    and "account_total (set_account (acct\<lparr>acct_balance := acct_balance acct + amt\<rparr>) s) = account_total s + unat amt"
proof -
  have acct: "unat (acct_balance acct) = held get_account balance_of s a" "acct_address acct = a"
    using wf by (simp_all add: acct_def)
  then have "unat (acct_balance acct) + unat amt < 2 ^ 64"
    using account_sum.held_le [of s a] room by linarith
  then have "unat (acct_balance acct + amt) = unat (acct_balance acct) + unat amt"
    by (simp add: unat_word_ariths)
  then show "ledger_total (set_account (acct\<lparr>acct_balance := acct_balance acct + amt\<rparr>) s) = ledger_total s + unat amt"
    "account_total (set_account (acct\<lparr>acct_balance := acct_balance acct + amt\<rparr>) s) = account_total s + unat amt"
    using acct accounts.total_write [of "acct\<lparr>acct_balance := acct_balance acct + amt\<rparr>" s]
      account_sum.total_write [of "acct\<lparr>acct_balance := acct_balance acct + amt\<rparr>" s]
    by (simp_all add: balance_of_def)
qed

lemma refund_entries_total:
  assumes "wf_state s" and "account_total s + unat fee * length ps < 2 ^ 64"
  shows "ledger_total (refund_entries fee ps s) = ledger_total s + unat fee * length ps"
  using assms
proof (induction ps arbitrary: s)
  case (Cons p ps)
  let ?a = "unwrap_or (get_account s p) (AccountState_with_balance p 0 0)"
  let ?s = "set_account (?a\<lparr>acct_balance := acct_balance ?a + fee\<rparr>) s"
  have room: "account_total s + unat fee < 2 ^ 64"
    using Cons.prems(2) by simp
  note credit = plain_credit [OF Cons.prems(1) room, of p 0]
  have "ledger_total (refund_entries fee ps ?s) = ledger_total ?s + unat fee * length ps"
    using Cons.prems credit(2) by (intro Cons.IH) (simp_all add: wf_intros)
  then show ?case using credit(1) by (simp add: Let_def)
qed simp

lemma escrow_unclaimed: "trn_prizes_claimed t = [] \<Longrightarrow> tournament_escrow t = unat (trn_prize_pool t)"
  by (simp add: tournament_escrow_def claimed_prizes_def)

lemma create_tournament_total:
  assumes "held get_tournament tournament_escrow s (tournament_id_of sha sgnr n h) = 0"
  shows "ledger_total (snd (execute_create_tournament sha sgnr n g fee mx mn h ds t s)) = ledger_total s"
  using assms by (simp add: execute_create_tournament_def Let_def tournaments.total_rewrite escrow_unclaimed)

lemma create_tournament_sound:
  "tournaments_sound s \<Longrightarrow> tournaments_sound (snd (execute_create_tournament sha sgnr n g fee mx mn h ds t s))"
  by (simp add: execute_create_tournament_def Let_def tournaments_sound_write tournament_sound_def)

lemma join_tournament_total:
  assumes wf: "wf_state s" and fits: "supply_fits s" and sound: "tournaments_sound s"
  shows "ledger_total (snd (execute_join_tournament sgnr i s)) = ledger_total s \<and>
         tournaments_sound (snd (execute_join_tournament sgnr i s))"
proof (cases rule: join_tournament_cases [of sgnr i s])
  case (joined t s1)
  let ?t = "t\<lparr>trn_prize_pool := trn_prize_pool t + trn_entry_fee t, trn_participants := trn_participants t @ [sgnr]\<rparr>"
  have t: "tournament_sound t" "trn_tournament_id t = i"
    using sound joined(1) wf_keys(12) [OF wf joined(1)] by (auto simp: tournaments_sound_def)
  have paid: "ledger_total s1 + unat (trn_entry_fee t) = ledger_total s" "get_tournament s1 i = Some t"
    "tournaments_sound s1"
    using joined(1,5) debit_total [OF _ wf_keys(1) [OF wf]] sound by (auto intro: tournaments_sound_write)
  have esc: "held get_tournament tournament_escrow s1 i = unat (trn_prize_pool t)"
    using t joined(2) paid(2) by (simp add: tournament_sound_def escrow_unclaimed)
  then have "unat (trn_prize_pool t) + unat (trn_entry_fee t) < 2 ^ 64"
    using tournaments.held_le [of s1 i] paid(1) supply_fitsD [OF fits] by linarith
  then have pool: "unat (trn_prize_pool ?t) = unat (trn_prize_pool t) + unat (trn_entry_fee t)"
    by (simp add: unat_word_ariths)
  then have "tournament_sound ?t" "tournament_escrow ?t = unat (trn_prize_pool t) + unat (trn_entry_fee t)"
    using t(1) joined(2) by (simp_all add: tournament_sound_def escrow_unclaimed)
  then show ?thesis
    using tournaments.total_write [of ?t s1] t esc paid(1,3) joined(6) by (simp add: tournaments_sound_write)
qed (use sound in simp)


lemma start_tournament_total:
  assumes wf: "wf_state s" and sound: "tournaments_sound s"
  shows "ledger_total (snd (execute_start_tournament sgnr i height s)) = ledger_total s \<and>
         tournaments_sound (snd (execute_start_tournament sgnr i height s))"
proof (cases "\<exists>e. execute_start_tournament sgnr i height s = (Err e, s)")
  case False
  then obtain t where t: "get_tournament s i = Some t" "trn_status t = TournamentRegistration"
    "snd (execute_start_tournament sgnr i height s) = set_tournament (t\<lparr>trn_status := TournamentActive\<rparr>) s"
    by (auto simp: execute_start_tournament_def split: option.splits if_splits)
  moreover have "tournament_sound t" using sound t(1) by (auto simp: tournaments_sound_def)
  ultimately show ?thesis
    using wf_keys(12) [OF wf t(1)] sound
    by (simp add: tournaments.total_rewrite escrow_unclaimed tournaments_sound_write tournament_sound_def)
qed (use sound in auto)

lemma report_results_total:
  assumes wf: "wf_state s" and sound: "tournaments_sound s"
  shows "ledger_total (snd (execute_report_tournament_results sgnr i rs height s)) = ledger_total s \<and>
         tournaments_sound (snd (execute_report_tournament_results sgnr i rs height s))"
proof (cases "\<exists>e. execute_report_tournament_results sgnr i rs height s = (Err e, s)")
  case False
  then obtain t where t: "get_tournament s i = Some t" "trn_status t = TournamentActive"
    "list_all (\<lambda>a. a \<in> set (trn_participants t)) rs" "length rs \<le> length (trn_prize_distribution t)"
    "snd (execute_report_tournament_results sgnr i rs height s) =
       set_tournament (t\<lparr>trn_rankings := rs, trn_prizes_claimed := replicate (length rs) False,
         trn_end_height := Some height, trn_status := TournamentCompleted\<rparr>) s"
    by (auto simp: execute_report_tournament_results_def Let_def not_less split: option.splits if_splits list.splits)
  let ?t = "t\<lparr>trn_rankings := rs, trn_prizes_claimed := replicate (length rs) False,
         trn_end_height := Some height, trn_status := TournamentCompleted\<rparr>"
  have "tournament_sound t" using sound t(1) by (auto simp: tournaments_sound_def)
  then have "tournament_escrow t = unat (trn_prize_pool t)"
    using t(2) by (simp add: tournament_sound_def escrow_unclaimed)
  moreover have "tournament_escrow ?t = unat (trn_prize_pool t)"
    by (simp add: tournament_escrow_def claimed_prizes_sum)
  moreover have "tournament_sound ?t"
    using t(3,4) by (auto simp: tournament_sound_def list_all_iff)
  ultimately show ?thesis
    using t(1,5) wf_keys(12) [OF wf t(1)] sound by (simp add: tournaments.total_rewrite tournaments_sound_write)
qed (use sound in auto)

lemma position_Some: "position P xs = Some k \<Longrightarrow> k < length xs \<and> P (xs ! k)"
  by (induction xs arbitrary: k) (auto split: if_splits)

lemma claim_prize_total:
  assumes wf: "wf_state s" and fits: "supply_fits s" and sound: "tournaments_sound s"
    and pay: "\<And>t. get_tournament s i = Some t \<Longrightarrow> payable t"
  shows "ledger_total (snd (execute_claim_tournament_prize sgnr i s)) = ledger_total s \<and>
         tournaments_sound (snd (execute_claim_tournament_prize sgnr i s))"
proof (cases rule: claim_prize_cases [of sgnr i s])
  case (claimed t k)
  let ?t = "t\<lparr>trn_prizes_claimed := (trn_prizes_claimed t)[k := True]\<rparr>"
  let ?a = "unwrap_or (get_account s sgnr) (AccountState_with_balance sgnr 0 0)"
  let ?s = "set_account (?a\<lparr>acct_balance := acct_balance ?a + prize_at t k\<rparr>) s"
  have t: "tournament_sound t" using sound claimed(1) by (auto simp: tournaments_sound_def)
  then have esc: "tournament_escrow ?t + unat (prize_at t k) = tournament_escrow t"
    using claimed pay [OF claimed(1)] by (intro claim_escrow) (auto simp: tournament_sound_def)
  then have "account_total s + unat (prize_at t k) < 2 ^ 64"
    using account_and_pool_le [of s i] claimed(1) supply_fitsD [OF fits] by simp
  then have "ledger_total ?s = ledger_total s + unat (prize_at t k)"
    by (rule plain_credit(1) [OF wf])
  moreover have "tournament_sound ?t"
    using t claimed(2) by (simp add: tournament_sound_def)
  ultimately show ?thesis
    using tournaments.total_write [of ?t ?s] esc claimed(1,7) wf_keys(12) [OF wf claimed(1)] sound
    by (simp add: tournaments_sound_write)
qed (use sound in simp_all)

lemma cancel_tournament_total:
  assumes wf: "wf_state s" and fits: "supply_fits s" and sound: "tournaments_sound s"
  shows "ledger_total (snd (execute_cancel_tournament sgnr i s)) = ledger_total s \<and>
         tournaments_sound (snd (execute_cancel_tournament sgnr i s))"
proof (cases "\<exists>e. execute_cancel_tournament sgnr i s = (Err e, s)")
  case False
  then obtain t where t: "get_tournament s i = Some t" "trn_status t = TournamentRegistration"
    "sgnr = trn_organizer t"
    by (auto simp: execute_cancel_tournament_def Let_def split: option.splits if_splits)
  let ?s = "if 0 < trn_entry_fee t then refund_entries (trn_entry_fee t) (trn_participants t) s else s"
  let ?t = "t\<lparr>trn_status := TournamentCancelled, trn_prize_pool := 0\<rparr>"
  have run: "snd (execute_cancel_tournament sgnr i s) = set_tournament ?t ?s"
    using t by (simp add: execute_cancel_tournament_def Let_def)
  have snd: "tournament_sound t" using sound t(1) by (auto simp: tournaments_sound_def)
  then have pool: "unat (trn_prize_pool t) = unat (trn_entry_fee t) * length (trn_participants t)"
    "tournament_escrow t = unat (trn_prize_pool t)" and t': "tournament_sound ?t" "tournament_escrow ?t = 0"
    using t(2) by (simp_all add: tournament_sound_def escrow_unclaimed)
  have "account_total s + unat (trn_entry_fee t) * length (trn_participants t) < 2 ^ 64"
    using account_and_pool_le [of s i] t(1) pool supply_fitsD [OF fits] by simp
  then have "ledger_total ?s = ledger_total s + unat (trn_prize_pool t)"
    using refund_entries_total [OF wf] pool(1) by (auto simp: word_gt_0)
  moreover have "get_tournament ?s i = Some t" "tournaments_sound ?s"
    using t(1) sound by (simp_all add: tournaments_sound_write)
  ultimately show ?thesis
    using tournaments.total_write [of ?t ?s] wf_keys(12) [OF wf t(1)] pool(2) t' unfolding run
    by (simp add: tournaments_sound_write)
qed (use sound in auto)


subsection \<open>Properties\<close>

definition sample_active :: Tournament where
  "sample_active = \<lparr>trn_tournament_id = 41, trn_name = ''cup'', trn_organizer = 1, trn_game_id = ''chess'',
     trn_entry_fee = 100, trn_prize_pool = 200, trn_max_participants = 8, trn_min_participants = 2,
     trn_participants = [1, 2], trn_status = TournamentActive, trn_start_height = 10, trn_end_height = None,
     trn_prize_distribution = [60, 40], trn_rankings = [], trn_prizes_claimed = [], trn_created_at = 0\<rparr>"

definition sample_completed :: Tournament where
  "sample_completed = sample_active\<lparr>trn_status := TournamentCompleted, trn_rankings := [2, 1],
     trn_prizes_claimed := [False, False], trn_end_height := Some 20\<rparr>"

definition with_tournament :: "Tournament \<Rightarrow> chain_state" where
  "with_tournament t = set_tournament t sample_state"

lemma with_tournament_facts:
  assumes "trn_tournament_id t = 41" "tournament_sound t"
  shows "wf_state (with_tournament t)" "tournaments_sound (with_tournament t)"
    "get_tournament (with_tournament t) 41 = Some t" "get_tournament (with_tournament t) 99 = None"
    "ledger_total (with_tournament t) = 1500 + tournament_escrow t"
    "get_account (with_tournament t) a = get_account sample_state a"
proof -
  have none: "get_tournament sample_state i = None" for i
    by (simp add: sample_state_def state_defs empty_state_def)
  then show "tournaments_sound (with_tournament t)"
    using assms(2) unfolding with_tournament_def by (intro tournaments_sound_write) (simp add: tournaments_sound_def)
  show "ledger_total (with_tournament t) = 1500 + tournament_escrow t"
    using tournaments.total_write [of t sample_state] by (simp add: with_tournament_def none sample_total)
qed (use assms in \<open>simp_all add: with_tournament_def tournament_writes wf_intros\<close>,
     simp add: sample_state_def state_defs empty_state_def)

lemma sample_tournaments:
  "trn_tournament_id sample_active = 41" "tournament_sound sample_active" "tournament_escrow sample_active = 200"
  "trn_tournament_id sample_completed = 41" "tournament_sound sample_completed" "tournament_escrow sample_completed = 200"
  "payable sample_active" "payable sample_completed"
  by (simp_all add: sample_completed_def sample_active_def tournament_sound_def tournament_escrow_def
      claimed_prizes_def payable_def)

lemmas sample_tournament_facts =
  with_tournament_facts [OF sample_tournaments(1,2)] with_tournament_facts [OF sample_tournaments(4,5)] sample_tournaments

lemma sample_claim: "is_ok (fst (execute_claim_tournament_prize 2 41 (with_tournament sample_completed)))"
  by (simp add: execute_claim_tournament_prize_def sample_tournament_facts Let_def)
     (simp add: sample_completed_def sample_active_def Let_def)

text \<open>
  C23: every tournament handler conserves the ledger, in which a tournament counts for its pool less
  the prizes already claimed, and keeps the tournaments well-formed; for prizes that add up to at most
  100 percent of a pool whose hundredfold fits a \<open>u64\<close>. Creation must not hit the id of a tournament
  that still holds tokens.
\<close>

theorem tournament_conserves:
  assumes "wf_state s" and "supply_fits s" and "tournaments_sound s"
    and "\<And>t. get_tournament s i = Some t \<Longrightarrow> payable t"
    and "held get_tournament tournament_escrow s (tournament_id_of sha sgnr n h) = 0"
  shows "s' \<in> {snd (execute_create_tournament sha sgnr n g fee mx mn h ds ts s),
                snd (execute_join_tournament sgnr i s), snd (execute_start_tournament sgnr i height s),
                snd (execute_report_tournament_results sgnr i rs height s),
                snd (execute_claim_tournament_prize sgnr i s), snd (execute_cancel_tournament sgnr i s)} \<Longrightarrow>
         ledger_total s' = ledger_total s \<and> tournaments_sound s'"
  using create_tournament_total [OF assms(5)] create_tournament_sound [OF assms(3)]
    join_tournament_total [OF assms(1-3)] start_tournament_total [OF assms(1,3)]
    report_results_total [OF assms(1,3)] claim_prize_total [OF assms(1-4)] cancel_tournament_total [OF assms(1-3)]
  by auto

theorem tournament_conserves_witness:
  "is_ok (fst (execute_claim_tournament_prize 2 41 (with_tournament sample_completed))) \<and>
   ledger_total (snd (execute_claim_tournament_prize 2 41 (with_tournament sample_completed))) = 1700"
proof -
  have "is_ok (fst (execute_claim_tournament_prize 2 41 (with_tournament sample_completed)))"
    by (rule sample_claim)
  moreover have "ledger_total (snd (execute_claim_tournament_prize 2 41 (with_tournament sample_completed)))
      = ledger_total (with_tournament sample_completed) \<and>
    tournaments_sound (snd (execute_claim_tournament_prize 2 41 (with_tournament sample_completed)))"
    by (rule tournament_conserves [where s = "with_tournament sample_completed" and i = 41 and sgnr = 2
          and sha = "\<lambda>_. 99" and n = "''x''" and h = 0 and g = "''y''" and fee = 0 and mx = 1 and mn = 1
          and ds = "[]" and ts = 0 and height = 0 and rs = "[]"])
       (simp_all add: sample_tournament_facts tournament_id_of_def supply_fits_def)
  ultimately show ?thesis by (simp add: sample_tournament_facts)
qed

text \<open>
  in a well-formed state claiming a prize never panics, and a successful claim credits the signer
  with the prize of their first rank and closes it: a second claim is refused.
\<close>

theorem prize_claimed_once:
  assumes wf: "wf_state s" and sound: "tournaments_sound s"
  shows "fst (execute_claim_tournament_prize sgnr i s) \<noteq> Panic \<and>
    (is_ok (fst (execute_claim_tournament_prize sgnr i s)) \<longrightarrow>
      (let s' = snd (execute_claim_tournament_prize sgnr i s) in
       (\<exists>t k acct. get_tournament s i = Some t \<and> k < length (trn_rankings t) \<and> trn_rankings t ! k = sgnr \<and>
          get_account s' sgnr = Some acct \<and>
          acct_balance acct = acct_balance (unwrap_or (get_account s sgnr) (AccountState_with_balance sgnr 0 0))
             + prize_at t k) \<and>
       execute_claim_tournament_prize sgnr i s' = (Err PrizeAlreadyClaimed, s')))"
proof (cases rule: claim_prize_cases [of sgnr i s])
  case (panicked t k)
  have "tournament_sound t" using sound panicked(1) by (auto simp: tournaments_sound_def)
  then show ?thesis
    using panicked(2,4) position_Some [OF panicked(3)] by (simp add: tournament_sound_def)
next
  case (claimed t k)
  let ?s = "snd (execute_claim_tournament_prize sgnr i s)"
  have id: "trn_tournament_id t = i" by (rule wf_keys(12) [OF wf claimed(1)])
  have "execute_claim_tournament_prize sgnr i ?s = (Err PrizeAlreadyClaimed, ?s)"
    unfolding claimed(7) snd_conv
    using claimed(2-4) by (simp add: execute_claim_tournament_prize_def tournament_writes id)
  moreover have "get_account ?s sgnr =
      Some ((unwrap_or (get_account s sgnr) (AccountState_with_balance sgnr 0 0))
               \<lparr>acct_balance := acct_balance (unwrap_or (get_account s sgnr) (AccountState_with_balance sgnr 0 0))
                   + prize_at t k\<rparr>)"
    using wf unfolding claimed(7) by (simp add: accounts.look_write)
  ultimately show ?thesis
    using claimed(1,7) position_Some [OF claimed(3)] by (auto simp: Let_def)
qed simp

theorem prize_claimed_once_witness:
  "let s = with_tournament sample_completed; s' = snd (execute_claim_tournament_prize 2 41 s) in
   is_ok (fst (execute_claim_tournament_prize 2 41 s)) \<and>
   execute_claim_tournament_prize 2 41 s' = (Err PrizeAlreadyClaimed, s')"
proof -
  have "is_ok (fst (execute_claim_tournament_prize 2 41 (with_tournament sample_completed)))"
    by (rule sample_claim)
  then show ?thesis
    using prize_claimed_once [of "with_tournament sample_completed" 2 41]
    by (simp add: sample_tournament_facts Let_def)
qed

text \<open>
  an organizer who reports an empty ranking crashes the handler after the tournament has been
  written back as completed. From there on every operation on the tournament is refused, to everyone:
  the entry fees in its pool are out of reach.
\<close>

theorem empty_ranking_strands_pool:
  assumes wf: "wf_state s" and t: "get_tournament s i = Some t" "trn_status t = TournamentActive"
  shows "let (res, s') = execute_report_tournament_results (trn_organizer t) i [] height s in
    res = Panic \<and>
    (\<forall>a h rs. \<exists>e1 e2 e3 e4 e5.
       execute_claim_tournament_prize a i s' = (Err e1, s') \<and> execute_cancel_tournament a i s' = (Err e2, s') \<and>
       execute_join_tournament a i s' = (Err e3, s') \<and> execute_start_tournament a i h s' = (Err e4, s') \<and>
       execute_report_tournament_results a i rs h s' = (Err e5, s'))"
  using t wf_keys(12) [OF wf t(1)]
  by (simp add: execute_report_tournament_results_def execute_claim_tournament_prize_def
      execute_cancel_tournament_def execute_join_tournament_def execute_start_tournament_def Let_def tournament_writes)

theorem empty_ranking_strands_pool_witness:
  "let (res, s') = execute_report_tournament_results 1 41 [] 20 (with_tournament sample_active) in
   res = Panic \<and> held get_tournament tournament_escrow s' 41 = 200 \<and>
   (\<exists>e. execute_claim_tournament_prize 2 41 s' = (Err e, s'))"
proof -
  have o: "trn_organizer sample_active = 1" "trn_status sample_active = TournamentActive"
    by (simp_all add: sample_active_def)
  have "held get_tournament tournament_escrow
      (snd (execute_report_tournament_results 1 41 [] 20 (with_tournament sample_active))) 41 = 200"
    by (simp add: execute_report_tournament_results_def sample_tournament_facts Let_def o tournaments.held_write,
        simp add: tournament_escrow_def claimed_prizes_def sample_active_def)
  then show ?thesis
    using empty_ranking_strands_pool [of "with_tournament sample_active" 41 sample_active 20]
    by (simp add: sample_tournament_facts o split: prod.splits)
qed

end
