(* ===== verification/Mod_Governance.thy ===== *)
theory Mod_Governance
  imports Polay_Ledger Polay_Config
begin

section \<open>Governance (\<^verbatim>\<open>polay-execution/src/modules/governance.rs\<close>)\<close>

text \<open>
  Proposals with a deposit, stake-weighted votes that can be changed while voting lasts, and the
  settlement of a proposal once it has ended. Quorum and threshold are compared in 128 bits.
\<close>

subsection \<open>Handlers\<close>

definition proposal_id_of :: "(u8 list \<Rightarrow> hash) \<Rightarrow> address \<Rightarrow> string \<Rightarrow> u64 \<Rightarrow> hash" where
  "proposal_id_of sha256 sgnr ttl height = sha256 (as_bytes sgnr @ str_bytes ttl @ be_bytes 8 height)"

definition execute_submit_proposal ::
  "(u8 list \<Rightarrow> hash) \<Rightarrow> address \<Rightarrow> ProposalAction \<Rightarrow> string \<Rightarrow> string \<Rightarrow> u64 \<Rightarrow> ChainConfig \<Rightarrow> u64 \<Rightarrow>
   chain_state \<Rightarrow> (hash \<times> Event list) outcome" where
  "execute_submit_proposal sha256 sgnr action ttl description deposit config height s =
     (if deposit < cfg_min_proposal_deposit config
      then (Err (InsufficientDeposit (cfg_min_proposal_deposit config) deposit), s)
      else
        (case get_account s sgnr of
           None \<Rightarrow> (Err (AccountNotFound sgnr), s)
         | Some account \<Rightarrow>
             if acct_balance account < deposit
             then (Err (InsufficientBalance deposit (acct_balance account)), s)
             else
               (case checked_sub (acct_balance account) deposit of
                  None \<Rightarrow> (Err (InsufficientBalance deposit (acct_balance account)), s)
                | Some b \<Rightarrow>
                    let s1 = set_account (account\<lparr>acct_balance := b\<rparr>) s;
                        proposal_id = proposal_id_of sha256 sgnr ttl height;
                        proposal = \<lparr>prp_id = proposal_id, prp_proposer = sgnr, prp_action = action,
                          prp_title = ttl, prp_description = description, prp_deposit = deposit,
                          prp_status = ProposalVoting, prp_yes_votes = 0, prp_no_votes = 0,
                          prp_abstain_votes = 0, prp_voting_start_height = height,
                          prp_voting_end_height = height + cfg_voting_period_blocks config,
                          prp_created_at = height\<rparr>;
                        s2 = set_proposal proposal s1;
                        s3 = set_proposal_list (get_proposal_list s2 @ [proposal_id]) s2
                    in (Ok (proposal_id, [Event_proposal_submitted proposal_id sgnr ttl]), s3))))"

definition delegated_by :: "chain_state \<Rightarrow> address \<Rightarrow> u64" where
  "delegated_by s a =
     foldl saturating_add 0
       (map (\<lambda>(_, d). del_amount d) (filter (\<lambda>((del, _), _). del = a) (sorted_list_of_fmap (st_delegations s))))"

definition vote_weight :: "chain_state \<Rightarrow> address \<Rightarrow> u64" where
  "vote_weight s sgnr =
     (let validator_stake = unwrap_or (map_option val_stake (get_validator s sgnr)) 0
      in if 0 < validator_stake then validator_stake else delegated_by s sgnr)"

fun undo_vote :: "GovVote \<Rightarrow> GovProposal \<Rightarrow> GovProposal" where
  "undo_vote v p =
     (case gv_option v of
        VoteYes \<Rightarrow> p\<lparr>prp_yes_votes := saturating_sub (prp_yes_votes p) (gv_weight v)\<rparr>
      | VoteNo \<Rightarrow> p\<lparr>prp_no_votes := saturating_sub (prp_no_votes p) (gv_weight v)\<rparr>
      | VoteAbstain \<Rightarrow> p\<lparr>prp_abstain_votes := saturating_sub (prp_abstain_votes p) (gv_weight v)\<rparr>)"

fun count_vote :: "VoteOption \<Rightarrow> u64 \<Rightarrow> GovProposal \<Rightarrow> GovProposal" where
  "count_vote VoteYes weight p = p\<lparr>prp_yes_votes := saturating_add (prp_yes_votes p) weight\<rparr>"
| "count_vote VoteNo weight p = p\<lparr>prp_no_votes := saturating_add (prp_no_votes p) weight\<rparr>"
| "count_vote VoteAbstain weight p = p\<lparr>prp_abstain_votes := saturating_add (prp_abstain_votes p) weight\<rparr>"

definition execute_vote_proposal ::
  "address \<Rightarrow> hash \<Rightarrow> VoteOption \<Rightarrow> u64 \<Rightarrow> chain_state \<Rightarrow> Event list outcome" where
  "execute_vote_proposal sgnr proposal_id opt height s =
     (case get_proposal s proposal_id of
        None \<Rightarrow> (Err ProposalNotFound, s)
      | Some proposal \<Rightarrow>
          if prp_status proposal \<noteq> ProposalVoting then (Err ProposalNotActive, s)
          else if prp_voting_end_height proposal < height then (Err VotingPeriodEnded, s)
          else
            let weight = vote_weight s sgnr
            in if weight = 0 then (Err NoStakeToVote, s)
               else
                 let p1 = (case get_vote s proposal_id sgnr of
                             None \<Rightarrow> proposal
                           | Some existing_vote \<Rightarrow> undo_vote existing_vote proposal);
                     vote = \<lparr>gv_proposal_id = proposal_id, gv_voter = sgnr, gv_option = opt,
                             gv_weight = weight, gv_height = height\<rparr>;
                     s1 = set_vote vote s;
                     s2 = set_proposal (count_vote opt weight p1) s1
                 in (Ok [Event_vote_cast proposal_id sgnr (vote_option_label opt) weight], s2))"

definition calculate_total_staked :: "chain_state \<Rightarrow> u64" where
  "calculate_total_staked s = foldl saturating_add 0 (map (val_stake \<circ> snd) (sorted_list_of_fmap (st_validators s)))"

fun execute_proposal_action :: "ProposalAction \<Rightarrow> chain_state \<Rightarrow> unit outcome" where
  "execute_proposal_action (ParameterChange parameter new_value) s = (Ok (), s)"
| "execute_proposal_action (TreasurySpend recipient amount reason) s =
     (let recipient_account = unwrap_or (get_account s recipient) (AccountState_new recipient 0)
      in (Ok (), set_account (credit recipient_account amount) s))"
| "execute_proposal_action (SlashValidator addr fraction_bps reason) s =
     (case get_validator s addr of
        None \<Rightarrow> (Err ValidatorNotFound, s)
      | Some validator \<Rightarrow>
          let slash_amount = bps_share (val_stake validator) fraction_bps
          in (Ok (), set_validator (validator\<lparr>val_stake := saturating_sub (val_stake validator) slash_amount\<rparr>) s))"
| "execute_proposal_action (ApproveAttestor addr game_id) s = (Ok (), s)"
| "execute_proposal_action (SuspendAttestor addr) s =
     (case get_attestor s addr of
        None \<Rightarrow> (Ok (), s)
      | Some attestor \<Rightarrow> (Ok (), set_attestor (attestor\<lparr>att_status := AttestorSuspended\<rparr>) s))"
| "execute_proposal_action (TextProposal t d) s = (Ok (), s)"

definition quorum_met :: "ChainConfig \<Rightarrow> u64 \<Rightarrow> GovProposal \<Rightarrow> bool" where
  "quorum_met config total_staked p =
     (let total_votes = saturating_add (saturating_add (prp_yes_votes p) (prp_no_votes p)) (prp_abstain_votes p)
      in if total_staked = 0 then False
         else (ucast (cfg_governance_quorum_bps config) :: u128) * ucast total_staked \<le> ucast total_votes * 10000)"

definition threshold_met :: "ChainConfig \<Rightarrow> GovProposal \<Rightarrow> bool" where
  "threshold_met config p =
     (let yes_and_no = saturating_add (prp_yes_votes p) (prp_no_votes p)
      in if yes_and_no = 0 then False
         else (ucast (cfg_pass_threshold_bps config) :: u128) * ucast yes_and_no \<le> ucast (prp_yes_votes p) * 10000)"

definition execute_execute_proposal ::
  "address \<Rightarrow> hash \<Rightarrow> ChainConfig \<Rightarrow> u64 \<Rightarrow> chain_state \<Rightarrow> Event list outcome" where
  "execute_execute_proposal sgnr proposal_id config height s =
     (case get_proposal s proposal_id of
        None \<Rightarrow> (Err ProposalNotFound, s)
      | Some proposal \<Rightarrow>
          if prp_status proposal \<noteq> ProposalVoting then (Err ProposalNotActive, s)
          else if height \<le> prp_voting_end_height proposal then (Err VotingPeriodNotEnded, s)
          else if quorum_met config (calculate_total_staked s) proposal \<and> threshold_met config proposal
          then
            (case execute_proposal_action (prp_action proposal) s of
               (Err e, s1) \<Rightarrow> (Err e, s1)
             | (Panic, s1) \<Rightarrow> (Panic, s1)
             | (Ok _, s1) \<Rightarrow>
                 let proposer_account = unwrap_or (get_account s1 (prp_proposer proposal))
                                          (AccountState_new (prp_proposer proposal) height);
                     s2 = set_account (credit proposer_account (prp_deposit proposal)) s1;
                     s3 = set_proposal (proposal\<lparr>prp_status := ProposalExecuted\<rparr>) s2
                 in (Ok [Event_proposal_passed proposal_id, Event_proposal_executed proposal_id], s3))
          else
            let return_amount = prp_deposit proposal div 2;
                s1 = (if 0 < return_amount
                      then let proposer_account = unwrap_or (get_account s (prp_proposer proposal))
                                 (AccountState_new (prp_proposer proposal) height)
                           in set_account (credit proposer_account return_amount) s
                      else s);
                s2 = set_proposal (proposal\<lparr>prp_status := ProposalRejected\<rparr>) s1
            in (Ok [Event_proposal_rejected proposal_id], s2))"

subsection \<open>Case analyses\<close>

lemma proposal_writes:
  "get_proposal (set_proposal p s) i = (if i = prp_id p then Some p else get_proposal s i)"
  by (rule proposals.look_write)

lemma proposal_frames [simp]:
  "get_proposal (set_vote v s) i = get_proposal s i"
  "get_vote (set_proposal p s) i a = get_vote s i a"
  "get_vote (set_account ac s) i a = get_vote s i a"
  "get_vote (set_proposal_list l s) i a = get_vote s i a"
  "get_vote (set_vote v s) i a = (if (i, a) = (gv_proposal_id v, gv_voter v) then Some v else get_vote s i a)"
  by (simp_all add: state_defs)

lemma action_cases:
  obtains (refused) e where "execute_proposal_action action s = (Err e, s)"
    | (applied) s1 where "execute_proposal_action action s = (Ok (), s1)"
proof -
  have "(\<exists>e. execute_proposal_action action s = (Err e, s)) \<or> (\<exists>s1. execute_proposal_action action s = (Ok (), s1))"
    by (cases action) (auto simp: Let_def split: option.splits)
  with that show thesis by blast
qed

lemma get_vote_frame [simp]:
  "get_vote (set_validator va s) i a = get_vote s i a"
  "get_vote (set_attestor at s) i a = get_vote s i a"
  by (simp_all add: state_defs)

lemma action_frame:
  "get_proposal (snd (execute_proposal_action action s)) i = get_proposal s i"
  "get_vote (snd (execute_proposal_action action s)) i a = get_vote s i a"
  by (cases action; simp add: Let_def split: option.splits)+

lemma credit_address [simp]: "acct_address (credit a amt) = acct_address a"
  by (simp add: credit_def)

lemma action_wf: "wf_state s \<Longrightarrow> wf_state (snd (execute_proposal_action action s))"
  by (cases action) (auto simp: Let_def intro!: wf_intros split: option.splits)

lemma governance_wf:
  assumes "wf_state s"
  shows "wf_state (snd (execute_submit_proposal sha sgnr action ttl desc dep config h s))"
    "wf_state (snd (execute_vote_proposal sgnr i opt h s))"
    "wf_state (snd (execute_execute_proposal sgnr i config h s))"
proof -
  show "wf_state (snd (execute_submit_proposal sha sgnr action ttl desc dep config h s))"
    using assms by (auto simp: execute_submit_proposal_def Let_def intro!: wf_intros split: option.splits)
  show "wf_state (snd (execute_vote_proposal sgnr i opt h s))"
    using assms by (auto simp: execute_vote_proposal_def Let_def intro!: wf_intros split: option.splits)
  show "wf_state (snd (execute_execute_proposal sgnr i config h s))"
  proof (cases "get_proposal s i")
    case (Some p)
    show ?thesis
      using assms action_wf [OF assms, of "prp_action p"]
      by (cases rule: action_cases [of "prp_action p" s])
         (auto simp: execute_execute_proposal_def Some Let_def intro!: wf_intros)
  qed (use assms in \<open>simp add: execute_execute_proposal_def\<close>)
qed


subsection \<open>Tallies\<close>

definition ballot :: "hash \<Rightarrow> VoteOption \<Rightarrow> GovVote \<Rightarrow> nat" where
  "ballot i opt v = (if gv_proposal_id v = i \<and> gv_option v = opt then unat (gv_weight v) else 0)"

definition votes_for :: "hash \<Rightarrow> VoteOption \<Rightarrow> chain_state \<Rightarrow> nat" where
  "votes_for i opt s = fmsum (ballot i opt) (st_votes s)"

fun tally :: "VoteOption \<Rightarrow> GovProposal \<Rightarrow> u64" where
  "tally VoteYes p = prp_yes_votes p"
| "tally VoteNo p = prp_no_votes p"
| "tally VoteAbstain p = prp_abstain_votes p"

definition tally_exact :: "chain_state \<Rightarrow> hash \<Rightarrow> VoteOption \<Rightarrow> bool" where
  "tally_exact s i opt =
     (votes_for i opt s = (case get_proposal s i of None \<Rightarrow> 0 | Some p \<Rightarrow> unat (tally opt p)))"

definition tallies_exact :: "chain_state \<Rightarrow> bool" where
  "tallies_exact s \<longleftrightarrow> (\<forall>i opt. tally_exact s i opt)"

interpretation ballots: pot "\<lambda>s (p, a). get_vote s p a" set_vote "\<lambda>v. (gv_proposal_id v, gv_voter v)"
  "ballot i opt" "votes_for i opt" for i opt
  by (rule fmap_pot [where f = st_votes and rest = "\<lambda>_. 0"]) (auto simp: state_defs votes_for_def)

lemma votes_for_frame [simp]:
  "votes_for i opt (set_account a s) = votes_for i opt s"
  "votes_for i opt (set_proposal p s) = votes_for i opt s"
  "votes_for i opt (set_proposal_list l s) = votes_for i opt s"
  "votes_for i opt (set_validator v s) = votes_for i opt s"
  "votes_for i opt (set_attestor at s) = votes_for i opt s"
  by (simp_all add: votes_for_def state_defs)

lemma votes_for_action [simp]: "votes_for i opt (snd (execute_proposal_action action s)) = votes_for i opt s"
  by (cases action) (simp_all add: Let_def split: option.splits)

lemma tally_undo: "unat (tally o' (undo_vote v p)) = unat (tally o' p) - (if gv_option v = o' then unat (gv_weight v) else 0)"
  by (cases o'; cases "gv_option v") (simp_all add: unat_saturating_sub)

lemma tally_count:
  assumes "unat (tally opt p) + unat w < 2 ^ 64"
  shows "unat (tally o' (count_vote opt w p)) = unat (tally o' p) + (if opt = o' then unat w else 0)"
  using assms by (cases o'; cases opt) (simp_all add: unat_saturating_add)

lemma vote_keeps [simp]:
  "prp_id (undo_vote v p) = prp_id p" "prp_id (count_vote opt w p) = prp_id p"
  "prp_status (undo_vote v p) = prp_status p" "prp_status (count_vote opt w p) = prp_status p"
  "prp_deposit (undo_vote v p) = prp_deposit p" "prp_deposit (count_vote opt w p) = prp_deposit p"
  by (cases "gv_option v"; cases opt; simp)+

declare undo_vote.simps [simp del]

lemma vote_key: "wf_state s \<Longrightarrow> get_vote s i a = Some v \<Longrightarrow> gv_proposal_id v = i \<and> gv_voter v = a"
  using keyedD [of "\<lambda>v. (gv_proposal_id v, gv_voter v)" "st_votes s" "(i, a)" v]
  by (simp add: wf_state_def get_vote_def)

lemma vote_cases:
  obtains (refused) e where "execute_vote_proposal sgnr i opt h s = (Err e, s)"
    | (voted) p p1 v where "get_proposal s i = Some p" "prp_status p = ProposalVoting" "h \<le> prp_voting_end_height p"
      "p1 = (case get_vote s i sgnr of None \<Rightarrow> p | Some e \<Rightarrow> undo_vote e p)"
      "v = \<lparr>gv_proposal_id = i, gv_voter = sgnr, gv_option = opt, gv_weight = vote_weight s sgnr, gv_height = h\<rparr>"
      "execute_vote_proposal sgnr i opt h s =
         (Ok [Event_vote_cast i sgnr (vote_option_label opt) (vote_weight s sgnr)],
          set_proposal (count_vote opt (vote_weight s sgnr) p1) (set_vote v s))"
proof (cases "\<exists>e. execute_vote_proposal sgnr i opt h s = (Err e, s)")
  case False
  then obtain p where *: "get_proposal s i = Some p" "prp_status p = ProposalVoting" "h \<le> prp_voting_end_height p"
    "vote_weight s sgnr \<noteq> 0"
    by (auto simp: execute_vote_proposal_def Let_def not_less split: option.splits if_splits)
  show thesis
    by (rule voted [OF *(1-3) refl refl]) (use * in \<open>simp add: execute_vote_proposal_def Let_def leD\<close>)
qed (use refused in blast)

lemma vote_tally:
  assumes wf: "wf_state s" and ex: "tallies_exact s"
    and room: "votes_for i opt s + unat (vote_weight s sgnr) < 2 ^ 64"
  shows "tallies_exact (snd (execute_vote_proposal sgnr i opt h s))"
proof (cases rule: vote_cases [of sgnr i opt h s])
  case (voted p p1 v)
  let ?s = "set_vote v s" and ?w = "vote_weight s sgnr"
  have tal: "unat (tally o' p) = votes_for i o' s" for o'
    using ex voted(1) by (simp add: tallies_exact_def tally_exact_def)
  have p1: "unat (tally o' p1) = votes_for i o' s - held (\<lambda>s (p, a). get_vote s p a) (ballot i o') s (i, sgnr)"
    and "prp_id p1 = i" for o'
    using tal [of o'] voted(4) vote_key [OF wf, of i sgnr] wf_keys(9) [OF wf voted(1)]
    by (cases "get_vote s i sgnr"; simp add: tally_undo ballot_def)+
  then have "unat (tally o' (count_vote opt ?w p1)) = votes_for i o' ?s" for o'
    using tally_count [of opt p1 ?w o'] room ballots.total_write_eq [of i o' v s] voted(5)
    by (simp add: ballot_def)
  moreover have "votes_for j o' ?s = votes_for j o' s" if "j \<noteq> i" for j o'
    using ballots.total_write [of j o' v s] voted(5) vote_key [OF wf, of i sgnr] that
    by (cases "get_vote s i sgnr") (simp_all add: ballot_def)
  ultimately show ?thesis
    using ex \<open>prp_id p1 = i\<close> unfolding voted(6) tallies_exact_def tally_exact_def
    by (simp add: proposal_writes)
qed (use ex in simp)


lemma tally_zero:
  "prp_yes_votes p = 0 \<Longrightarrow> prp_no_votes p = 0 \<Longrightarrow> prp_abstain_votes p = 0 \<Longrightarrow> tally opt p = 0"
  by (cases opt) simp_all

lemma submit_cases:
  obtains (refused) e where "execute_submit_proposal sha sgnr action ttl desc dep config h s = (Err e, s)"
    | (submitted) acct p s1 where "get_account s sgnr = Some acct" "dep \<le> acct_balance acct"
      "s1 = set_account (acct\<lparr>acct_balance := acct_balance acct - dep\<rparr>) s"
      "prp_id p = proposal_id_of sha sgnr ttl h" "prp_status p = ProposalVoting" "prp_deposit p = dep"
      "\<forall>opt. tally opt p = 0" "cfg_min_proposal_deposit config \<le> dep"
      "snd (execute_submit_proposal sha sgnr action ttl desc dep config h s) =
         set_proposal_list (get_proposal_list (set_proposal p s1) @ [prp_id p]) (set_proposal p s1)"
proof (cases "\<exists>e. execute_submit_proposal sha sgnr action ttl desc dep config h s = (Err e, s)")
  case False
  then obtain acct where *: "cfg_min_proposal_deposit config \<le> dep" "get_account s sgnr = Some acct" "dep \<le> acct_balance acct"
    by (auto simp: execute_submit_proposal_def Let_def not_less split: option.splits if_splits)
  let ?p = "\<lparr>prp_id = proposal_id_of sha sgnr ttl h, prp_proposer = sgnr, prp_action = action, prp_title = ttl,
    prp_description = desc, prp_deposit = dep, prp_status = ProposalVoting, prp_yes_votes = 0, prp_no_votes = 0,
    prp_abstain_votes = 0, prp_voting_start_height = h,
    prp_voting_end_height = h + cfg_voting_period_blocks config, prp_created_at = h\<rparr>"
  show thesis
    by (rule submitted [OF *(2,3) refl, of ?p])
       (use * tally_zero in \<open>simp_all add: execute_submit_proposal_def Let_def leD\<close>)
qed (use refused in blast)

lemma settle_cases:
  obtains (refused) e where "execute_execute_proposal sgnr i config h s = (Err e, s)"
    | (executed) p s1 where "get_proposal s i = Some p" "prp_status p = ProposalVoting" "prp_voting_end_height p < h"
      "quorum_met config (calculate_total_staked s) p" "threshold_met config p"
      "execute_proposal_action (prp_action p) s = (Ok (), s1)"
      "execute_execute_proposal sgnr i config h s =
         (Ok [Event_proposal_passed i, Event_proposal_executed i],
          set_proposal (p\<lparr>prp_status := ProposalExecuted\<rparr>) (credited (prp_proposer p) h (prp_deposit p) s1))"
    | (rejected) p where "get_proposal s i = Some p" "prp_status p = ProposalVoting" "prp_voting_end_height p < h"
      "\<not> (quorum_met config (calculate_total_staked s) p \<and> threshold_met config p)"
      "execute_execute_proposal sgnr i config h s =
         (Ok [Event_proposal_rejected i],
          set_proposal (p\<lparr>prp_status := ProposalRejected\<rparr>)
            (if 0 < prp_deposit p div 2 then credited (prp_proposer p) h (prp_deposit p div 2) s else s))"
proof (cases "\<exists>e. execute_execute_proposal sgnr i config h s = (Err e, s)")
  case False
  then obtain p where p: "get_proposal s i = Some p" "prp_status p = ProposalVoting" "prp_voting_end_height p < h"
    by (auto simp: execute_execute_proposal_def not_le split: option.splits if_splits)
  show thesis
  proof (cases "quorum_met config (calculate_total_staked s) p \<and> threshold_met config p")
    case True
    show thesis
    proof (cases rule: action_cases [of "prp_action p" s])
      case (refused e)
      with p True have "execute_execute_proposal sgnr i config h s = (Err e, s)"
        by (auto simp: execute_execute_proposal_def)
      with False show thesis by blast
    next
      case (applied s1)
      with p True show thesis
        by (intro executed [of p s1]) (auto simp: execute_execute_proposal_def Let_def credit_def)
    qed
  next
    case rej: False
    with p show thesis
      by (intro rejected [of p]) (auto simp: execute_execute_proposal_def Let_def not_le credit_def)
  qed
qed (use refused in blast)

text \<open>Writing a proposal whose tallies are the recorded votes keeps all tallies exact.\<close>

lemma tallies_exact_write:
  assumes "tallies_exact s" and "\<And>opt. votes_for (prp_id p) opt s = unat (tally opt p)"
    and "\<And>j. get_proposal s' j = get_proposal s j" and "\<And>j opt. votes_for j opt s' = votes_for j opt s"
  shows "tallies_exact (set_proposal p s')"
  using assms by (simp add: tallies_exact_def tally_exact_def proposal_writes)

lemma tally_status [simp]: "tally opt (p\<lparr>prp_status := st\<rparr>) = tally opt p"
  by (cases opt) simp_all

lemma tallies_exactD: "tallies_exact s \<Longrightarrow> get_proposal s i = Some p \<Longrightarrow> votes_for i opt s = unat (tally opt p)"
  by (simp add: tallies_exact_def tally_exact_def)

lemma submit_tally:
  assumes ex: "tallies_exact s" and fresh: "get_proposal s (proposal_id_of sha sgnr ttl h) = None"
  shows "tallies_exact (snd (execute_submit_proposal sha sgnr action ttl desc dep config h s))"
proof -
  have list: "tallies_exact (set_proposal_list l s') = tallies_exact s'" for l s'
    by (simp add: tallies_exact_def tally_exact_def)
  have votes: "votes_for (proposal_id_of sha sgnr ttl h) opt s = 0" for opt
    using ex fresh by (simp add: tallies_exact_def tally_exact_def)
  show ?thesis
  proof (cases rule: submit_cases [of sha sgnr action ttl desc dep config h s])
    case (submitted acct p s1)
    have "tallies_exact (set_proposal p s1)"
      by (rule tallies_exact_write [OF ex]) (use submitted votes in simp_all)
    then show ?thesis using submitted by (simp add: list)
  qed (use ex in simp)
qed

lemma settle_tally:
  assumes wf: "wf_state s" and ex: "tallies_exact s"
  shows "tallies_exact (snd (execute_execute_proposal sgnr i config h s))"
proof (cases rule: settle_cases [of sgnr i config h s])
  case (executed p s1)
  have "votes_for j opt s1 = votes_for j opt s" "get_proposal s1 j = get_proposal s j" for j opt
    using votes_for_action [of j opt "prp_action p" s] action_frame(1) [of "prp_action p" s j] executed(6) by simp_all
  then show ?thesis
    using executed(7) tallies_exactD [OF ex executed(1)] wf_keys(9) [OF wf executed(1)]
    by (auto intro!: tallies_exact_write [OF ex])
next
  case (rejected p)
  then show ?thesis
    using tallies_exactD [OF ex rejected(1)] wf_keys(9) [OF wf rejected(1)]
    by (auto intro!: tallies_exact_write [OF ex])
qed (use ex in simp)

subsection \<open>Deposits\<close>

fun grant :: "ProposalAction \<Rightarrow> nat" where
  "grant (TreasurySpend recipient amount reason) = unat amount"
| "grant _ = 0"

lemma action_total:
  assumes "wf_state s" and "ledger_total s + grant action < 2 ^ 64" and "execute_proposal_action action s = (Ok (), s1)"
  shows "ledger_total s1 = ledger_total s + grant action"
  using assms by (cases action) (auto simp: Let_def credit_def credited_total split: option.splits)

lemma submit_total:
  assumes wf: "wf_state s" and fits: "supply_fits s"
    and free: "held get_proposal proposal_escrow s (proposal_id_of sha sgnr ttl h) = 0"
  shows "ledger_total (snd (execute_submit_proposal sha sgnr action ttl desc dep config h s)) = ledger_total s"
proof (cases rule: submit_cases [of sha sgnr action ttl desc dep config h s])
  case (submitted acct p s1)
  have "ledger_total s1 + unat dep = ledger_total s"
    unfolding submitted(3) by (rule debit_total [OF submitted(1) wf_keys(1) [OF wf submitted(1)] submitted(2)])
  then show ?thesis
    using proposals.total_write [of p s1] free submitted(4-6,9)
    by (simp add: proposal_escrow_def submitted(3) held_def)
qed simp

lemma vote_total:
  assumes wf: "wf_state s"
  shows "ledger_total (snd (execute_vote_proposal sgnr i opt h s)) = ledger_total s"
proof (cases rule: vote_cases [of sgnr i opt h s])
  case (voted p p1 v)
  let ?p = "count_vote opt (vote_weight s sgnr) p1"
  have "prp_id ?p = i" "proposal_escrow ?p = proposal_escrow p"
    using voted(4) wf_keys(9) [OF wf voted(1)]
    by (cases "get_vote s i sgnr"; simp add: proposal_escrow_def)+
  then show ?thesis
    using voted(1) proposals.total_rewrite [of "set_vote v s" ?p] by (simp add: voted(6))
qed simp

text \<open>Closing a proposal under vote takes its deposit out of escrow.\<close>

lemma close_proposal_total:
  assumes "wf_state s" and "get_proposal s i = Some p" "get_proposal s' i = Some p"
    and "prp_status p = ProposalVoting" and "st \<noteq> ProposalVoting"
  shows "ledger_total (set_proposal (p\<lparr>prp_status := st\<rparr>) s') + unat (prp_deposit p) = ledger_total s'"
  using proposals.total_write [of "p\<lparr>prp_status := st\<rparr>" s'] wf_keys(9) [OF assms(1,2)] assms(3-)
  by (simp add: proposal_escrow_def)


lemma escrow_credit:
  assumes wf: "wf_state s" and p: "get_proposal s i = Some p" "prp_status p = ProposalVoting"
    and fits: "ledger_total s < 2 ^ 64" and le: "unat amt \<le> unat (prp_deposit p)"
  shows "ledger_total (credited a h amt s) = ledger_total s + unat amt"
proof (rule credit_total [where a = a])
  have "held get_account balance_of s a + unat (prp_deposit p) \<le> ledger_total s"
    using held_pots_le(5) [of s a i] p by (simp add: proposal_escrow_def)
  then show "held get_account balance_of s a + unat amt < 2 ^ 64"
    using fits le by linarith
qed (use wf in simp_all)

text \<open>What settling a proposal adds to the ledger, and what it burns.\<close>

definition settlement_mint :: "chain_state \<Rightarrow> chain_state \<Rightarrow> hash \<Rightarrow> nat" where
  "settlement_mint s s' i =
     (case (get_proposal s i, get_proposal s' i) of
        (Some p, Some p') \<Rightarrow>
          if prp_status p = ProposalVoting \<and> prp_status p' = ProposalExecuted then grant (prp_action p) else 0
      | _ \<Rightarrow> 0)"

definition settlement_burn :: "chain_state \<Rightarrow> chain_state \<Rightarrow> hash \<Rightarrow> nat" where
  "settlement_burn s s' i =
     (case (get_proposal s i, get_proposal s' i) of
        (Some p, Some p') \<Rightarrow>
          if prp_status p = ProposalVoting \<and> prp_status p' = ProposalRejected
          then unat (prp_deposit p) - unat (prp_deposit p) div 2 else 0
      | _ \<Rightarrow> 0)"

lemma settle_total:
  assumes wf: "wf_state s" and fits: "supply_fits s"
    and room: "\<And>p. get_proposal s i = Some p \<Longrightarrow> ledger_total s + grant (prp_action p) < 2 ^ 64"
  shows "let s' = snd (execute_execute_proposal sgnr i config h s) in
         ledger_total s' + settlement_burn s s' i = ledger_total s + settlement_mint s s' i"
proof (cases rule: settle_cases [of sgnr i config h s])
  case (refused e)
  then show ?thesis
    by (auto simp: settlement_burn_def settlement_mint_def Let_def split: option.splits)
next
  case (executed p s1)
  have s1: "wf_state s1" "get_proposal s1 i = Some p"
    using action_wf [OF wf, of "prp_action p"] action_frame(1) [of "prp_action p" s i] executed(1,6) by simp_all
  have "ledger_total s1 = ledger_total s + grant (prp_action p)"
    by (rule action_total [OF wf room [OF executed(1)] executed(6)])
  moreover from this have "ledger_total (credited (prp_proposer p) h (prp_deposit p) s1)
      = ledger_total s1 + unat (prp_deposit p)"
    using room [OF executed(1)] by (intro escrow_credit [OF s1 executed(2)]) simp_all
  ultimately show ?thesis
    using close_proposal_total [OF wf executed(1) _ executed(2), of "credited (prp_proposer p) h (prp_deposit p) s1" ProposalExecuted]
      s1(2) executed(1,2,7) wf_keys(9) [OF wf executed(1)]
    by (simp add: settlement_burn_def settlement_mint_def Let_def proposal_writes)
next
  case (rejected p)
  let ?s1 = "if 0 < prp_deposit p div 2 then credited (prp_proposer p) h (prp_deposit p div 2) s else s"
  have half: "unat (prp_deposit p div 2) = unat (prp_deposit p) div 2"
    by (simp add: unat_div)
  then have "ledger_total (credited (prp_proposer p) h (prp_deposit p div 2) s) = ledger_total s + unat (prp_deposit p) div 2"
    using escrow_credit [OF wf rejected(1,2) supply_fitsD [OF fits], of "prp_deposit p div 2"] by simp
  then have "ledger_total ?s1 = ledger_total s + unat (prp_deposit p) div 2"
    using half by (auto simp: word_gt_0)
  then show ?thesis
    using close_proposal_total [OF wf rejected(1) _ rejected(2), of ?s1 ProposalRejected]
      rejected(1,2,5) wf_keys(9) [OF wf rejected(1)]
    by (auto simp: settlement_burn_def settlement_mint_def Let_def proposal_writes)
qed


subsection \<open>The decision\<close>

lemma unat_fold_saturating:
  "unat (foldl saturating_add a xs) = min (unat a + (\<Sum>x\<leftarrow>xs. unat x)) (2 ^ LENGTH('a) - 1)" for a :: "'a::len word"
proof (induction xs arbitrary: a)
  case (Cons x xs)
  then show ?case by (simp add: unat_saturating_add)
next
  case Nil
  then show ?case using unat_le_max [of a] by simp
qed

lemma scan_sum: "(\<Sum>x\<leftarrow>sorted_list_of_fmap m. f (snd x)) = fmsum f m"
proof -
  have "(\<Sum>x\<leftarrow>sorted_list_of_fmap m. f (snd x)) = (\<Sum>x\<in>set (sorted_list_of_fmap m). f (snd x))"
    using distinct_keys_scan [of m] by (intro sum_list_distinct_conv_sum_set) (simp add: distinct_map)
  also have "\<dots> = (\<Sum>k\<in>fmdom' m. f (the (fmlookup m k)))"
    by (rule sum.reindex_bij_witness [of _ "\<lambda>k. (k, the (fmlookup m k))" fst])
       (auto simp: set_scan fmdom'I fmlookup_dom'_iff)
  finally show ?thesis by (simp add: fmsum_def)
qed

definition total_stake :: "chain_state \<Rightarrow> nat" where
  "total_stake s = fmsum (\<lambda>v. unat (val_stake v)) (st_validators s)"

lemma unat_total_staked: "unat (calculate_total_staked s) = min (total_stake s) (2 ^ 64 - 1)"
  using scan_sum [of "\<lambda>v. unat (val_stake v)" "st_validators s"]
  by (simp add: calculate_total_staked_def unat_fold_saturating total_stake_def comp_def)

text \<open>The 128-bit comparisons do not wrap.\<close>

lemma unat_u128_mul: "unat (ucast (b :: u16) * ucast (x :: u64) :: u128) = unat b * unat x"
proof -
  have "unat b * unat x < 2 ^ 16 * 2 ^ 64"
    by (rule mult_strict_mono') (simp_all add: unat_u16_bound unat_u64_bound del: power_numeral)
  then have "unat b * unat x < 2 ^ 128" by simp
  moreover have "unat (ucast b :: u128) = unat b" "unat (ucast x :: u128) = unat x"
    using unat_u16_bound [of b] unat_u64_bound [of x] by (simp_all add: unat_ucast_mod)
  ultimately show ?thesis by (simp add: unat_word_ariths)
qed

lemma unat_u128_scaled: "unat (ucast (x :: u64) * 10000 :: u128) = 10000 * unat x"
  using unat_u128_mul [of 10000 x] by (simp add: mult.commute)

lemma quorum_met_iff:
  "quorum_met config staked p \<longleftrightarrow>
     0 < unat staked \<and> unat (cfg_governance_quorum_bps config) * unat staked
       \<le> 10000 * min (unat (prp_yes_votes p) + unat (prp_no_votes p) + unat (prp_abstain_votes p)) (2 ^ 64 - 1)"
proof -
  have "unat (saturating_add (saturating_add (prp_yes_votes p) (prp_no_votes p)) (prp_abstain_votes p))
      = min (unat (prp_yes_votes p) + unat (prp_no_votes p) + unat (prp_abstain_votes p)) (2 ^ 64 - 1)"
    by (simp add: unat_saturating_add)
  then show ?thesis
    by (simp add: quorum_met_def Let_def word_le_nat_alt unat_u128_mul unat_u128_scaled unat_gt_0)
qed

lemma threshold_met_iff:
  "threshold_met config p \<longleftrightarrow>
     0 < unat (prp_yes_votes p) + unat (prp_no_votes p) \<and>
     unat (cfg_pass_threshold_bps config) * min (unat (prp_yes_votes p) + unat (prp_no_votes p)) (2 ^ 64 - 1)
       \<le> 10000 * unat (prp_yes_votes p)"
proof -
  have sum: "unat (saturating_add (prp_yes_votes p) (prp_no_votes p))
      = min (unat (prp_yes_votes p) + unat (prp_no_votes p)) (2 ^ 64 - 1)"
    by (simp add: unat_saturating_add)
  moreover have "saturating_add (prp_yes_votes p) (prp_no_votes p) = 0 \<longleftrightarrow>
      unat (prp_yes_votes p) + unat (prp_no_votes p) = 0"
    unfolding unat_eq_zero [symmetric] sum by (simp add: min_def del: unat_eq_zero) linarith
  ultimately show ?thesis
    by (simp add: threshold_met_def Let_def word_le_nat_alt unat_u128_mul unat_u128_scaled)
qed


subsection \<open>Properties\<close>

definition passes :: "ChainConfig \<Rightarrow> nat \<Rightarrow> GovProposal \<Rightarrow> bool" where
  "passes config stake p \<longleftrightarrow>
     (let yes = unat (prp_yes_votes p); no = unat (prp_no_votes p); abstain = unat (prp_abstain_votes p)
      in 0 < stake \<and> unat (cfg_governance_quorum_bps config) * min stake (2 ^ 64 - 1)
             \<le> 10000 * min (yes + no + abstain) (2 ^ 64 - 1) \<and>
         0 < yes + no \<and> unat (cfg_pass_threshold_bps config) * min (yes + no) (2 ^ 64 - 1) \<le> 10000 * yes)"

lemma passes_iff:
  "passes config (total_stake s) p \<longleftrightarrow> quorum_met config (calculate_total_staked s) p \<and> threshold_met config p"
  by (auto simp: passes_def Let_def quorum_met_iff threshold_met_iff unat_total_staked)

definition sample_validator :: ValidatorInfo where
  "sample_validator = (ValidatorInfo_new 5 500)\<lparr>val_stake := 100\<rparr>"

definition sample_delegation :: Delegation where
  "sample_delegation = (Delegation_new 2 5)\<lparr>del_amount := 100\<rparr>"

definition sample_proposal :: GovProposal where
  "sample_proposal = \<lparr>prp_id = 61, prp_proposer = 1, prp_action = TreasurySpend 3 40 ''grant'', prp_title = ''t'',
     prp_description = ''d'', prp_deposit = 200, prp_status = ProposalVoting, prp_yes_votes = 0,
     prp_no_votes = 0, prp_abstain_votes = 0, prp_voting_start_height = 0, prp_voting_end_height = 10,
     prp_created_at = 0\<rparr>"

definition sample_gov :: chain_state where
  "sample_gov = set_proposal sample_proposal
     (set_delegation sample_delegation (set_validator sample_validator sample_state))"

lemma sample_gov_lookups:
  "get_proposal sample_gov 61 = Some sample_proposal" "get_proposal sample_gov 99 = None"
  "get_vote sample_gov i a = None" "get_validator sample_gov 5 = Some sample_validator"
  "get_validator sample_gov 2 = None" "get_account sample_gov a = get_account sample_state a"
  "st_validators sample_gov = fmupd 5 sample_validator fmempty"
  "st_delegations sample_gov = fmupd (2, 5) sample_delegation fmempty" "st_votes sample_gov = fmempty"
  by (simp_all add: sample_gov_def sample_state_def state_defs empty_state_def sample_proposal_def
      sample_validator_def sample_delegation_def ValidatorInfo_new_def Delegation_new_def)

lemma scan_single: "sorted_list_of_fmap (fmupd k v fmempty) = [(k, v)]"
  by (simp add: sorted_list_of_fmap_def sorted_list_of_fset.rep_eq)

lemma sample_gov_facts:
  "wf_state sample_gov" "ledger_total sample_gov = 1800" "tallies_exact sample_gov"
  "vote_weight sample_gov 5 = 100" "vote_weight sample_gov 2 = 100" "total_stake sample_gov = 100"
proof -
  show "wf_state sample_gov"
    by (simp add: sample_gov_def wf_intros)
  have "get_proposal sample_state i = None" "get_delegation sample_state a b = None" for i a b
    by (simp_all add: sample_state_def state_defs empty_state_def)
  then show "ledger_total sample_gov = 1800"
    by (simp add: sample_gov_def proposals.total_write_eq delegations.total_write_eq held_def sample_total
        proposal_escrow_def sample_proposal_def sample_delegation_def Delegation_new_def)
  show "tallies_exact sample_gov"
    unfolding tallies_exact_def tally_exact_def
  proof (intro allI)
    fix i opt
    have "get_proposal sample_gov i = (if i = 61 then Some sample_proposal else None)"
      by (simp add: sample_gov_def proposal_writes sample_proposal_def sample_state_def state_defs empty_state_def)
    then show "votes_for i opt sample_gov =
        (case get_proposal sample_gov i of None \<Rightarrow> 0 | Some p \<Rightarrow> unat (tally opt p))"
      by (simp add: votes_for_def sample_gov_lookups tally_zero sample_proposal_def)
  qed
  show "vote_weight sample_gov 5 = 100"
    by (simp add: vote_weight_def sample_gov_lookups sample_validator_def)
  show "vote_weight sample_gov 2 = 100"
    by (simp add: vote_weight_def sample_gov_lookups delegated_by_def scan_single sample_delegation_def
        saturating_add_def)
  show "total_stake sample_gov = 100"
    by (simp add: total_stake_def sample_gov_lookups fmsum_upd sample_validator_def)
qed

text \<open>
  C25: the tallies of every proposal are exactly the weights of the votes on record, option by option;
  submitting (under a fresh id), voting, changing a vote and settling keep this, as long as the tally
  of the chosen option has room for the weight.
\<close>

theorem vote_tallies_exact:
  assumes "wf_state s" and "tallies_exact s"
    and "get_proposal s (proposal_id_of sha sgnr ttl h) = None"
    and "votes_for i opt s + unat (vote_weight s sgnr) < 2 ^ 64"
  shows "s' \<in> {snd (execute_submit_proposal sha sgnr action ttl desc dep config h s),
                snd (execute_vote_proposal sgnr i opt h s),
                snd (execute_execute_proposal sgnr i config h s)} \<Longrightarrow>
         wf_state s' \<and> tallies_exact s'"
  using governance_wf [OF assms(1)] submit_tally [OF assms(2,3)] vote_tally [OF assms(1,2,4)]
    settle_tally [OF assms(1,2)]
  by auto

theorem vote_tallies_exact_witness:
  "is_ok (fst (execute_vote_proposal 5 61 VoteYes 3 sample_gov)) \<and>
   tallies_exact (snd (execute_vote_proposal 5 61 VoteYes 3 sample_gov))"
proof -
  have "is_ok (fst (execute_vote_proposal 5 61 VoteYes 3 sample_gov))"
    by (simp add: execute_vote_proposal_def sample_gov_lookups sample_gov_facts Let_def sample_proposal_def)
  moreover have "wf_state (snd (execute_vote_proposal 5 61 VoteYes 3 sample_gov)) \<and>
      tallies_exact (snd (execute_vote_proposal 5 61 VoteYes 3 sample_gov))"
    by (rule vote_tallies_exact [where s = sample_gov and sha = "\<lambda>_. 99" and sgnr = 5 and ttl = "''x''" and h = 3
          and i = 61 and opt = VoteYes and action = "TextProposal ''a'' ''b''" and desc = "''y''" and dep = 0
          and config = devnet])
       (simp_all add: sample_gov_facts sample_gov_lookups proposal_id_of_def votes_for_def)
  ultimately show ?thesis by simp
qed

text \<open>
  C26: deposits. Submitting moves the deposit into escrow and voting moves nothing; settling a
  proposal takes the deposit out of escrow and leaves the ledger changed by exactly two amounts: the
  burnt half of a rejected deposit, rounded up, and the treasury grant of an executed proposal, which
  no account is debited for.
\<close>

theorem governance_ledger:
  assumes "wf_state s" and "supply_fits s"
    and "held get_proposal proposal_escrow s (proposal_id_of sha sgnr ttl h) = 0"
    and "\<And>p. get_proposal s i = Some p \<Longrightarrow> ledger_total s + grant (prp_action p) < 2 ^ 64"
  shows "ledger_total (snd (execute_submit_proposal sha sgnr action ttl desc dep config h s)) = ledger_total s \<and>
         ledger_total (snd (execute_vote_proposal sgnr i opt h s)) = ledger_total s \<and>
         (let s' = snd (execute_execute_proposal sgnr i config h s) in
          ledger_total s' + settlement_burn s s' i = ledger_total s + settlement_mint s s' i)"
  using submit_total [OF assms(1-3)] vote_total [OF assms(1)] settle_total [OF assms(1,2,4)] by blast

theorem governance_ledger_witness:
  "fst (execute_execute_proposal 9 61 devnet 11 sample_gov) = Ok [Event_proposal_rejected 61] \<and>
   ledger_total (snd (execute_execute_proposal 9 61 devnet 11 sample_gov)) = 1700"
proof -
  let ?s = "snd (execute_execute_proposal 9 61 devnet 11 sample_gov)"
  have "\<not> threshold_met devnet sample_proposal"
    by (simp add: threshold_met_iff sample_proposal_def)
  then have rejected: "fst (execute_execute_proposal 9 61 devnet 11 sample_gov) = Ok [Event_proposal_rejected 61]"
    "get_proposal ?s 61 = Some (sample_proposal\<lparr>prp_status := ProposalRejected\<rparr>)"
    by (simp_all add: execute_execute_proposal_def sample_gov_lookups Let_def proposal_writes)
       (simp_all add: sample_proposal_def)
  have "let s' = ?s in
      ledger_total s' + settlement_burn sample_gov s' 61 = ledger_total sample_gov + settlement_mint sample_gov s' 61"
    using governance_ledger [of sample_gov "\<lambda>_. 99" 9 "''x''" 11 61 "TextProposal ''a'' ''b''" "''y''" 0 devnet VoteYes]
    by (simp add: sample_gov_facts sample_gov_lookups proposal_id_of_def supply_fits_def Let_def sample_proposal_def)
  then show ?thesis
    using rejected
    by (simp add: settlement_burn_def settlement_mint_def sample_gov_lookups sample_gov_facts Let_def sample_proposal_def)
qed

text \<open>
  once voting has ended, settling executes the proposal if and only if it passes, computed here
  in unbounded arithmetic: the votes cast reach the quorum of the validators' stake and the
  \<open>yes\<close> share of the decided votes reaches the threshold. Either way the proposal is closed: it can neither be
  voted on nor settled again. Only a passing proposal whose action fails is left as it is.
\<close>

theorem proposal_decided_once:
  assumes wf: "wf_state s" and p: "get_proposal s i = Some p" "prp_status p = ProposalVoting"
    and ended: "prp_voting_end_height p < h"
  shows "(\<exists>e. passes config (total_stake s) p \<and> execute_proposal_action (prp_action p) s = (Err e, s) \<and>
            execute_execute_proposal sgnr i config h s = (Err e, s)) \<or>
         (\<exists>s' p'. snd (execute_execute_proposal sgnr i config h s) = s' \<and> get_proposal s' i = Some p' \<and>
            is_ok (fst (execute_execute_proposal sgnr i config h s)) \<and>
            prp_status p' = (if passes config (total_stake s) p then ProposalExecuted else ProposalRejected) \<and>
            (\<forall>a opt h'. execute_vote_proposal a i opt h' s' = (Err ProposalNotActive, s') \<and>
                        execute_execute_proposal a i config h' s' = (Err ProposalNotActive, s')))"
proof -
  have id: "prp_id p = i" by (rule wf_keys(9) [OF wf p(1)])
  have closed: "execute_vote_proposal a i opt h' s' = (Err ProposalNotActive, s') \<and>
      execute_execute_proposal a i config h' s' = (Err ProposalNotActive, s')"
    if "get_proposal s' i = Some p'" "prp_status p' \<noteq> ProposalVoting" for s' p' a opt h'
    using that by (simp add: execute_vote_proposal_def execute_execute_proposal_def)
  show ?thesis
  proof (cases rule: settle_cases [of sgnr i config h s])
    case (executed q s1)
    with p have "q = p" by simp
    with executed show ?thesis
      using closed [of _ "p\<lparr>prp_status := ProposalExecuted\<rparr>"] id by (simp add: proposal_writes passes_iff)
  next
    case (rejected q)
    with p have "q = p" by simp
    with rejected show ?thesis
      using closed [of _ "p\<lparr>prp_status := ProposalRejected\<rparr>"] id by (simp add: proposal_writes passes_iff)
  next
    case (refused e)
    have late: "\<not> h \<le> prp_voting_end_height p" using ended by simp
    have pass: "passes config (total_stake s) p"
    proof (rule ccontr)
      assume "\<not> passes config (total_stake s) p"
      then have "is_ok (fst (execute_execute_proposal sgnr i config h s))"
        using p late by (auto simp: execute_execute_proposal_def passes_iff Let_def)
      then show False using refused by simp
    qed
    moreover have "execute_proposal_action (prp_action p) s = (Err e, s)"
      using refused p late pass
      by (cases rule: action_cases [of "prp_action p" s])
         (simp_all add: execute_execute_proposal_def passes_iff Let_def)
    ultimately show ?thesis using refused by blast
  qed
qed

theorem proposal_decided_once_witness:
  "\<exists>s' p'. snd (execute_execute_proposal 9 61 devnet 11 sample_gov) = s' \<and> get_proposal s' 61 = Some p' \<and>
     prp_status p' = ProposalRejected \<and> execute_vote_proposal 5 61 VoteYes 11 s' = (Err ProposalNotActive, s')"
proof -
  have "\<not> passes devnet (total_stake sample_gov) sample_proposal"
    by (simp add: passes_iff threshold_met_iff sample_proposal_def)
  then show ?thesis
    using proposal_decided_once [of sample_gov 61 sample_proposal 11 devnet 9]
    by (auto simp: sample_gov_facts sample_gov_lookups sample_proposal_def)
qed


end
