(* ===== verification/Polay_Executor.thy ===== *)
theory Polay_Executor
  imports Mod_Transfer Mod_Assets Mod_Market Mod_Staking Mod_Identity Mod_Session Mod_Attestation
    Mod_Rental Mod_Guild Mod_Tournament Mod_Governance
begin

section \<open>Gas and the executor (\<^verbatim>\<open>polay-execution/src/{gas,executor}.rs\<close>)\<close>

text \<open>
  The gas schedule, fee deduction and distribution, dispatch of the forty actions to the module
  handlers, transactions, blocks and block rewards. Code outside the repository comes in through a
  record of functions: SHA-256, hex encoding and decoding, and the length of a transaction's Borsh
  encoding.
\<close>

record externals =
  ext_sha256 :: "u8 list \<Rightarrow> hash"
  ext_hex_encode :: "u8 list \<Rightarrow> string"
  ext_hex_decode :: "string \<Rightarrow> u8 list option"
  ext_tx_size :: "Transaction \<Rightarrow> u64"

subsection \<open>Gas\<close>

fun action_gas :: "TransactionAction \<Rightarrow> u64" where
  "action_gas (Transfer _ _) = 5000"
| "action_gas (CreateAssetClass _ _ _ _ _) = 50000"
| "action_gas (MintAsset _ _ _ _) = 30000"
| "action_gas (TransferAsset _ _ _) = 10000"
| "action_gas (BurnAsset _ _) = 10000"
| "action_gas (CreateListing _ _ _ _) = 40000"
| "action_gas (CancelListing _) = 20000"
| "action_gas (BuyListing _) = 60000"
| "action_gas (CreateProfile _ _ _) = 30000"
| "action_gas (AddAchievement _ _ _ _) = 20000"
| "action_gas (UpdateReputation _ _ _) = 15000"
| "action_gas (RegisterValidator _) = 100000"
| "action_gas (DelegateStake _ _) = 30000"
| "action_gas (UndelegateStake _ _) = 30000"
| "action_gas (RegisterAttestor _ _ _) = 50000"
| "action_gas (SubmitMatchResult _) = 80000"
| "action_gas (DistributeReward _ rewards) = 40000 + word_of_nat (length rewards) * 5000"
| "action_gas (SubmitProposal _ _ _ _) = 100000"
| "action_gas (VoteProposal _ _) = 30000"
| "action_gas (ExecuteProposal _) = 50000"
| "action_gas (CreateSession _ _ _ _) = 50000"
| "action_gas (RevokeSession _) = 20000"
| "action_gas (ListForRent _ _ _ _ _ _) = 30000"
| "action_gas (RentAsset _ _) = 40000"
| "action_gas (ReturnRental _) = 25000"
| "action_gas (ClaimExpiredRental _) = 25000"
| "action_gas (CancelRentalListing _) = 20000"
| "action_gas (CreateGuild _ _ _) = 50000"
| "action_gas (JoinGuild _) = 20000"
| "action_gas (LeaveGuild _) = 20000"
| "action_gas (GuildDeposit _ _) = 25000"
| "action_gas (GuildWithdraw _ _) = 25000"
| "action_gas (GuildPromote _ _ _) = 15000"
| "action_gas (GuildKick _ _) = 20000"
| "action_gas (CreateTournament _ _ _ _ _ _ _) = 50000"
| "action_gas (JoinTournament _) = 25000"
| "action_gas (StartTournament _) = 30000"
| "action_gas (ReportTournamentResults _ rankings) = 40000 + word_of_nat (length rankings) * 5000"
| "action_gas (ClaimTournamentPrize _) = 25000"
| "action_gas (CancelTournament _) = 30000"

definition total_gas :: "externals \<Rightarrow> Transaction \<Rightarrow> u64 \<Rightarrow> u64 \<Rightarrow> u64" where
  "total_gas ext tx base_gas gas_per_byte =
     base_gas + action_gas (tx_action tx) + ext_tx_size ext tx * gas_per_byte"

definition fee :: "u64 \<Rightarrow> u64 \<Rightarrow> u64" where
  "fee gas gas_price = saturating_mul gas gas_price"

definition estimate_gas :: "externals \<Rightarrow> ChainConfig \<Rightarrow> Transaction \<Rightarrow> u64" where
  "estimate_gas ext config tx = total_gas ext tx (cfg_base_gas config) (cfg_gas_per_byte config)"

subsection \<open>Results\<close>

datatype (plugins only: size) StateChange =
    AccountUpdated address
  | BalanceChanged address int
  | AssetCreated hash
  | AssetMinted hash address u64
  | AssetTransferred hash address address u64
  | AssetBurned hash address u64
  | ListingCreated hash
  | ListingCancelledChange hash
  | ListingSoldChange hash
  | ProfileCreated address
  | AchievementAwarded address string
  | ReputationChanged address i64
  | ValidatorRegistered address
  | StakeDelegated address address u64
  | StakeUndelegated address address u64
  | AttestorRegistered address
  | MatchResultSubmitted hash
  | RewardsDistributed hash
  | ProposalSubmitted hash
  | ProposalVoted hash address
  | ProposalExecutedChange hash
  | SessionCreated address address
  | SessionRevoked address address
  | SessionSpendingUpdated address address u64
  | NonceIncremented address
  | FeeDeducted address u64

record ExecutionResult =
  res_receipt :: TransactionReceipt
  res_state_changes :: "StateChange list"

text \<open>The assertion of \<open>Executor::new\<close>, computed in 32 bits.\<close>

definition Executor_new :: "ChainConfig \<Rightarrow> (unit, ChainConfig) result" where
  "Executor_new config =
     (if (ucast (fd_burn_bps (cfg_fee_distribution config)) :: u32)
           + ucast (fd_treasury_bps (cfg_fee_distribution config)) \<le> 10000
      then Ok config else Panic)"

subsection \<open>Dispatch\<close>

definition with_changes :: "Event list outcome \<Rightarrow> StateChange list \<Rightarrow> (Event list \<times> StateChange list) outcome" where
  "with_changes r changes =
     (case r of
        (Ok events, s) \<Rightarrow> (Ok (events, changes), s)
      | (Err e, s) \<Rightarrow> (Err e, s)
      | (Panic, s) \<Rightarrow> (Panic, s))"

definition with_id_changes ::
  "(hash \<times> Event list) outcome \<Rightarrow> (hash \<Rightarrow> StateChange list) \<Rightarrow> (Event list \<times> StateChange list) outcome" where
  "with_id_changes r changes =
     (case r of
        (Ok (i, events), s) \<Rightarrow> (Ok (events, changes i), s)
      | (Err e, s) \<Rightarrow> (Err e, s)
      | (Panic, s) \<Rightarrow> (Panic, s))"

lemma snd_with_changes [simp]:
  "snd (with_changes r changes) = snd r" "snd (with_id_changes q cs) = snd q"
  by (simp_all add: with_changes_def with_id_changes_def split: prod.splits result.splits)

fun dispatch_action ::
  "externals \<Rightarrow> ChainConfig \<Rightarrow> TransactionAction \<Rightarrow> address \<Rightarrow> u64 \<Rightarrow> u64 \<Rightarrow> chain_state \<Rightarrow>
   (Event list \<times> StateChange list) outcome" where
  "dispatch_action ext config (Transfer to amount) sgnr timestamp height s =
     with_changes (execute_transfer sgnr to amount timestamp s)
       [BalanceChanged sgnr (- uint amount), BalanceChanged to (uint amount)]"
| "dispatch_action ext config (CreateAssetClass name symbol asset_type max_supply metadata_uri) sgnr timestamp height s =
     with_id_changes
       (execute_create_asset_class (ext_sha256 ext) sgnr name symbol asset_type max_supply metadata_uri timestamp s)
       (\<lambda>i. [AssetCreated i])"
| "dispatch_action ext config (MintAsset asset_class_id to amount metadata) sgnr timestamp height s =
     with_changes (execute_mint_asset sgnr asset_class_id to amount metadata s) [AssetMinted asset_class_id to amount]"
| "dispatch_action ext config (TransferAsset asset_class_id to amount) sgnr timestamp height s =
     with_changes (execute_transfer_asset sgnr asset_class_id to amount s)
       [AssetTransferred asset_class_id sgnr to amount]"
| "dispatch_action ext config (BurnAsset asset_class_id amount) sgnr timestamp height s =
     with_changes (execute_burn_asset sgnr asset_class_id amount s) [AssetBurned asset_class_id sgnr amount]"
| "dispatch_action ext config (CreateListing asset_class_id amount price_per_unit currency) sgnr timestamp height s =
     with_id_changes
       (execute_create_listing (ext_sha256 ext) sgnr asset_class_id amount price_per_unit currency config timestamp s)
       (\<lambda>i. [ListingCreated i])"
| "dispatch_action ext config (CancelListing listing_id) sgnr timestamp height s =
     with_changes (execute_cancel_listing sgnr listing_id s) [ListingCancelledChange listing_id]"
| "dispatch_action ext config (BuyListing listing_id) sgnr timestamp height s =
     with_changes (execute_buy_listing sgnr listing_id config timestamp s) [ListingSoldChange listing_id]"
| "dispatch_action ext config (CreateProfile username display_name metadata) sgnr timestamp height s =
     with_changes (execute_create_profile sgnr username display_name metadata timestamp s) [ProfileCreated sgnr]"
| "dispatch_action ext config (AddAchievement player achievement_id name metadata) sgnr timestamp height s =
     with_changes (execute_add_achievement sgnr player achievement_id name metadata timestamp s)
       [AchievementAwarded player achievement_id]"
| "dispatch_action ext config (UpdateReputation player delta rsn) sgnr timestamp height s =
     with_changes (execute_update_reputation (ext_hex_encode ext) sgnr player delta rsn timestamp s)
       [ReputationChanged player delta]"
| "dispatch_action ext config (RegisterValidator commission_bps) sgnr timestamp height s =
     with_changes (execute_register_validator sgnr commission_bps config s) [ValidatorRegistered sgnr]"
| "dispatch_action ext config (DelegateStake validator amount) sgnr timestamp height s =
     with_changes (execute_delegate_stake sgnr validator amount config height s) [StakeDelegated sgnr validator amount]"
| "dispatch_action ext config (UndelegateStake validator amount) sgnr timestamp height s =
     with_changes (execute_undelegate_stake sgnr validator amount height config s)
       [StakeUndelegated sgnr validator amount]"
| "dispatch_action ext config (RegisterAttestor game_id endpoint metadata) sgnr timestamp height s =
     with_changes (execute_register_attestor sgnr game_id endpoint metadata timestamp s) [AttestorRegistered sgnr]"
| "dispatch_action ext config (SubmitMatchResult match_result) sgnr timestamp height s =
     with_changes (execute_submit_match_result sgnr match_result config timestamp s)
       [MatchResultSubmitted (mr_match_id match_result)]"
| "dispatch_action ext config (DistributeReward match_id rewards) sgnr timestamp height s =
     with_changes (execute_distribute_reward sgnr match_id rewards timestamp s) [RewardsDistributed match_id]"
| "dispatch_action ext config (SubmitProposal action ttl description deposit) sgnr timestamp height s =
     with_id_changes (execute_submit_proposal (ext_sha256 ext) sgnr action ttl description deposit config height s)
       (\<lambda>i. [ProposalSubmitted i])"
| "dispatch_action ext config (VoteProposal proposal_id opt) sgnr timestamp height s =
     with_changes (execute_vote_proposal sgnr proposal_id opt height s) [ProposalVoted proposal_id sgnr]"
| "dispatch_action ext config (ExecuteProposal proposal_id) sgnr timestamp height s =
     with_changes (execute_execute_proposal sgnr proposal_id config height s) [ProposalExecutedChange proposal_id]"
| "dispatch_action ext config (CreateSession session_pubkey permissions expires_at spending_limit) sgnr timestamp height s =
     with_changes
       (execute_create_session (ext_sha256 ext) sgnr session_pubkey permissions expires_at spending_limit height s)
       [SessionCreated sgnr (ext_sha256 ext session_pubkey)]"
| "dispatch_action ext config (RevokeSession session_address) sgnr timestamp height s =
     with_changes (execute_revoke_session sgnr session_address s) [SessionRevoked sgnr session_address]"
| "dispatch_action ext config (ListForRent cls ast price_per_block deposit min_duration max_duration) sgnr timestamp height s =
     with_id_changes
       (execute_list_for_rent (ext_sha256 ext) sgnr cls ast price_per_block deposit min_duration max_duration timestamp s)
       (\<lambda>_. [])"
| "dispatch_action ext config (RentAsset rental_id duration) sgnr timestamp height s =
     with_changes (execute_rent_asset sgnr rental_id duration height s) []"
| "dispatch_action ext config (ReturnRental rental_id) sgnr timestamp height s =
     with_changes (execute_return_rental sgnr rental_id height s) []"
| "dispatch_action ext config (ClaimExpiredRental rental_id) sgnr timestamp height s =
     with_changes (execute_claim_expired_rental sgnr rental_id height s) []"
| "dispatch_action ext config (CancelRentalListing rental_id) sgnr timestamp height s =
     with_changes (execute_cancel_rental_listing sgnr rental_id s) []"
| "dispatch_action ext config (CreateGuild name description max_members) sgnr timestamp height s =
     with_id_changes (execute_create_guild (ext_sha256 ext) sgnr name description max_members timestamp s) (\<lambda>_. [])"
| "dispatch_action ext config (JoinGuild guild_id) sgnr timestamp height s =
     with_changes (execute_join_guild sgnr guild_id height s) []"
| "dispatch_action ext config (LeaveGuild guild_id) sgnr timestamp height s =
     with_changes (execute_leave_guild sgnr guild_id s) []"
| "dispatch_action ext config (GuildDeposit guild_id amount) sgnr timestamp height s =
     with_changes (execute_guild_deposit sgnr guild_id amount s) []"
| "dispatch_action ext config (GuildWithdraw guild_id amount) sgnr timestamp height s =
     with_changes (execute_guild_withdraw sgnr guild_id amount s) []"
| "dispatch_action ext config (GuildPromote guild_id mem role) sgnr timestamp height s =
     with_changes (execute_guild_promote sgnr guild_id mem role s) []"
| "dispatch_action ext config (GuildKick guild_id mem) sgnr timestamp height s =
     with_changes (execute_guild_kick sgnr guild_id mem s) []"
| "dispatch_action ext config (CreateTournament name game_id entry_fee max_p min_p start_height dist) sgnr timestamp height s =
     with_id_changes
       (execute_create_tournament (ext_sha256 ext) sgnr name game_id entry_fee max_p min_p start_height dist timestamp s)
       (\<lambda>_. [])"
| "dispatch_action ext config (JoinTournament tournament_id) sgnr timestamp height s =
     with_changes (execute_join_tournament sgnr tournament_id s) []"
| "dispatch_action ext config (StartTournament tournament_id) sgnr timestamp height s =
     with_changes (execute_start_tournament sgnr tournament_id height s) []"
| "dispatch_action ext config (ReportTournamentResults tournament_id rankings) sgnr timestamp height s =
     with_changes (execute_report_tournament_results sgnr tournament_id rankings height s) []"
| "dispatch_action ext config (ClaimTournamentPrize tournament_id) sgnr timestamp height s =
     with_changes (execute_claim_tournament_prize sgnr tournament_id s) []"
| "dispatch_action ext config (CancelTournament tournament_id) sgnr timestamp height s =
     with_changes (execute_cancel_tournament sgnr tournament_id s) []"

subsection \<open>Transactions\<close>

definition address_of_bytes :: "u8 list \<Rightarrow> address" where
  "address_of_bytes bs = foldl (\<lambda>acc b. acc * 256 + ucast b) 0 bs"

definition parse_treasury_address :: "externals \<Rightarrow> string \<Rightarrow> address" where
  "parse_treasury_address ext hex =
     (let bytes = unwrap_or (ext_hex_decode ext hex) (replicate 32 0)
      in if length bytes \<noteq> 32 then ZERO else address_of_bytes bytes)"

definition deduct_fee :: "address \<Rightarrow> address \<Rightarrow> u64 \<Rightarrow> chain_state \<Rightarrow> StateChange list outcome" where
  "deduct_fee sgnr fee_payer actual_fee s =
     (case get_account s sgnr of
        None \<Rightarrow> (Err (AccountNotFound sgnr), s)
      | Some signer_account \<Rightarrow>
          if fee_payer = sgnr
          then
            if acct_balance signer_account < actual_fee
            then (Err (InsufficientBalance actual_fee (acct_balance signer_account)), s)
            else
              (case checked_sub (acct_balance signer_account) actual_fee of
                 None \<Rightarrow> (Err (InsufficientBalance actual_fee (acct_balance signer_account)), s)
               | Some b \<Rightarrow> (Ok [FeeDeducted sgnr actual_fee, NonceIncremented sgnr],
                            set_account (increment_nonce (signer_account\<lparr>acct_balance := b\<rparr>)) s))
          else
            (case get_account s fee_payer of
               None \<Rightarrow> (Err (AccountNotFound fee_payer), s)
             | Some sponsor_account \<Rightarrow>
                 if acct_balance sponsor_account < actual_fee
                 then (Err (InsufficientBalance actual_fee (acct_balance sponsor_account)), s)
                 else
                   (case checked_sub (acct_balance sponsor_account) actual_fee of
                      None \<Rightarrow> (Err (InsufficientBalance actual_fee (acct_balance sponsor_account)), s)
                    | Some b \<Rightarrow>
                        let s1 = set_account (sponsor_account\<lparr>acct_balance := b\<rparr>) s;
                            s2 = set_account (increment_nonce signer_account) s1
                        in (Ok [FeeDeducted fee_payer actual_fee, NonceIncremented sgnr], s2))))"

definition distribute_fee :: "externals \<Rightarrow> ChainConfig \<Rightarrow> u64 \<Rightarrow> address \<Rightarrow> chain_state \<Rightarrow> chain_state" where
  "distribute_fee ext config actual_fee block_proposer s =
     (if 0 < actual_fee
      then
        let fd = cfg_fee_distribution config;
            burn_amount = bps_share actual_fee (fd_burn_bps fd);
            treasury_amount = bps_share actual_fee (fd_treasury_bps fd);
            validator_amount = saturating_sub (saturating_sub actual_fee burn_amount) treasury_amount;
            s1 = (if 0 < treasury_amount
                  then let treasury_addr = parse_treasury_address ext (cfg_treasury_address config);
                           treasury_acct = unwrap_or (get_account s treasury_addr) (AccountState_new treasury_addr 0)
                       in set_account (treasury_acct
                            \<lparr>acct_balance := saturating_add (acct_balance treasury_acct) treasury_amount\<rparr>) s
                  else s);
            s2 = (if 0 < validator_amount
                  then let proposer_acct = unwrap_or (get_account s1 block_proposer) (AccountState_new block_proposer 0)
                       in set_account (proposer_acct
                            \<lparr>acct_balance := saturating_add (acct_balance proposer_acct) validator_amount\<rparr>) s1
                  else s1);
            supply0 = unwrap_or (get_supply_info s2) SupplyInfo_default;
            supply1 = supply0\<lparr>sup_total_fees_collected := saturating_add (sup_total_fees_collected supply0) actual_fee,
                        sup_total_burned := saturating_add (sup_total_burned supply0) burn_amount,
                        sup_total_supply := saturating_sub (sup_total_supply supply0) burn_amount,
                        sup_treasury_balance := saturating_add (sup_treasury_balance supply0) treasury_amount\<rparr>
        in set_supply_info (recompute_circulating supply1) s2
      else s)"

definition update_session_spending ::
  "address \<Rightarrow> address option \<Rightarrow> u64 \<Rightarrow> chain_state \<Rightarrow> StateChange list \<times> chain_state" where
  "update_session_spending sgnr session_opt actual_fee s =
     (case session_opt of
        None \<Rightarrow> ([], s)
      | Some session_addr \<Rightarrow>
          (case get_session s sgnr session_addr of
             None \<Rightarrow> ([], s)
           | Some g \<Rightarrow>
               let g1 = g\<lparr>ses_amount_spent := ses_amount_spent g + actual_fee\<rparr>
               in ([SessionSpendingUpdated sgnr session_addr (ses_amount_spent g1)], set_session g1 s)))"

definition execute_transaction ::
  "externals \<Rightarrow> ChainConfig \<Rightarrow> SignedTransaction \<Rightarrow> u64 \<Rightarrow> address \<Rightarrow> chain_state \<Rightarrow> ExecutionResult outcome" where
  "execute_transaction ext config tx height block_proposer s =
     (let t = stx_transaction tx;
          sgnr = signer tx;
          gas_used = total_gas ext t (cfg_base_gas config) (cfg_gas_per_byte config);
          actual_fee = fee gas_used (cfg_min_gas_price config);
          fee_payer = unwrap_or (tx_sponsor t) sgnr
      in
      if tx_max_fee t < actual_fee then (Err FeeTooLow, s)
      else
        (case deduct_fee sgnr fee_payer actual_fee s of
           (Err e, s1) \<Rightarrow> (Err e, s1)
         | (Panic, s1) \<Rightarrow> (Panic, s1)
         | (Ok changes, s1) \<Rightarrow>
             (case dispatch_action ext config (tx_action t) sgnr (tx_timestamp t) height
                     (distribute_fee ext config actual_fee block_proposer s1) of
                (Panic, s2) \<Rightarrow> (Panic, s2)
              | (Err e, s2) \<Rightarrow>
                  (Ok \<lparr>res_receipt = receipt_failure (stx_tx_hash tx) height actual_fee gas_used fee_payer e,
                       res_state_changes = changes\<rparr>, s2)
              | (Ok (events, action_changes), s2) \<Rightarrow>
                  let events1 = (if tx_sponsor t \<noteq> None
                                 then events @ [Event_gas_sponsored fee_payer sgnr actual_fee] else events);
                      (session_changes, s3) = update_session_spending sgnr (tx_session t) actual_fee s2
                  in (Ok \<lparr>res_receipt = receipt_success (stx_tx_hash tx) height actual_fee gas_used fee_payer events1,
                          res_state_changes = changes @ action_changes @ session_changes\<rparr>, s3))))"

definition execute_transaction_safe ::
  "externals \<Rightarrow> ChainConfig \<Rightarrow> SignedTransaction \<Rightarrow> u64 \<Rightarrow> address \<Rightarrow> chain_state \<Rightarrow> ExecutionResult outcome" where
  "execute_transaction_safe ext config tx height block_proposer s =
     (case execute_transaction ext config tx height block_proposer s of
        (Panic, s1) \<Rightarrow> (Err (Custom ''transaction execution panicked''), s1)
      | r \<Rightarrow> r)"

subsection \<open>Blocks\<close>

definition apply_block_reward :: "ChainConfig \<Rightarrow> address \<Rightarrow> chain_state \<Rightarrow> chain_state" where
  "apply_block_reward config block_proposer s =
     (let reward = cfg_block_reward config
      in if reward = 0 \<or> block_proposer = ZERO then s
         else
           let proposer_acct = unwrap_or (get_account s block_proposer) (AccountState_new block_proposer 0);
               s1 = set_account (proposer_acct
                      \<lparr>acct_balance := saturating_add (acct_balance proposer_acct) reward\<rparr>) s;
               s2 = (case get_supply_info s1 of
                       None \<Rightarrow> s1
                     | Some supply \<Rightarrow>
                         set_supply_info (recompute_circulating
                           (supply\<lparr>sup_total_supply := saturating_add (sup_total_supply supply) reward,
                                    sup_total_minted := saturating_add (sup_total_minted supply) reward\<rparr>)) s1)
           in case get_validator s2 block_proposer of
                None \<Rightarrow> s2
              | Some vi \<Rightarrow> set_validator (vi\<lparr>val_blocks_produced := saturating_add (val_blocks_produced vi) 1\<rparr>) s2)"

fun execute_transactions ::
  "externals \<Rightarrow> ChainConfig \<Rightarrow> u64 \<Rightarrow> address \<Rightarrow> u64 \<Rightarrow> SignedTransaction list \<Rightarrow> chain_state \<Rightarrow>
   TransactionReceipt list \<times> chain_state" where
  "execute_transactions ext config height block_proposer cumulative_gas [] s = ([], s)"
| "execute_transactions ext config height block_proposer cumulative_gas (tx # txs) s =
     (let t = stx_transaction tx;
          tx_gas = total_gas ext t (cfg_base_gas config) (cfg_gas_per_byte config);
          payer = unwrap_or (tx_sponsor t) (signer tx)
      in
      if cfg_max_block_gas config < saturating_add cumulative_gas tx_gas
      then
        let (rs, s') = execute_transactions ext config height block_proposer cumulative_gas txs s
        in (receipt_failure (stx_tx_hash tx) height 0 0 payer (Custom ''block gas limit exceeded'') # rs, s')
      else
        (case execute_transaction_safe ext config tx height block_proposer s of
           (Ok r, s1) \<Rightarrow>
             let (rs, s') = execute_transactions ext config height block_proposer
                              (saturating_add cumulative_gas (rcp_gas_used (res_receipt r))) txs s1
             in (res_receipt r # rs, s')
         | (Err e, s1) \<Rightarrow>
             let (rs, s') = execute_transactions ext config height block_proposer cumulative_gas txs s1
             in (receipt_failure (stx_tx_hash tx) height 0 0 payer e # rs, s')
         | (Panic, s1) \<Rightarrow> ([], s1)))"

definition execute_block ::
  "externals \<Rightarrow> ChainConfig \<Rightarrow> SignedTransaction list \<Rightarrow> u64 \<Rightarrow> address \<Rightarrow> chain_state \<Rightarrow>
   TransactionReceipt list \<times> chain_state" where
  "execute_block ext config transactions height block_proposer s =
     execute_transactions ext config height block_proposer 0 transactions (snd (process_mature_unbondings height s))"


subsection \<open>Well-formedness\<close>

lemma pay_royalty_wf: "wf_state s \<Longrightarrow> wf_state (snd (pay_royalty l r t s))"
  by (simp add: pay_royalty_def Let_def wf_intros split: option.splits)

lemma market_wf:
  assumes "wf_state s"
  shows "wf_state (snd (execute_create_listing sha sgnr cls amount price cur config t s))"
    "wf_state (snd (execute_cancel_listing sgnr i s))"
    "wf_state (snd (execute_buy_listing buyer i config t s))"
proof -
  show "wf_state (snd (execute_create_listing sha sgnr cls amount price cur config t s))"
    "wf_state (snd (execute_cancel_listing sgnr i s))"
    using assms by (auto simp: execute_create_listing_def execute_cancel_listing_def Let_def
        intro!: wf_intros split: option.splits)
  show "wf_state (snd (execute_buy_listing buyer i config t s))"
  proof (cases rule: buy_listing_cases [of buyer i config t s])
    case (paid l ba s1 s2 s3)
    have "wf_state s3" using paid assms by (auto intro!: wf_intros)
    then have "wf_state (snd (pay_royalty l (royalty_amount l) t s3))" by (rule pay_royalty_wf)
    then show ?thesis unfolding paid by (auto intro!: wf_intros split: prod.splits result.splits)
  qed (use assms in simp)
qed

lemma release_unbondings_wf: "wf_state s \<Longrightarrow> wf_state (snd (release_unbondings es s))"
  by (induction es s rule: release_unbondings.induct) (auto simp: Let_def wf_intros split: prod.splits)

lemma mature_unbondings_wf: "wf_state s \<Longrightarrow> wf_state (snd (process_mature_unbondings h s))"
  using release_unbondings_wf [of s "get_mature_unbondings s h"]
  by (cases "release_unbondings (get_mature_unbondings s h) s") (simp add: process_mature_unbondings_def)

lemmas handlers_wf = execute_transfer_wf asset_handlers_wf market_wf identity_wf register_validator_wf
  delegate_wf undelegate_wf attestation_wf governance_wf session_wf rental_wf guild_wf tournament_wf

lemma dispatch_wf: "wf_state s \<Longrightarrow> wf_state (snd (dispatch_action ext config action sgnr t h s))"
  by (cases action) (simp_all add: handlers_wf)

lemma deduct_fee_wf: "wf_state s \<Longrightarrow> wf_state (snd (deduct_fee sgnr payer f s))"
  by (auto simp: deduct_fee_def Let_def intro!: wf_intros split: option.splits)

lemma distribute_fee_wf: "wf_state s \<Longrightarrow> wf_state (distribute_fee ext config f proposer s)"
  by (auto simp: distribute_fee_def Let_def intro!: wf_intros)

lemma session_spending_wf: "wf_state s \<Longrightarrow> wf_state (snd (update_session_spending sgnr se f s))"
  by (auto simp: update_session_spending_def Let_def intro!: wf_intros split: option.splits)

subsection \<open>Case analyses\<close>

lemma deduct_fee_cases:
  obtains (refused) e where "deduct_fee sgnr payer f s = (Err e, s)"
    | (own) acct where "payer = sgnr" "get_account s sgnr = Some acct" "f \<le> acct_balance acct"
      "deduct_fee sgnr payer f s =
         (Ok [FeeDeducted payer f, NonceIncremented sgnr],
          set_account (increment_nonce (acct\<lparr>acct_balance := acct_balance acct - f\<rparr>)) s)"
    | (sponsored) acct sp where "payer \<noteq> sgnr" "get_account s sgnr = Some acct" "get_account s payer = Some sp"
      "f \<le> acct_balance sp"
      "deduct_fee sgnr payer f s =
         (Ok [FeeDeducted payer f, NonceIncremented sgnr],
          set_account (increment_nonce acct) (set_account (sp\<lparr>acct_balance := acct_balance sp - f\<rparr>) s))"
proof (cases "\<exists>e. deduct_fee sgnr payer f s = (Err e, s)")
  case False
  then obtain acct where a: "get_account s sgnr = Some acct"
    by (auto simp: deduct_fee_def split: option.splits)
  show thesis
  proof (cases "payer = sgnr")
    case True
    with False a have "f \<le> acct_balance acct"
      by (auto simp: deduct_fee_def not_less split: if_splits)
    with True a show thesis by (intro own [of acct]) (simp_all add: deduct_fee_def leD)
  next
    case other: False
    with False a obtain sp where "get_account s payer = Some sp" "f \<le> acct_balance sp"
      by (auto simp: deduct_fee_def not_less split: option.splits if_splits)
    with other a show thesis by (intro sponsored [of acct sp]) (simp_all add: deduct_fee_def leD Let_def)
  qed
qed (use refused in blast)

abbreviation tx_gas :: "externals \<Rightarrow> ChainConfig \<Rightarrow> SignedTransaction \<Rightarrow> u64" where
  "tx_gas ext config tx \<equiv> total_gas ext (stx_transaction tx) (cfg_base_gas config) (cfg_gas_per_byte config)"

abbreviation tx_fee :: "externals \<Rightarrow> ChainConfig \<Rightarrow> SignedTransaction \<Rightarrow> u64" where
  "tx_fee ext config tx \<equiv> fee (tx_gas ext config tx) (cfg_min_gas_price config)"

abbreviation tx_payer :: "SignedTransaction \<Rightarrow> address" where
  "tx_payer tx \<equiv> unwrap_or (tx_sponsor (stx_transaction tx)) (signer tx)"

text \<open>The state a transaction's action starts from: the fee has been collected and distributed.\<close>

definition charged_state ::
  "externals \<Rightarrow> ChainConfig \<Rightarrow> SignedTransaction \<Rightarrow> address \<Rightarrow> chain_state \<Rightarrow> chain_state" where
  "charged_state ext config tx proposer s =
     distribute_fee ext config (tx_fee ext config tx) proposer
       (snd (deduct_fee (signer tx) (tx_payer tx) (tx_fee ext config tx) s))"

definition run_action ::
  "externals \<Rightarrow> ChainConfig \<Rightarrow> SignedTransaction \<Rightarrow> u64 \<Rightarrow> chain_state \<Rightarrow> (Event list \<times> StateChange list) outcome" where
  "run_action ext config tx h s =
     dispatch_action ext config (tx_action (stx_transaction tx)) (signer tx) (tx_timestamp (stx_transaction tx)) h s"

lemma execute_transaction_cases:
  obtains (refused) e where "execute_transaction ext config tx h proposer s = (Err e, s)"
    | (crashed) cs s1 s2 where "deduct_fee (signer tx) (tx_payer tx) (tx_fee ext config tx) s = (Ok cs, s1)"
      "run_action ext config tx h (charged_state ext config tx proposer s) = (Panic, s2)"
      "execute_transaction ext config tx h proposer s = (Panic, s2)"
    | (failed) cs s1 s2 e where "deduct_fee (signer tx) (tx_payer tx) (tx_fee ext config tx) s = (Ok cs, s1)"
      "run_action ext config tx h (charged_state ext config tx proposer s) = (Err e, s2)"
      "execute_transaction ext config tx h proposer s =
         (Ok \<lparr>res_receipt = receipt_failure (stx_tx_hash tx) h (tx_fee ext config tx) (tx_gas ext config tx) (tx_payer tx) e,
              res_state_changes = cs\<rparr>, s2)"
    | (succeeded) cs s1 s2 events changes events' changes' where
      "deduct_fee (signer tx) (tx_payer tx) (tx_fee ext config tx) s = (Ok cs, s1)"
      "run_action ext config tx h (charged_state ext config tx proposer s) = (Ok (events, changes), s2)"
      "execute_transaction ext config tx h proposer s =
         (Ok \<lparr>res_receipt = receipt_success (stx_tx_hash tx) h (tx_fee ext config tx) (tx_gas ext config tx) (tx_payer tx) events',
              res_state_changes = changes'\<rparr>,
          snd (update_session_spending (signer tx) (tx_session (stx_transaction tx)) (tx_fee ext config tx) s2))"
proof (cases "\<exists>e. execute_transaction ext config tx h proposer s = (Err e, s)")
  case False
  then have cov: "\<not> tx_max_fee (stx_transaction tx) < tx_fee ext config tx"
    by (auto simp: execute_transaction_def Let_def)
  have "\<exists>cs s1. deduct_fee (signer tx) (tx_payer tx) (tx_fee ext config tx) s = (Ok cs, s1)"
    using False cov
    by (cases rule: deduct_fee_cases [of "signer tx" "tx_payer tx" "tx_fee ext config tx" s])
       (auto simp: execute_transaction_def Let_def)
  then obtain cs s1 where d: "deduct_fee (signer tx) (tx_payer tx) (tx_fee ext config tx) s = (Ok cs, s1)" by blast
  obtain r s2 where run: "run_action ext config tx h (charged_state ext config tx proposer s) = (r, s2)"
    by (cases "run_action ext config tx h (charged_state ext config tx proposer s)")
  note eqs = run [unfolded run_action_def charged_state_def d snd_conv]
  show thesis
  proof (cases r)
    case (Ok p)
    obtain events changes where p: "p = (events, changes)" by (cases p)
    obtain ses s3 where u: "update_session_spending (signer tx) (tx_session (stx_transaction tx)) (tx_fee ext config tx) s2 = (ses, s3)"
      by (cases "update_session_spending (signer tx) (tx_session (stx_transaction tx)) (tx_fee ext config tx) s2")
    show thesis
      by (rule succeeded [OF d run [unfolded Ok p]])
         (use cov d eqs [unfolded Ok p] u in \<open>simp add: execute_transaction_def Let_def\<close>)
  next
    case (Err e)
    show thesis
      by (rule failed [OF d run [unfolded Err]])
         (use cov d eqs [unfolded Err] in \<open>simp add: execute_transaction_def Let_def\<close>)
  next
    case Panic
    show thesis
      by (rule crashed [OF d run [unfolded Panic]])
         (use cov d eqs [unfolded Panic] in \<open>simp add: execute_transaction_def Let_def\<close>)
  qed
qed (use refused in blast)

lemma charged_state_wf: "wf_state s \<Longrightarrow> wf_state (charged_state ext config tx proposer s)"
  by (simp add: charged_state_def distribute_fee_wf deduct_fee_wf)

lemma run_action_wf: "wf_state s \<Longrightarrow> wf_state (snd (run_action ext config tx h s))"
  by (simp add: run_action_def dispatch_wf)

lemma execute_transaction_wf:
  assumes "wf_state s"
  shows "wf_state (snd (execute_transaction ext config tx h proposer s))"
  using run_action_wf [OF charged_state_wf [OF assms], of ext config tx h ext config tx proposer] assms
  by (cases rule: execute_transaction_cases [of ext config tx h proposer s]) (simp_all add: session_spending_wf)

lemma execute_safe_cases:
  obtains (failed) e where "execute_transaction_safe ext config tx h proposer s =
      (Err e, snd (execute_transaction ext config tx h proposer s))"
    | (passed) r s1 where "execute_transaction ext config tx h proposer s = (Ok r, s1)"
      "execute_transaction_safe ext config tx h proposer s = (Ok r, s1)"
  by (cases "execute_transaction ext config tx h proposer s"; cases "fst (execute_transaction ext config tx h proposer s)")
     (auto simp: execute_transaction_safe_def)

lemma execute_transactions_cases:
  fixes g :: u64
  obtains (skipped) "cfg_max_block_gas config < saturating_add g (tx_gas ext config tx)"
      "execute_transactions ext config h proposer g (tx # txs) s =
         (let r = execute_transactions ext config h proposer g txs s in
          (receipt_failure (stx_tx_hash tx) h 0 0 (tx_payer tx) (Custom ''block gas limit exceeded'') # fst r, snd r))"
    | (rejected) e s1 where "s1 = snd (execute_transaction ext config tx h proposer s)"
      "execute_transactions ext config h proposer g (tx # txs) s =
         (let r = execute_transactions ext config h proposer g txs s1 in
          (receipt_failure (stx_tx_hash tx) h 0 0 (tx_payer tx) e # fst r, snd r))"
    | (included) q s1 where "saturating_add g (tx_gas ext config tx) \<le> cfg_max_block_gas config"
      "execute_transaction ext config tx h proposer s = (Ok q, s1)"
      "execute_transactions ext config h proposer g (tx # txs) s =
         (let r = execute_transactions ext config h proposer (saturating_add g (rcp_gas_used (res_receipt q))) txs s1 in
          (res_receipt q # fst r, snd r))"
proof (cases "cfg_max_block_gas config < saturating_add g (tx_gas ext config tx)")
  case True
  then show thesis by (intro skipped) (simp_all add: Let_def split_beta)
next
  case gas: False
  show thesis
  proof (cases rule: execute_safe_cases [of ext config tx h proposer s])
    case (failed e)
    with gas show thesis by (intro rejected [of _ e]) (simp_all add: Let_def split_beta)
  next
    case (passed q s1)
    show thesis
      by (rule included [OF _ passed(1)]) (use gas passed in \<open>simp_all add: Let_def split_beta\<close>)
  qed
qed

lemma execute_transactions_wf:
  "wf_state s \<Longrightarrow> wf_state (snd (execute_transactions ext config h proposer g txs s))"
proof (induction txs arbitrary: g s)
  case (Cons tx txs)
  have next_wf: "wf_state (snd (execute_transaction ext config tx h proposer s))"
    using Cons.prems by (rule execute_transaction_wf)
  show ?case
  proof (cases rule: execute_transactions_cases [of config g ext tx h proposer txs s])
    case skipped
    then show ?thesis using Cons.IH [OF Cons.prems] by (simp add: Let_def)
  next
    case (rejected e s1)
    then show ?thesis using Cons.IH [OF next_wf] by (simp add: Let_def)
  next
    case (included q s1)
    then show ?thesis using Cons.IH [OF next_wf] by (simp add: Let_def)
  qed
qed simp

lemma execute_block_wf: "wf_state s \<Longrightarrow> wf_state (snd (execute_block ext config txs h proposer s))"
  by (simp add: execute_block_def execute_transactions_wf mature_unbondings_wf)

lemma apply_block_reward_wf: "wf_state s \<Longrightarrow> wf_state (apply_block_reward config proposer s)"
  by (auto simp: apply_block_reward_def Let_def intro!: wf_intros split: option.splits)

end
