(* ===== verification/Polay_Effects.thy ===== *)
theory Polay_Effects
  imports Polay_Executor
begin

section \<open>What an action can write\<close>

text \<open>
  Every module handler is a sequence of writes to the namespaces of the modules, in which an account
  is only ever rewritten with the nonce it had. The step relation \<open>module_writes\<close> says this; each
  handler is shown to follow it, and one induction then gives the frame of all forty actions.
\<close>

definition nonce_of :: "chain_state \<Rightarrow> address \<Rightarrow> u64" where
  "nonce_of s a = (case get_account s a of None \<Rightarrow> 0 | Some acct \<Rightarrow> acct_nonce acct)"

inductive module_writes :: "chain_state \<Rightarrow> chain_state \<Rightarrow> bool" for s where
  stop: "module_writes s s"
| account: "module_writes s s' \<Longrightarrow> acct_nonce acct = nonce_of s' (acct_address acct) \<Longrightarrow> module_writes s (set_account acct s')"
| asset_class: "module_writes s s' \<Longrightarrow> module_writes s (set_asset_class c s')"
| asset_balance: "module_writes s s' \<Longrightarrow> module_writes s (set_asset_balance i a b s')"
| validator: "module_writes s s' \<Longrightarrow> module_writes s (set_validator v s')"
| delegation: "module_writes s s' \<Longrightarrow> module_writes s (set_delegation d s')"
| unbond: "module_writes s s' \<Longrightarrow> module_writes s (set_unbonding_entry e ix s')"
| release: "module_writes s s' \<Longrightarrow> module_writes s (delete_unbonding_entry a h ix s')"
| listing: "module_writes s s' \<Longrightarrow> module_writes s (set_listing l s')"
| profile: "module_writes s s' \<Longrightarrow> module_writes s (set_profile pr s')"
| achievement: "module_writes s s' \<Longrightarrow> module_writes s (set_achievement ac s')"
| attestor: "module_writes s s' \<Longrightarrow> module_writes s (set_attestor at s')"
| match_result: "module_writes s s' \<Longrightarrow> module_writes s (set_match_result mr s')"
| settlement: "module_writes s s' \<Longrightarrow> module_writes s (set_match_settlement ms s')"
| proposal: "module_writes s s' \<Longrightarrow> module_writes s (set_proposal p s')"
| vote: "module_writes s s' \<Longrightarrow> module_writes s (set_vote vo s')"
| proposal_list: "module_writes s s' \<Longrightarrow> module_writes s (set_proposal_list pl s')"
| rental: "module_writes s s' \<Longrightarrow> module_writes s (set_rental r s')"
| guild: "module_writes s s' \<Longrightarrow> module_writes s (set_guild g s')"
| disband: "module_writes s s' \<Longrightarrow> module_writes s (delete_guild i s')"
| member: "module_writes s s' \<Longrightarrow> module_writes s (set_guild_membership gm s')"
| leave: "module_writes s s' \<Longrightarrow> module_writes s (delete_guild_membership i a s')"
| tournament: "module_writes s s' \<Longrightarrow> module_writes s (set_tournament t s')"
| participant: "module_writes s s' \<Longrightarrow> module_writes s (set_tournament_participant i a s')"
| session: "module_writes s s' \<Longrightarrow> module_writes s (set_session se s')"

lemma nonce_of_writes [simp]:
  "nonce_of (set_account acct s) a = (if a = acct_address acct then acct_nonce acct else nonce_of s a)"
  "nonce_of (set_asset_class c s) a = nonce_of s a"
  "nonce_of (set_asset_balance i b u s) a = nonce_of s a"
  "nonce_of (set_validator v s) a = nonce_of s a"
  "nonce_of (set_delegation d s) a = nonce_of s a"
  "nonce_of (set_unbonding_entry e ix s) a = nonce_of s a"
  "nonce_of (delete_unbonding_entry b h ix s) a = nonce_of s a"
  "nonce_of (set_listing l s) a = nonce_of s a"
  "nonce_of (set_profile pr s) a = nonce_of s a"
  "nonce_of (set_achievement ac s) a = nonce_of s a"
  "nonce_of (set_attestor at s) a = nonce_of s a"
  "nonce_of (set_match_result mr s) a = nonce_of s a"
  "nonce_of (set_match_settlement ms s) a = nonce_of s a"
  "nonce_of (set_proposal p s) a = nonce_of s a"
  "nonce_of (set_vote vo s) a = nonce_of s a"
  "nonce_of (set_proposal_list pl s) a = nonce_of s a"
  "nonce_of (set_rental r s) a = nonce_of s a"
  "nonce_of (set_guild g s) a = nonce_of s a"
  "nonce_of (delete_guild i s) a = nonce_of s a"
  "nonce_of (set_guild_membership gm s) a = nonce_of s a"
  "nonce_of (delete_guild_membership i b s) a = nonce_of s a"
  "nonce_of (set_tournament t s) a = nonce_of s a"
  "nonce_of (set_tournament_participant i b s) a = nonce_of s a"
  "nonce_of (set_session se s) a = nonce_of s a"
  "nonce_of (set_supply_info su s) a = nonce_of s a"
  by (simp_all add: nonce_of_def state_defs)

text \<open>The state outside the reach of the modules.\<close>

definition chain_records ::
  "chain_state \<Rightarrow> SupplyInfo option \<times> u64 option \<times> hash option \<times> (u64, Block) fmap \<times>
     (hash, TransactionReceipt) fmap \<times> (u64, EpochInfo) fmap \<times> address list option" where
  "chain_records s = (st_supply_info s, st_chain_height s, st_latest_hash s, st_blocks s, st_receipts s,
     st_epochs s, st_active_validator_set s)"

lemma module_writes_frame:
  "module_writes s s' \<Longrightarrow> nonce_of s' a = nonce_of s a \<and> chain_records s' = chain_records s"
  by (induction rule: module_writes.induct) (simp_all add: chain_records_def, auto simp: state_defs)

lemma module_writes_trans: "module_writes s1 s2 \<Longrightarrow> module_writes s s1 \<Longrightarrow> module_writes s s2"
  by (induction rule: module_writes.induct) (auto intro: module_writes.intros)


lemma nonce_known:
  assumes "wf_state s"
  shows "get_account s a = Some acct \<Longrightarrow> nonce_of s (acct_address acct) = acct_nonce acct"
    and "acct_nonce (unwrap_or (get_account s a) (AccountState_new a t)) = nonce_of s a"
    and "acct_nonce (unwrap_or (get_account s a) (AccountState_with_balance a 0 t)) = nonce_of s a"
  using wf_keys(1) [OF assms]
  by (auto simp: nonce_of_def AccountState_new_def AccountState_with_balance_def unwrap_or_def split: option.splits)

text \<open>The two idioms of the handlers: rewriting a known account, and opening a missing one.\<close>

lemma account_known:
  assumes "wf_state s'" and "module_writes s s'" and "get_account s' a = Some acct"
    and "acct_nonce acct' = acct_nonce acct" and "acct_address acct' = acct_address acct"
  shows "module_writes s (set_account acct' s')"
  using assms nonce_known(1) [OF assms(1,3)] by (intro module_writes.account) simp_all

lemma account_opened:
  assumes "wf_state s'" and "module_writes s s'"
  shows "module_writes s (set_account ((unwrap_or (get_account s' a) (AccountState_new a t))\<lparr>acct_balance := b\<rparr>) s')"
    and "module_writes s (set_account ((unwrap_or (get_account s' a) (AccountState_with_balance a 0 t))\<lparr>acct_balance := b\<rparr>) s')"
  using assms nonce_known(2,3) [OF assms(1)] by (auto intro!: module_writes.account)

lemmas write_intros = module_writes.stop module_writes.asset_class module_writes.asset_balance module_writes.validator
  module_writes.delegation module_writes.unbond module_writes.release module_writes.listing module_writes.profile
  module_writes.achievement module_writes.attestor module_writes.match_result module_writes.settlement
  module_writes.proposal module_writes.vote module_writes.proposal_list module_writes.rental module_writes.guild
  module_writes.disband module_writes.member module_writes.leave module_writes.tournament
  module_writes.participant module_writes.session account_opened

lemma transfer_writes:
  assumes wf: "wf_state s"
  shows "module_writes s (snd (execute_transfer sgnr to amount t s))"
  using wf by (cases rule: execute_transfer_cases [of s sgnr to amount t])
     (auto intro!: write_intros account_known [OF wf write_intros(1)] wf_intros)

lemma asset_writes:
  "module_writes s (snd (execute_create_asset_class sha sgnr name symbol ty cap uri t s))"
  "module_writes s (snd (execute_mint_asset sgnr cls to amount md s))"
  "module_writes s (snd (execute_transfer_asset sgnr cls to amount s))"
  "module_writes s (snd (execute_burn_asset sgnr cls amount s))"
  by (auto simp: execute_create_asset_class_def execute_mint_asset_def execute_transfer_asset_def
      execute_burn_asset_def Let_def intro!: write_intros split: option.splits)

lemma identity_writes:
  "module_writes s (snd (execute_create_profile sgnr u d m t s))"
  "module_writes s (snd (execute_add_achievement sgnr player i n m' t s))"
  "module_writes s (snd (execute_update_reputation hx sgnr player delta r t s))"
  by (simp_all add: execute_create_profile_def execute_add_achievement_def execute_update_reputation_def
      Let_def write_intros)

lemma session_writes:
  "module_writes s (snd (execute_create_session sha sgnr pk perm ex lim h s))"
  "module_writes s (snd (execute_revoke_session sgnr a s))"
  by (auto simp: execute_create_session_def execute_revoke_session_def Let_def intro!: write_intros split: option.splits)


lemma market_writes:
  assumes wf: "wf_state s"
  shows "module_writes s (snd (execute_create_listing sha sgnr cls amount price cur config t s))"
    "module_writes s (snd (execute_cancel_listing sgnr i s))"
    "module_writes s (snd (execute_buy_listing buyer i config t s))"
proof -
  show "module_writes s (snd (execute_create_listing sha sgnr cls amount price cur config t s))"
    "module_writes s (snd (execute_cancel_listing sgnr i s))"
    by (auto simp: execute_create_listing_def execute_cancel_listing_def Let_def
        intro!: write_intros split: option.splits)
  show "module_writes s (snd (execute_buy_listing buyer i config t s))"
  proof (cases rule: buy_listing_cases [of buyer i config t s])
    case (paid l ba s1 s2 s3)
    have "module_writes s s1" "wf_state s1"
      using paid wf by (auto intro: account_known [OF wf write_intros(1)] wf_intros)
    then have s3: "module_writes s s3" "wf_state s3"
      using paid by (auto intro!: write_intros wf_intros)
    then have "module_writes s (snd (pay_royalty l (royalty_amount l) t s3))"
      by (simp add: pay_royalty_def Let_def write_intros split: option.splits)
    then show ?thesis unfolding paid by (auto intro!: write_intros split: prod.splits result.splits)
  qed (simp add: write_intros)
qed

lemma attestation_writes:
  assumes wf: "wf_state s"
  shows "module_writes s (snd (execute_register_attestor sgnr g e m t s))"
    "module_writes s (snd (execute_submit_match_result sgnr mr config t s))"
    "module_writes s (snd (execute_distribute_reward sgnr i rewards t s))"
proof -
  have "module_writes s (credit_rewards rs t s')" if "module_writes s s'" "wf_state s'" for rs s'
    using that by (induction rs t s' rule: credit_rewards.induct) (simp_all add: Let_def write_intros wf_intros)
  note rewards = this [OF write_intros(1) wf]
  show "module_writes s (snd (execute_register_attestor sgnr g e m t s))"
    "module_writes s (snd (execute_submit_match_result sgnr mr config t s))"
    "module_writes s (snd (execute_distribute_reward sgnr i rewards t s))"
    by (auto simp: execute_register_attestor_def execute_submit_match_result_def execute_distribute_reward_def
        Let_def rewards intro!: write_intros split: option.splits)
qed

lemma governance_writes:
  assumes wf: "wf_state s"
  shows "module_writes s (snd (execute_submit_proposal sha sgnr action ttl desc dep config h s))"
    "module_writes s (snd (execute_vote_proposal sgnr i opt h s))"
    "module_writes s (snd (execute_execute_proposal sgnr i config h s))"
proof -
  have action: "module_writes s (snd (execute_proposal_action a s))" for a
    using wf by (cases a) (auto simp: Let_def credit_def intro!: write_intros split: option.splits)
  show "module_writes s (snd (execute_submit_proposal sha sgnr action ttl desc dep config h s))"
    using wf
    by (cases rule: submit_cases [of sha sgnr action ttl desc dep config h s])
       (auto intro!: write_intros account_known [OF wf write_intros(1)])
  show "module_writes s (snd (execute_vote_proposal sgnr i opt h s))"
    by (auto simp: execute_vote_proposal_def Let_def intro!: write_intros split: option.splits)
  show "module_writes s (snd (execute_execute_proposal sgnr i config h s))"
  proof (cases rule: settle_cases [of sgnr i config h s])
    case (executed p s1)
    then have "module_writes s s1" "wf_state s1"
      using action [of "prp_action p"] action_wf [OF wf, of "prp_action p"] by simp_all
    then show ?thesis using executed by (simp add: write_intros)
  qed (use wf in \<open>auto simp: write_intros\<close>)
qed


lemma staking_writes:
  assumes wf: "wf_state s"
  shows "module_writes s (snd (execute_register_validator sgnr c config s))"
    "module_writes s (snd (execute_delegate_stake sgnr v amount config h s))"
    "module_writes s (snd (execute_undelegate_stake sgnr v amount h config s))"
    "module_writes s (snd (process_mature_unbondings h s))"
proof -
  show "module_writes s (snd (execute_register_validator sgnr c config s))"
    by (simp add: execute_register_validator_def write_intros)
  show "module_writes s (snd (execute_delegate_stake sgnr v amount config h s))"
    using wf
    by (auto simp: execute_delegate_stake_def Let_def
        intro!: write_intros account_known [OF wf write_intros(1)] split: option.splits)
  show "module_writes s (snd (execute_undelegate_stake sgnr v amount h config s))"
    by (cases rule: undelegate_stake_cases [of sgnr v amount h config s]) (simp_all add: write_intros)
  have "module_writes s (snd (release_unbondings es s'))" if "module_writes s s'" "wf_state s'" for es s'
    using that
    by (induction es s' rule: release_unbondings.induct)
       (auto simp: Let_def write_intros wf_intros split: prod.splits)
  note rel = this [OF write_intros(1) wf]
  then show "module_writes s (snd (process_mature_unbondings h s))"
    using rel [of "get_mature_unbondings s h"]
    by (cases "release_unbondings (get_mature_unbondings s h) s") (simp add: process_mature_unbondings_def)
qed

lemma rental_writes_all:
  assumes wf: "wf_state s"
  shows "module_writes s (snd (execute_list_for_rent sha sgnr cls ast price dep mn mx t s))"
    "module_writes s (snd (execute_rent_asset sgnr i duration height s))"
    "module_writes s (snd (execute_return_rental sgnr i height s))"
    "module_writes s (snd (execute_claim_expired_rental sgnr i height s))"
    "module_writes s (snd (execute_cancel_rental_listing sgnr i s))"
proof -
  show "module_writes s (snd (execute_list_for_rent sha sgnr cls ast price dep mn mx t s))"
    "module_writes s (snd (execute_cancel_rental_listing sgnr i s))"
    by (auto simp: execute_list_for_rent_def execute_cancel_rental_listing_def Let_def
        intro!: write_intros split: option.splits)
  show "module_writes s (snd (execute_rent_asset sgnr i duration height s))"
    using wf
    by (cases rule: rent_asset_cases [of sgnr i duration height s])
       (auto intro!: write_intros wf_intros account_known [OF wf write_intros(1)])
  show "module_writes s (snd (execute_return_rental sgnr i height s))"
    using wf
    by (cases rule: return_rental_cases [of sgnr i height s]) (auto simp: Let_def intro!: write_intros wf_intros)
  show "module_writes s (snd (execute_claim_expired_rental sgnr i height s))"
    using wf by (auto simp: execute_claim_expired_rental_def Let_def intro!: write_intros split: option.splits)
qed

lemma guild_writes_all:
  assumes wf: "wf_state s"
  shows "module_writes s (snd (execute_create_guild sha sgnr n d mx t s))"
    "module_writes s (snd (execute_join_guild sgnr i h s))"
    "module_writes s (snd (execute_leave_guild sgnr i s))"
    "module_writes s (snd (execute_guild_deposit sgnr i amount s))"
    "module_writes s (snd (execute_guild_withdraw sgnr i amount s))"
    "module_writes s (snd (execute_guild_promote sgnr i mem role s))"
    "module_writes s (snd (execute_guild_kick sgnr i mem s))"
proof -
  show "module_writes s (snd (execute_create_guild sha sgnr n d mx t s))"
    "module_writes s (snd (execute_join_guild sgnr i h s))"
    "module_writes s (snd (execute_leave_guild sgnr i s))"
    "module_writes s (snd (execute_guild_promote sgnr i mem role s))"
    "module_writes s (snd (execute_guild_kick sgnr i mem s))"
    by (auto simp: execute_create_guild_def execute_join_guild_def execute_leave_guild_def
        execute_guild_promote_def execute_guild_kick_def Let_def intro!: write_intros split: option.splits)
  show "module_writes s (snd (execute_guild_deposit sgnr i amount s))"
    by (cases rule: guild_money_cases [of sgnr i amount s])
       (auto intro!: write_intros account_known [OF wf write_intros(1)])
  show "module_writes s (snd (execute_guild_withdraw sgnr i amount s))"
  proof (cases rule: guild_withdraw_cases [of sgnr i amount s])
    case (withdrawn G m acct)
    then show ?thesis
      using wf by (auto intro!: account_known [of _ _ sgnr acct] write_intros wf_intros)
  qed (simp add: write_intros)
qed

lemma tournament_writes_all:
  assumes wf: "wf_state s"
  shows "module_writes s (snd (execute_create_tournament sha sgnr n g fe mx mn h ds t s))"
    "module_writes s (snd (execute_join_tournament sgnr i s))"
    "module_writes s (snd (execute_start_tournament sgnr i height s))"
    "module_writes s (snd (execute_report_tournament_results sgnr i rs height s))"
    "module_writes s (snd (execute_claim_tournament_prize sgnr i s))"
    "module_writes s (snd (execute_cancel_tournament sgnr i s))"
proof -
  show "module_writes s (snd (execute_create_tournament sha sgnr n g fe mx mn h ds t s))"
    "module_writes s (snd (execute_start_tournament sgnr i height s))"
    "module_writes s (snd (execute_report_tournament_results sgnr i rs height s))"
    by (auto simp: execute_create_tournament_def execute_start_tournament_def execute_report_tournament_results_def
        Let_def intro!: write_intros split: option.splits list.splits)
  show "module_writes s (snd (execute_join_tournament sgnr i s))"
    by (cases rule: join_tournament_cases [of sgnr i s])
       (auto intro!: write_intros account_known [OF wf write_intros(1)])
  show "module_writes s (snd (execute_claim_tournament_prize sgnr i s))"
    using wf by (cases rule: claim_prize_cases [of sgnr i s]) (auto intro!: write_intros)
  have "module_writes s (refund_entries f ps s')" if "module_writes s s'" "wf_state s'" for f ps s'
    using that by (induction ps arbitrary: s') (simp_all add: Let_def write_intros wf_intros)
  then show "module_writes s (snd (execute_cancel_tournament sgnr i s))"
    using wf by (auto simp: execute_cancel_tournament_def Let_def intro!: write_intros split: option.splits)
qed

lemma dispatch_writes:
  assumes "wf_state s"
  shows "module_writes s (snd (dispatch_action ext config action sgnr t h s))"
  using assms
  by (cases action) (simp_all add: transfer_writes asset_writes market_writes identity_writes staking_writes
      attestation_writes governance_writes session_writes rental_writes_all guild_writes_all tournament_writes_all)


subsection \<open>Nonces\<close>

lemma deduct_fee_nonce:
  assumes wf: "wf_state s" and "deduct_fee sgnr payer f s = (Ok cs, s1)"
  shows "nonce_of s1 a = nonce_of s a + (if a = sgnr then 1 else 0)"
  using assms(2)
proof (cases rule: deduct_fee_cases [of sgnr payer f s])
  case (own acct)
  then show ?thesis
    using assms(2) wf_keys(1) [OF wf own(2)] nonce_known(1) [OF wf own(2)] by (auto simp: increment_nonce_def)
next
  case (sponsored acct sp)
  then show ?thesis
    using assms(2) wf_keys(1) [OF wf sponsored(2)] wf_keys(1) [OF wf sponsored(3)]
      nonce_known(1) [OF wf sponsored(2)] nonce_known(1) [OF wf sponsored(3)]
    by (auto simp: increment_nonce_def)
qed simp

text \<open>Distributing a fee is a sequence of such writes too, followed by one to the supply record.\<close>

lemma distribute_fee_writes:
  assumes wf: "wf_state s" and "0 < f"
  shows "\<exists>s2 si. distribute_fee ext config f proposer s = set_supply_info si s2 \<and> module_writes s s2"
  unfolding distribute_fee_def Let_def if_P [OF assms(2)]
  by (intro exI, rule conjI, rule refl) (use wf in \<open>auto intro!: write_intros wf_intros\<close>)

lemma distribute_fee_nonce:
  assumes wf: "wf_state s"
  shows "nonce_of (distribute_fee ext config f proposer s) a = nonce_of s a"
proof (cases "0 < f")
  case True
  then show ?thesis
    using distribute_fee_writes [OF wf True, of ext config proposer] module_writes_frame by fastforce
qed (simp add: distribute_fee_def)

lemma session_spending_writes: "module_writes s (snd (update_session_spending sgnr se f s))"
  by (simp add: update_session_spending_def Let_def write_intros split: option.splits)

lemma charged_state_nonce:
  assumes wf: "wf_state s" and "deduct_fee (signer tx) (tx_payer tx) (tx_fee ext config tx) s = (Ok cs, s1)"
  shows "nonce_of (charged_state ext config tx proposer s) a = nonce_of s a + (if a = signer tx then 1 else 0)"
  using deduct_fee_nonce [OF assms] deduct_fee_wf [OF wf, of "signer tx" "tx_payer tx" "tx_fee ext config tx"] assms(2)
  by (simp add: charged_state_def distribute_fee_nonce)

lemma run_action_nonce:
  assumes "wf_state s"
  shows "nonce_of (snd (run_action ext config tx h s)) a = nonce_of s a"
  using module_writes_frame [OF dispatch_writes [OF assms]] by (simp add: run_action_def)

end
