(* ===== verification/Polay_Accounting.thy ===== *)
theory Polay_Accounting
  imports Polay_Effects
begin

section \<open>Fees, supply and gas of transactions and blocks\<close>

text \<open>
  The ledger across whole transactions: what a fee does to it, that the actions conserve it under the
  conditions their modules need, and that the recorded total supply follows it. Then the gas limit of
  a block, and what the executor does not check.
\<close>

subsection \<open>Fees\<close>

lemma deduct_fee_total:
  assumes wf: "wf_state s" and "deduct_fee sgnr payer f s = (Ok cs, s1)"
  shows "ledger_total s1 + unat f = ledger_total s"
  using assms(2)
proof (cases rule: deduct_fee_cases [of sgnr payer f s])
  case (own acct)
  then show ?thesis
    using assms(2) accounts.total_write [of "increment_nonce (acct\<lparr>acct_balance := acct_balance acct - f\<rparr>)" s]
      wf_keys(1) [OF wf own(2)]
    by (simp add: increment_nonce_def balance_of_def unat_sub word_le_nat_alt)
next
  case (sponsored acct sp)
  let ?s = "set_account (sp\<lparr>acct_balance := acct_balance sp - f\<rparr>) s"
  have "ledger_total ?s + unat f = ledger_total s"
    by (rule debit_total [OF sponsored(3) wf_keys(1) [OF wf sponsored(3)] sponsored(4)])
  moreover have "ledger_total (set_account (increment_nonce acct) ?s) = ledger_total ?s"
    using sponsored(1,2) wf_keys(1) [OF wf sponsored(2)] wf_keys(1) [OF wf sponsored(3)]
    by (intro accounts.total_rewrite) (simp add: increment_nonce_def accounts.look_write balance_of_def)
  ultimately show ?thesis using assms(2) sponsored(5) by simp
qed simp

definition fee_burn :: "ChainConfig \<Rightarrow> u64 \<Rightarrow> u64" where
  "fee_burn config f = bps_share f (fd_burn_bps (cfg_fee_distribution config))"

definition fee_split_ok :: "ChainConfig \<Rightarrow> bool" where
  "fee_split_ok config \<longleftrightarrow>
     unat (fd_burn_bps (cfg_fee_distribution config)) + unat (fd_treasury_bps (cfg_fee_distribution config)) \<le> 10000"

lemma Executor_new_ok: "Executor_new config = Ok config \<longleftrightarrow> fee_split_ok config"
proof -
  let ?b = "fd_burn_bps (cfg_fee_distribution config)" and ?t = "fd_treasury_bps (cfg_fee_distribution config)"
  have "unat (ucast ?b :: u32) = unat ?b" "unat (ucast ?t :: u32) = unat ?t"
    using unat_u16_bound [of ?b] unat_u16_bound [of ?t] by (simp_all add: unat_ucast_mod)
  then have "unat (ucast ?b + ucast ?t :: u32) = unat ?b + unat ?t"
    using unat_u16_bound [of ?b] unat_u16_bound [of ?t] by (simp add: unat_word_ariths)
  then show ?thesis
    by (simp add: Executor_new_def fee_split_ok_def word_le_nat_alt)
qed

lemma optional_credit:
  assumes "wf_state s" and "ledger_total s + unat amt < 2 ^ 64"
  shows "ledger_total (if 0 < amt then credited a t amt s else s) = ledger_total s + unat amt"
  using credited_total [OF assms] by (simp add: word_gt_0)

lemma distribute_fee_total:
  assumes wf: "wf_state s" and split: "fee_split_ok config" and room: "ledger_total s + unat f < 2 ^ 64"
  shows "ledger_total (distribute_fee ext config f proposer s) + unat (fee_burn config f) = ledger_total s + unat f"
proof (cases "0 < f")
  case True
  let ?b = "bps_share f (fd_burn_bps (cfg_fee_distribution config))"
  let ?t = "bps_share f (fd_treasury_bps (cfg_fee_distribution config))"
  let ?v = "saturating_sub (saturating_sub f ?b) ?t"
  let ?ta = "parse_treasury_address ext (cfg_treasury_address config)"
  let ?s1 = "if 0 < ?t then credited ?ta 0 ?t s else s"
  let ?s2 = "if 0 < ?v then credited proposer 0 ?v ?s1 else ?s1"
  have le: "unat ?b + unat ?t \<le> unat f"
    using split unfolding fee_split_ok_def by (rule bps_shares_le)
  then have v: "unat ?v = unat f - unat ?b - unat ?t"
    by (simp add: unat_saturating_sub)
  have s1: "wf_state ?s1" "ledger_total ?s1 = ledger_total s + unat ?t"
    using wf room le by (simp_all add: wf_intros optional_credit del: if_split)
  have "ledger_total ?s2 = ledger_total ?s1 + unat ?v"
    by (rule optional_credit [OF s1(1)]) (use s1(2) room le v in linarith)
  moreover have "ledger_total (distribute_fee ext config f proposer s) = ledger_total ?s2"
    using True by (simp add: distribute_fee_def Let_def)
  ultimately show ?thesis
    using s1(2) le v by (simp add: fee_burn_def)
next
  case False
  then have "f = 0" by (simp add: word_gt_0)
  then show ?thesis
    by (simp add: distribute_fee_def fee_burn_def bps_share_def)
qed

lemma charged_state_total:
  assumes wf: "wf_state s" and fits: "supply_fits s" and split: "fee_split_ok config"
    and "deduct_fee (signer tx) (tx_payer tx) (tx_fee ext config tx) s = (Ok cs, s1)"
  shows "ledger_total (charged_state ext config tx proposer s) + unat (fee_burn config (tx_fee ext config tx)) = ledger_total s"
proof -
  have "wf_state s1" "ledger_total s1 + unat (tx_fee ext config tx) = ledger_total s"
    using deduct_fee_wf [OF wf, of "signer tx" "tx_payer tx" "tx_fee ext config tx"] deduct_fee_total [OF wf assms(4)]
      assms(4) by simp_all
  then show ?thesis
    using distribute_fee_total [of s1 config "tx_fee ext config tx" ext proposer] split supply_fitsD [OF fits] assms(4)
    by (simp add: charged_state_def)
qed

subsection \<open>Actions\<close>

text \<open>
  The conditions under which an action conserves the ledger, action by action. Paying out match
  rewards mints them, returning a rental may, and settling a proposal mints or burns: their exact
  effects are the subject of their modules.
\<close>

fun conserving :: "externals \<Rightarrow> ChainConfig \<Rightarrow> TransactionAction \<Rightarrow> address \<Rightarrow> u64 \<Rightarrow> u64 \<Rightarrow> chain_state \<Rightarrow> bool" where
  "conserving ext config (BuyListing i) sgnr t h s \<longleftrightarrow>
     (case get_listing s i of
        None \<Rightarrow> True
      | Some l \<Rightarrow> unat (cfg_protocol_fee_bps config) + unat (lst_royalty_bps l) \<le> 10000 \<and>
                  get_asset_class s (lst_asset_class_id l) \<noteq> None)"
| "conserving ext config (DelegateStake v amount) sgnr t h s \<longleftrightarrow> cfg_epoch_length config \<noteq> 0"
| "conserving ext config (UndelegateStake v amount) sgnr t h s \<longleftrightarrow>
     slots_contiguous s \<and> card (slots s sgnr (h + cfg_unbonding_period_blocks config)) < 256"
| "conserving ext config (DistributeReward i rewards) sgnr t h s \<longleftrightarrow> rewards = []"
| "conserving ext config (SubmitProposal action ttl desc dep) sgnr t h s \<longleftrightarrow>
     held get_proposal proposal_escrow s (proposal_id_of (ext_sha256 ext) sgnr ttl h) = 0"
| "conserving ext config (ExecuteProposal i) sgnr t h s \<longleftrightarrow> False"
| "conserving ext config (ListForRent cls ast price dep mn mx) sgnr t h s \<longleftrightarrow>
     (case get_rental s (rental_id_of (ext_sha256 ext) sgnr ast t) of None \<Rightarrow> True | Some r \<Rightarrow> rnt_status r \<noteq> RentalActive)"
| "conserving ext config (RentAsset i duration) sgnr t h s \<longleftrightarrow>
     (case get_rental s i of
        None \<Rightarrow> True
      | Some r \<Rightarrow> unat (rnt_price_per_block r) * unat duration + unat (rnt_deposit r) < 2 ^ 64)"
| "conserving ext config (ReturnRental i) sgnr t h s \<longleftrightarrow> False"
| "conserving ext config (ClaimExpiredRental i) sgnr t h s \<longleftrightarrow> rentals_sound s"
| "conserving ext config (CreateGuild n d mx) sgnr t h s \<longleftrightarrow> get_guild s (guild_id_of (ext_sha256 ext) sgnr n t) = None"
| "conserving ext config (LeaveGuild i) sgnr t h s \<longleftrightarrow> abandoned sgnr i s = 0"
| "conserving ext config (CreateTournament n g fe mx mn st ds) sgnr t h s \<longleftrightarrow>
     held get_tournament tournament_escrow s (tournament_id_of (ext_sha256 ext) sgnr n st) = 0"
| "conserving ext config (ClaimTournamentPrize i) sgnr t h s \<longleftrightarrow>
     tournaments_sound s \<and> (case get_tournament s i of None \<Rightarrow> True | Some tr \<Rightarrow> payable tr)"
| "conserving ext config (JoinTournament i) sgnr t h s \<longleftrightarrow> tournaments_sound s"
| "conserving ext config (StartTournament i) sgnr t h s \<longleftrightarrow> tournaments_sound s"
| "conserving ext config (ReportTournamentResults i rs) sgnr t h s \<longleftrightarrow> tournaments_sound s"
| "conserving ext config (CancelTournament i) sgnr t h s \<longleftrightarrow> tournaments_sound s"
| "conserving ext config action sgnr t h s \<longleftrightarrow> True"


lemma dispatch_total:
  assumes wf: "wf_state s" and fits: "supply_fits s" and "conserving ext config action sgnr t h s"
  shows "ledger_total (snd (dispatch_action ext config action sgnr t h s)) = ledger_total s"
proof -
  have listing: "ledger_total (snd (execute_create_listing sha sgnr cls amount price cur config t s)) = ledger_total s"
    "ledger_total (snd (execute_cancel_listing sgnr i s)) = ledger_total s" for sha cls amount price cur i
    by (auto simp: execute_create_listing_def execute_cancel_listing_def Let_def split: option.splits)
  have assets: "ledger_total (snd (execute_create_asset_class sha sgnr n sy ty cap uri t s)) = ledger_total s"
    "ledger_total (snd (execute_mint_asset sgnr cls to amount md s)) = ledger_total s"
    "ledger_total (snd (execute_transfer_asset sgnr cls to amount s)) = ledger_total s"
    "ledger_total (snd (execute_burn_asset sgnr cls amount s)) = ledger_total s" for sha n sy ty cap uri cls to amount md
    by (auto simp: execute_create_asset_class_def execute_mint_asset_def execute_transfer_asset_def
        execute_burn_asset_def Let_def split: option.splits)
  have attest: "ledger_total (snd (execute_register_attestor sgnr g e m t s)) = ledger_total s"
    "ledger_total (snd (execute_submit_match_result sgnr mr config t s)) = ledger_total s"
    "ledger_total (snd (execute_distribute_reward sgnr i [] t s)) = ledger_total s" for g e m mr i
    by (auto simp: execute_register_attestor_def execute_submit_match_result_def execute_distribute_reward_def
        Let_def split: option.splits)
  have reg: "ledger_total (snd (execute_register_validator sgnr c config s)) = ledger_total s" for c
    by (simp add: execute_register_validator_def)
  show ?thesis
  proof (cases action)
    case (BuyListing i)
    then show ?thesis using assms by (auto intro!: buy_listing_total split: option.splits)
  next
    case (LeaveGuild i)
    then show ?thesis using assms leave_guild_total [OF wf, of sgnr i] by simp
  next
    case (ListForRent cls ast price dep mn mx)
    then show ?thesis using assms by (auto intro!: list_for_rent_total split: option.splits)
  next
    case (RentAsset i duration)
    then show ?thesis using assms by (auto intro!: rent_asset_total split: option.splits)
  next
    case (ClaimTournamentPrize i)
    then show ?thesis using assms by (auto intro!: conjunct1 [OF claim_prize_total] split: option.splits)
  qed (use assms in \<open>simp_all add: transfer_total [OF wf fits] assets listing attest reg identity_total session_total
      vote_total [OF wf] submit_total [OF wf fits] delegate_stake_total [OF wf fits] undelegate_stake_total [OF wf]
      claim_expired_total [OF wf fits] cancel_rental_total [OF wf] create_guild_total guild_membership_total [OF wf]
      guild_deposit_total [OF wf fits] guild_withdraw_total [OF wf fits] create_tournament_total
      join_tournament_total [OF wf fits] start_tournament_total [OF wf] report_results_total [OF wf]
      cancel_tournament_total [OF wf fits]\<close>)
qed


lemma run_action_total:
  assumes "wf_state s" and "supply_fits s"
    and "conserving ext config (tx_action (stx_transaction tx)) (signer tx) (tx_timestamp (stx_transaction tx)) h s"
  shows "ledger_total (snd (run_action ext config tx h s)) = ledger_total s"
  unfolding run_action_def by (rule dispatch_total [OF assms])

lemma session_spending_total [simp]: "ledger_total (snd (update_session_spending sgnr se f s)) = ledger_total s"
  by (simp add: update_session_spending_def Let_def split: option.splits)

subsection \<open>The recorded supply\<close>

definition supply_tracks :: "chain_state \<Rightarrow> bool" where
  "supply_tracks s \<longleftrightarrow>
     (\<exists>si. get_supply_info s = Some si \<and> unat (sup_total_supply si) = ledger_total s)"

lemma supply_info_frame: "module_writes s s' \<Longrightarrow> get_supply_info s' = get_supply_info s"
  using module_writes_frame [of s s'] by (simp add: chain_records_def get_supply_info_def)

lemma get_supply_account [simp]: "get_supply_info (set_account a s) = get_supply_info s"
  by (simp add: state_defs)

lemma get_supply_set [simp]:
  "get_supply_info (set_supply_info si s) = Some si" "get_supply_info (set_validator v s) = get_supply_info s"
  by (simp_all add: state_defs)

lemma deduct_fee_supply: "get_supply_info (snd (deduct_fee sgnr payer f s)) = get_supply_info s"
  by (cases rule: deduct_fee_cases [of sgnr payer f s]) simp_all

lemma distribute_fee_supply:
  assumes "get_supply_info s = Some si"
  shows "\<exists>si'. get_supply_info (distribute_fee ext config f proposer s) = Some si' \<and>
    unat (sup_total_supply si') = unat (sup_total_supply si) - unat (fee_burn config f)"
proof (cases "0 < f")
  case True
  then show ?thesis
    using assms
    by (simp add: distribute_fee_def Let_def fee_burn_def recompute_circulating_def unat_saturating_sub)
next
  case False
  then have "f = 0" by (simp add: word_gt_0)
  then show ?thesis using assms by (simp add: distribute_fee_def fee_burn_def bps_share_def)
qed

lemma charged_state_supply:
  assumes "supply_tracks s" and "wf_state s" and "supply_fits s" and "fee_split_ok config"
    and "deduct_fee (signer tx) (tx_payer tx) (tx_fee ext config tx) s = (Ok cs, s1)"
  shows "supply_tracks (charged_state ext config tx proposer s)"
proof -
  obtain si where si: "get_supply_info s = Some si" "unat (sup_total_supply si) = ledger_total s"
    using assms(1) by (auto simp: supply_tracks_def)
  then have "get_supply_info s1 = Some si"
    using deduct_fee_supply [of "signer tx" "tx_payer tx" "tx_fee ext config tx" s] assms(5) by simp
  then obtain si' where "get_supply_info (charged_state ext config tx proposer s) = Some si'"
    "unat (sup_total_supply si') = ledger_total s - unat (fee_burn config (tx_fee ext config tx))"
    using distribute_fee_supply [of s1 si ext config "tx_fee ext config tx" proposer] si(2) assms(5)
    by (auto simp: charged_state_def)
  moreover have "ledger_total (charged_state ext config tx proposer s)
      = ledger_total s - unat (fee_burn config (tx_fee ext config tx))"
    using charged_state_total [OF assms(2-5), of proposer] by simp
  ultimately show ?thesis by (simp add: supply_tracks_def)
qed

lemma reward_supply:
  assumes wf: "wf_state s" and tr: "supply_tracks s" and room: "ledger_total s + unat (cfg_block_reward config) < 2 ^ 64"
  shows "supply_tracks (apply_block_reward config proposer s) \<and>
    ledger_total (apply_block_reward config proposer s)
      = ledger_total s + (if proposer = ZERO then 0 else unat (cfg_block_reward config))"
proof (cases "cfg_block_reward config = 0 \<or> proposer = ZERO")
  case False
  obtain si where si: "get_supply_info s = Some si" "unat (sup_total_supply si) = ledger_total s"
    using tr by (auto simp: supply_tracks_def)
  have "unat (saturating_add (sup_total_supply si) (cfg_block_reward config)) = ledger_total s + unat (cfg_block_reward config)"
    using si room by (simp add: unat_saturating_add)
  then show ?thesis
    using False si(1) credited_total [OF wf room, of proposer 0]
    by (simp add: apply_block_reward_def Let_def supply_tracks_def recompute_circulating_def split: option.splits)
qed (use tr in \<open>auto simp: apply_block_reward_def\<close>)

text \<open>
  C2: the ledger across a transaction. For every transaction whose action conserves the ledger (on
  the state in which it is run) the executor destroys exactly the burnt share of the fee, whether the
  action succeeds, fails or crashes: the rest of the fee is with the treasury and the block producer.
\<close>

theorem transaction_burns_fee_share:
  assumes wf: "wf_state s" and fits: "supply_fits s" and split: "Executor_new config = Ok config"
    and action: "conserving ext config (tx_action (stx_transaction tx)) (signer tx)
      (tx_timestamp (stx_transaction tx)) h (charged_state ext config tx proposer s)"
  shows "case execute_transaction ext config tx h proposer s of
           (Err e, s') \<Rightarrow> s' = s
         | (_, s') \<Rightarrow> ledger_total s' + unat (fee_burn config (tx_fee ext config tx)) = ledger_total s"
proof -
  have run: "ledger_total (snd (run_action ext config tx h (charged_state ext config tx proposer s))) + b = ledger_total s"
    if "deduct_fee (signer tx) (tx_payer tx) (tx_fee ext config tx) s = (Ok cs, s1)"
      "b = unat (fee_burn config (tx_fee ext config tx))" for cs s1 b
  proof -
    note charged = charged_state_total [OF wf fits split [unfolded Executor_new_ok] that(1), of proposer]
    then have "supply_fits (charged_state ext config tx proposer s)"
      using fits by (simp add: supply_fits_def)
    with charged show ?thesis
      using run_action_total [OF charged_state_wf [OF wf] _ action] that(2) by simp
  qed
  show ?thesis
  proof (cases rule: execute_transaction_cases [of ext config tx h proposer s])
    case (crashed cs s1 s2)
    then show ?thesis using run [OF crashed(1) refl] by simp
  next
    case (failed cs s1 s2 e)
    then show ?thesis using run [OF failed(1) refl] by simp
  next
    case (succeeded cs s1 s2 events changes events' changes')
    then show ?thesis using run [OF succeeded(1) refl] by simp
  qed simp
qed

definition sample_ext :: externals where
  "sample_ext = \<lparr>ext_sha256 = (\<lambda>_. 99), ext_hex_encode = (\<lambda>_. []), ext_hex_decode = (\<lambda>_. None),
     ext_tx_size = (\<lambda>_. 200)\<rparr>"

definition rich_state :: chain_state where
  "rich_state = set_supply_info (SupplyInfo_default\<lparr>sup_total_supply := 1000500\<rparr>)
     (set_account (AccountState_with_balance 1 1000000 0) sample_state)"

definition sample_tx :: SignedTransaction where
  "sample_tx = \<lparr>stx_transaction = \<lparr>tx_chain_id = ''polay-devnet-1'', tx_nonce = 0, tx_signer = 1,
      tx_action = Transfer 2 100, tx_max_fee = 50000, tx_timestamp = 7, tx_session = None, tx_sponsor = None\<rparr>,
     stx_signature = 0, stx_tx_hash = 77, stx_signer_pubkey = []\<rparr>"

lemma sample_tx_facts:
  "signer sample_tx = 1" "tx_fee sample_ext devnet sample_tx = 29200" "tx_gas sample_ext devnet sample_tx = 29200"
  "tx_action (stx_transaction sample_tx) = Transfer 2 100" "tx_sponsor (stx_transaction sample_tx) = None"
  "tx_max_fee (stx_transaction sample_tx) = 50000"
  by (simp_all add: sample_tx_def signer_def fee_def total_gas_def sample_ext_def devnet_def ChainConfig_default_def
      saturating_mul_def)

lemma devnet_fee: "fee 29200 (cfg_min_gas_price devnet) = 29200"
  by (simp add: fee_def devnet_def ChainConfig_default_def saturating_mul_def)

lemma devnet_split: "fee_split_ok devnet" "Executor_new devnet = Ok devnet"
  by (simp_all add: fee_split_ok_def devnet_def ChainConfig_default_def FeeDistribution_default_def Executor_new_ok)

lemma rich_state_facts:
  "wf_state rich_state" "ledger_total rich_state = 1000500" "supply_fits rich_state" "supply_tracks rich_state"
  "get_account rich_state 1 = Some (AccountState_with_balance 1 1000000 0)"
proof -
  show "wf_state rich_state" by (simp add: rich_state_def wf_intros)
  have "ledger_total (set_account (AccountState_with_balance 1 1000000 0) sample_state) + 1000 = 1500 + 1000000"
    using accounts.total_write [of "AccountState_with_balance 1 1000000 0" sample_state]
    by (simp add: sample_total AccountState_with_balance_def balance_of_def)
  then show t: "ledger_total rich_state = 1000500" by (simp add: rich_state_def)
  show "supply_fits rich_state" by (simp add: supply_fits_def t)
  show "supply_tracks rich_state" using t by (simp add: supply_tracks_def rich_state_def)
  show "get_account rich_state 1 = Some (AccountState_with_balance 1 1000000 0)"
    by (simp add: rich_state_def state_defs AccountState_with_balance_def)
qed

theorem transaction_burns_fee_share_witness:
  "case execute_transaction sample_ext devnet sample_tx 1 3 rich_state of
     (Err e, s') \<Rightarrow> s' = rich_state
   | (_, s') \<Rightarrow> ledger_total s' + 14600 = 1000500"
proof -
  have burn: "unat (fee_burn devnet 29200) = 14600"
    by (simp add: fee_burn_def bps_share_def devnet_def ChainConfig_default_def FeeDistribution_default_def)
  show ?thesis
    using transaction_burns_fee_share [of rich_state devnet sample_ext sample_tx 1 3]
    unfolding sample_tx_facts(2) burn rich_state_facts(2)
    by (simp add: rich_state_facts devnet_split sample_tx_facts(4))
qed



subsection \<open>Block gas\<close>

lemma receipt_of_transaction:
  assumes "execute_transaction ext config tx h proposer s = (Ok r, s')"
  shows "rcp_gas_used (res_receipt r) = tx_gas ext config tx" "rcp_tx_hash (res_receipt r) = stx_tx_hash tx"
  using assms
  by (cases rule: execute_transaction_cases [of ext config tx h proposer s];
      auto simp: receipt_success_def receipt_failure_def)+

lemma transactions_gas:
  assumes "cfg_max_block_gas config < - 1" and "g \<le> cfg_max_block_gas config"
  shows "(\<Sum>r\<leftarrow>fst (execute_transactions ext config h proposer g txs s). unat (rcp_gas_used r)) + unat g
           \<le> unat (cfg_max_block_gas config)"
    and "map rcp_tx_hash (fst (execute_transactions ext config h proposer g txs s)) = map stx_tx_hash txs"
  using assms(2)
proof (induction txs arbitrary: g s)
  case (Cons tx txs)
  {
    case 1
    then show ?case
    proof (cases rule: execute_transactions_cases [of config g ext tx h proposer txs s])
      case (included q s1)
      let ?g = "saturating_add g (tx_gas ext config tx)"
      have "unat ?g < 2 ^ 64 - 1"
        using included(1) assms(1) by (simp add: word_le_nat_alt word_less_nat_alt unat_max)
      then have "unat ?g = unat g + unat (tx_gas ext config tx)"
        by (simp add: unat_saturating_add min_def split: if_splits)
      then show ?thesis
        using Cons.IH(1) [OF included(1), of s1] receipt_of_transaction [OF included(2)] included(3)
        by (simp add: Let_def)
    qed (use Cons.IH(1) in \<open>simp_all add: Let_def receipt_failure_def\<close>)
  next
    case 2
    then show ?case
    proof (cases rule: execute_transactions_cases [of config g ext tx h proposer txs s])
      case (included q s1)
      then show ?thesis
        using Cons.IH(2) [of _ s1] receipt_of_transaction [OF included(2)] by (simp add: Let_def)
    qed (use Cons.IH(2) in \<open>simp_all add: Let_def receipt_failure_def\<close>)
  }
qed (simp_all add: word_le_nat_alt)

text \<open>
  C29: a block yields one receipt per transaction, in order, and the gas on its receipts never adds
  up to more than the block limit (any limit but the largest \<open>u64\<close>, at which the saturating sum
  could hide an overflow).
\<close>

theorem block_gas_bounded:
  assumes "cfg_max_block_gas config < - 1"
  shows "map rcp_tx_hash (fst (execute_block ext config txs h proposer s)) = map stx_tx_hash txs \<and>
         (\<Sum>r\<leftarrow>fst (execute_block ext config txs h proposer s). unat (rcp_gas_used r)) \<le> unat (cfg_max_block_gas config)"
  using transactions_gas [OF assms, of 0] by (simp add: execute_block_def)

theorem block_gas_bounded_witness:
  "(\<Sum>r\<leftarrow>fst (execute_block sample_ext devnet [sample_tx, sample_tx] 1 3 rich_state). unat (rcp_gas_used r)) \<le> 100000000"
proof -
  have "cfg_max_block_gas devnet = 100000000" by (simp add: devnet_def ChainConfig_default_def)
  then show ?thesis
    using block_gas_bounded [of devnet sample_ext "[sample_tx, sample_tx]" 1 3 rich_state]
    by (simp add: word_less_nat_alt unat_max)
qed

subsection \<open>Replay\<close>

text \<open>Crediting any account leaves no balance smaller and no account missing.\<close>

definition funds :: "chain_state \<Rightarrow> address \<Rightarrow> nat" where
  "funds s a = held get_account balance_of s a"

lemma funds_credited:
  assumes "wf_state s"
  shows "funds s a \<le> funds (credited x t amt s) a" "get_account s a \<noteq> None \<Longrightarrow> get_account (credited x t amt s) a \<noteq> None"
proof -
  have "acct_address (unwrap_or (get_account s x) (AccountState_new x t)) = x" using assms by simp
  then show "funds s a \<le> funds (credited x t amt s) a"
    "get_account s a \<noteq> None \<Longrightarrow> get_account (credited x t amt s) a \<noteq> None"
    using opened_account(1) [of s x t] unat_u64_bound [of "acct_balance (unwrap_or (get_account s x) (AccountState_new x t))"]
    by (auto simp: funds_def accounts.held_write accounts.look_write balance_of_def unat_saturating_add min_def)
qed

lemma distribute_fee_funds:
  assumes wf: "wf_state s"
  shows "funds s a \<le> funds (distribute_fee ext config f proposer s) a \<and>
    (get_account s a \<noteq> None \<longrightarrow> get_account (distribute_fee ext config f proposer s) a \<noteq> None)"
proof -
  have sup: "funds (set_supply_info si s') a = funds s' a" "get_account (set_supply_info si s') a = get_account s' a" for si s'
    by (simp_all add: funds_def held_def state_defs)
  have "funds s a \<le> funds (credited y 0 v (credited x 0 u s)) a" for x y u v
    using funds_credited(1) [OF wf, of a x 0 u] funds_credited(1) [of "credited x 0 u s" a y 0 v] wf
    by (simp add: wf_intros)
  moreover have "get_account (credited y 0 v (credited x 0 u s)) a \<noteq> None" if "get_account s a \<noteq> None" for x y u v
    using funds_credited(2) [of "credited x 0 u s" a y 0 v] funds_credited(2) [OF wf that, of x 0 u] wf
    by (simp add: wf_intros)
  ultimately show ?thesis
    using funds_credited [OF wf] by (simp add: distribute_fee_def Let_def sup)
qed

lemma transfer_tx_accepted:
  assumes wf: "wf_state s" and tx: "tx_action (stx_transaction tx) = Transfer to amount" "tx_sponsor (stx_transaction tx) = None"
    and max: "tx_fee ext config tx \<le> tx_max_fee (stx_transaction tx)"
    and have_acct: "get_account s (signer tx) \<noteq> None"
    and afford: "unat (tx_fee ext config tx) + unat amount \<le> funds s (signer tx)"
  shows "\<exists>r s'. execute_transaction ext config tx h proposer s = (Ok r, s') \<and> rcp_success (res_receipt r) \<and> wf_state s' \<and>
    get_account s' (signer tx) \<noteq> None \<and>
    funds s (signer tx) \<le> funds s' (signer tx) + unat (tx_fee ext config tx) + unat amount"
proof -
  let ?f = "tx_fee ext config tx" and ?a = "signer tx"
  obtain acct where acct: "get_account s ?a = Some acct" using have_acct by blast
  note addr = wf_keys(1) [OF wf acct]
  have f: "?f \<le> acct_balance acct" and bal: "funds s ?a = unat (acct_balance acct)"
    using afford acct by (simp_all add: funds_def balance_of_def word_le_nat_alt)
  let ?s1 = "set_account (increment_nonce (acct\<lparr>acct_balance := acct_balance acct - ?f\<rparr>)) s"
  have ded: "deduct_fee ?a ?a ?f s = (Ok [FeeDeducted ?a ?f, NonceIncremented ?a], ?s1)"
    using acct f by (simp add: deduct_fee_def leD)
  have s1: "wf_state ?s1" "funds ?s1 ?a + unat ?f = funds s ?a" "get_account ?s1 ?a \<noteq> None"
    using wf addr f bal
    by (simp_all add: wf_intros funds_def accounts.held_write accounts.look_write increment_nonce_def balance_of_def
        unat_sub word_le_nat_alt)
  let ?c = "distribute_fee ext config ?f proposer ?s1"
  have c: "wf_state ?c" "funds s ?a \<le> funds ?c ?a + unat ?f" "get_account ?c ?a \<noteq> None"
    using distribute_fee_funds [OF s1(1), of ?a ext config ?f proposer] s1 distribute_fee_wf [OF s1(1)] by auto
  then obtain b where b: "get_account ?c ?a = Some b" by blast
  note baddr = wf_keys(1) [OF c(1) b]
  have amt: "amount \<le> acct_balance b"
    using afford c(2) b by (simp add: funds_def balance_of_def word_le_nat_alt)
  let ?d = "set_account (b\<lparr>acct_balance := acct_balance b - amount\<rparr>) ?c"
  let ?e = "credited to (tx_timestamp (stx_transaction tx)) amount ?d"
  have run: "execute_transfer ?a to amount (tx_timestamp (stx_transaction tx)) ?c = (Ok [Event_transfer ?a to amount], ?e)"
    using b amt by (simp add: execute_transfer_def Let_def leD)
  have d: "wf_state ?d" "funds ?d ?a + unat amount = funds ?c ?a" "get_account ?d ?a \<noteq> None"
    using c(1) baddr amt b
    by (simp_all add: wf_intros funds_def accounts.held_write accounts.look_write balance_of_def unat_sub word_le_nat_alt)
  have e: "wf_state ?e" "funds ?d ?a \<le> funds ?e ?a" "get_account ?e ?a \<noteq> None"
    using d(1) funds_credited(1) [OF d(1)] funds_credited(2) [OF d(1) d(3)] by (simp_all add: wf_intros)
  obtain ses s' where u: "update_session_spending ?a (tx_session (stx_transaction tx)) ?f ?e = (ses, s')"
    by (cases "update_session_spending ?a (tx_session (stx_transaction tx)) ?f ?e")
  have "get_account s' ?a = get_account ?e ?a" "wf_state s'"
    using u session_spending_wf [OF e(1), of ?a "tx_session (stx_transaction tx)" ?f]
    by (auto simp: update_session_spending_def Let_def split: option.splits)
  then have s': "wf_state s'" "get_account s' ?a \<noteq> None" "funds s' ?a = funds ?e ?a"
    using e(3) by (simp_all add: funds_def held_def)
  have "\<exists>r. execute_transaction ext config tx h proposer s = (Ok r, s') \<and> rcp_success (res_receipt r)"
    using max tx ded run u by (simp add: execute_transaction_def Let_def leD with_changes_def receipt_success_def)
  then show ?thesis
    using s' c(2) d(2) e(2) by auto
qed

text \<open>
  C34: the executor does not compare the nonce of a transaction with the account's. A signer that
  can pay for a transfer twice is charged and debited twice when the same signed transaction is
  executed a second time.
\<close>

theorem replay_accepted:
  assumes wf: "wf_state s" and tx: "tx_action (stx_transaction tx) = Transfer to amount" "tx_sponsor (stx_transaction tx) = None"
    and max: "tx_fee ext config tx \<le> tx_max_fee (stx_transaction tx)"
    and acct: "get_account s (signer tx) = Some acct"
    and afford: "2 * (unat (tx_fee ext config tx) + unat amount) \<le> unat (acct_balance acct)"
  shows "\<exists>r1 s1 r2 s2. execute_transaction ext config tx h proposer s = (Ok r1, s1) \<and> rcp_success (res_receipt r1) \<and>
    execute_transaction ext config tx h proposer s1 = (Ok r2, s2) \<and> rcp_success (res_receipt r2)"
proof -
  have "unat (acct_balance acct) = funds s (signer tx)" using acct by (simp add: funds_def balance_of_def)
  then show ?thesis
    using transfer_tx_accepted [OF wf tx max, of h proposer] transfer_tx_accepted [OF _ tx max, of _ h proposer] afford acct
    by fastforce
qed

theorem replay_accepted_witness:
  "\<exists>r1 s1 r2 s2. execute_transaction sample_ext devnet sample_tx 1 3 rich_state = (Ok r1, s1) \<and> rcp_success (res_receipt r1) \<and>
     execute_transaction sample_ext devnet sample_tx 1 3 s1 = (Ok r2, s2) \<and> rcp_success (res_receipt r2)"
  by (rule replay_accepted [where to = 2 and amount = 100])
     (simp_all add: sample_tx_facts devnet_fee rich_state_facts, simp add: AccountState_with_balance_def)

subsection \<open>Nonces\<close>

lemma execute_transaction_nonce:
  assumes wf: "wf_state s"
  shows "case execute_transaction ext config tx h proposer s of
           (Err e, s') \<Rightarrow> s' = s
         | (_, s') \<Rightarrow> nonce_of s' a = nonce_of s a + (if a = signer tx then 1 else 0)"
proof (cases rule: execute_transaction_cases [of ext config tx h proposer s])
  case (crashed cs s1 s2)
  then show ?thesis
    using run_action_nonce [OF charged_state_wf [OF wf], of ext config tx h ext config tx proposer a]
      charged_state_nonce [OF wf crashed(1), of proposer a] by simp
next
  case (failed cs s1 s2 e)
  then show ?thesis
    using run_action_nonce [OF charged_state_wf [OF wf], of ext config tx h ext config tx proposer a]
      charged_state_nonce [OF wf failed(1), of proposer a] by simp
next
  case (succeeded cs s1 s2 events changes events' changes')
  then show ?thesis
    using run_action_nonce [OF charged_state_wf [OF wf], of ext config tx h ext config tx proposer a]
      charged_state_nonce [OF wf succeeded(1), of proposer a] module_writes_frame [OF session_spending_writes]
    by simp
qed simp

text \<open>
  C3: nonces. A transaction that is refused before its fee is taken leaves the state untouched;
  otherwise, whether its action succeeds, fails or crashes, the nonce of its signer has grown by
  exactly one and the nonce of every other account is what it was.
\<close>

theorem nonce_discipline:
  assumes wf: "wf_state s"
  shows "case execute_transaction ext config tx h proposer s of
           (Err e, s') \<Rightarrow> s' = s
         | (_, s') \<Rightarrow> nonce_of s' a = nonce_of s a + (if a = signer tx then 1 else 0)"
  by (rule execute_transaction_nonce [OF wf])

theorem nonce_discipline_witness:
  "\<exists>r s'. execute_transaction sample_ext devnet sample_tx 1 3 rich_state = (Ok r, s') \<and> nonce_of s' 1 = 1 \<and> nonce_of s' 2 = 0"
proof -
  obtain r s' where run: "execute_transaction sample_ext devnet sample_tx 1 3 rich_state = (Ok r, s')"
    using transfer_tx_accepted [of rich_state sample_tx 2 100 sample_ext devnet 1 3]
    by (auto simp: rich_state_facts sample_tx_facts devnet_fee funds_def balance_of_def AccountState_with_balance_def)
  have "nonce_of rich_state 1 = 0" "nonce_of rich_state 2 = 0"
    by (simp_all add: rich_state_def nonce_of_def [of sample_state] AccountState_with_balance_def)
  then show ?thesis
    using run nonce_discipline [where s = rich_state and ext = sample_ext and config = devnet and tx = sample_tx
        and h = 1 and proposer = 3 and a = 1]
      nonce_discipline [where s = rich_state and ext = sample_ext and config = devnet and tx = sample_tx
        and h = 1 and proposer = 3 and a = 2]
    by (simp add: rich_state_facts sample_tx_facts)
qed

end
