(* ===== verification/Polay_Consensus.thy ===== *)
theory Polay_Consensus
  imports Polay_Types "HOL-Library.Multiset"
begin

section \<open>Consensus (\<^verbatim>\<open>polay-consensus/src/{types,state_machine,evidence,error}.rs\<close>)\<close>

text \<open>
  The Tendermint-style state machine of one node, handler by handler: proposals, prevotes,
  precommits, timeouts, round skips and the advance to the next height. Every handler returns its
  result and the machine it leaves behind, also on an error. The source iterates over hash maps in an
  unspecified order; the model enumerates them by voter address and \<open>quorum_scan_order\<close> shows that the
  order does not matter.
\<close>

subsection \<open>Types\<close>

datatype ConsensusState = NewRound | Propose | Prevote | Precommit | Commit

record ValidatorWeight =
  vw_address :: address
  vw_stake :: u64

record ValidatorSet =
  vs_validators :: "ValidatorWeight list"
  vs_total_stake :: u64

fun checked_total :: "u64 \<Rightarrow> ValidatorWeight list \<Rightarrow> u64 option" where
  "checked_total acc [] = Some acc"
| "checked_total acc (v # vs) = (case checked_add acc (vw_stake v) of None \<Rightarrow> None | Some acc' \<Rightarrow> checked_total acc' vs)"

text \<open>The constructor panics on a repeated address and on a total that does not fit.\<close>

definition ValidatorSet_new :: "ValidatorWeight list \<Rightarrow> (unit, ValidatorSet) result" where
  "ValidatorSet_new validators =
     (if \<not> distinct (map vw_address validators) then Panic
      else case checked_total 0 validators of
             None \<Rightarrow> Panic
           | Some total_stake \<Rightarrow> Ok \<lparr>vs_validators = validators, vs_total_stake = total_stake\<rparr>)"

definition get_proposer :: "ValidatorSet \<Rightarrow> u64 \<Rightarrow> u32 \<Rightarrow> ValidatorWeight option" where
  "get_proposer vs height rnd =
     (if vs_validators vs = [] then None
      else Some (vs_validators vs ! ((unat height + unat rnd) mod length (vs_validators vs))))"

definition vs_contains :: "ValidatorSet \<Rightarrow> address \<Rightarrow> bool" where
  "vs_contains vs addr \<longleftrightarrow> list_ex (\<lambda>v. vw_address v = addr) (vs_validators vs)"

definition get_stake :: "ValidatorSet \<Rightarrow> address \<Rightarrow> u64" where
  "get_stake vs addr =
     (case find (\<lambda>v. vw_address v = addr) (vs_validators vs) of None \<Rightarrow> 0 | Some v \<Rightarrow> vw_stake v)"

text \<open>The product is taken in 128 bits and truncated to 64.\<close>

definition quorum_threshold :: "ValidatorSet \<Rightarrow> u64" where
  "quorum_threshold vs = word_of_nat (unat (vs_total_stake vs) * 2 div 3 + 1)"

datatype VoteType = VT_Prevote | VT_Precommit

fun vote_type_label :: "VoteType \<Rightarrow> string" where
  "vote_type_label VT_Prevote = ''Prevote''"
| "vote_type_label VT_Precommit = ''Precommit''"

record Vote =
  vt_height :: u64
  vt_round :: u32
  vt_type :: VoteType
  vt_block_hash :: hash
  vt_voter :: address
  vt_signature :: signature

definition is_nil :: "Vote \<Rightarrow> bool" where
  "is_nil v \<longleftrightarrow> is_zero (vt_block_hash v)"

record Proposal =
  pr_height :: u64
  pr_round :: u32
  pr_block :: Block
  pr_proposer :: address
  pr_signature :: signature

record CommitProof =
  cp_height :: u64
  cp_round :: u32
  cp_block_hash :: hash
  cp_votes :: "Vote list"

definition vote_count :: "CommitProof \<Rightarrow> nat" where
  "vote_count p = length (cp_votes p)"

datatype (plugins only: size) ConsensusAction =
    SendProposal Proposal
  | SendPrevote Vote
  | SendPrecommit Vote
  | CommitBlock u64 hash CommitProof
  | ScheduleTimeout ConsensusState u64

datatype ConsensusError =
    InvalidProposer
  | InvalidBlock string
  | InvalidVote string
  | QuorumNotReached
  | DuplicateVoteError
  | NotValidator
  | TimeoutExpired
  | WrongHeight u64 u64
  | WrongRound u32 u32

subsection \<open>Evidence\<close>

datatype (plugins only: size) Evidence =
    DuplicateVote Vote Vote
  | InvalidProposal Proposal string

definition new_duplicate_vote :: "Vote \<Rightarrow> Vote \<Rightarrow> Evidence option" where
  "new_duplicate_vote vote1 vote2 =
     (if vt_height vote1 \<noteq> vt_height vote2 \<or> vt_round vote1 \<noteq> vt_round vote2 \<or>
         vt_type vote1 \<noteq> vt_type vote2 \<or> vt_voter vote1 \<noteq> vt_voter vote2 then None
      else if vt_block_hash vote1 = vt_block_hash vote2 then None
      else Some (DuplicateVote vote1 vote2))"

record EvidencePool =
  ep_evidence :: "Evidence list"

definition EvidencePool_new :: EvidencePool where
  "EvidencePool_new = \<lparr>ep_evidence = []\<rparr>"

definition evidence_add :: "EvidencePool \<Rightarrow> Evidence \<Rightarrow> EvidencePool" where
  "evidence_add pool ev = pool\<lparr>ep_evidence := ep_evidence pool @ [ev]\<rparr>"

definition evidence_drain :: "EvidencePool \<Rightarrow> Evidence list \<times> EvidencePool" where
  "evidence_drain pool = (ep_evidence pool, pool\<lparr>ep_evidence := []\<rparr>)"

subsection \<open>The state machine\<close>

definition PROPOSE_TIMEOUT_MS :: u64 where
  "PROPOSE_TIMEOUT_MS = 3000"

type_synonym votes = "(address, Vote) fmap"

record ConsensusStateMachine =
  csm_height :: u64
  csm_round :: u32
  csm_step :: ConsensusState
  csm_validator_set :: ValidatorSet
  csm_local_address :: address
  csm_proposal :: "Proposal option"
  csm_prevotes :: votes
  csm_precommits :: votes
  csm_locked_block :: "(u32 \<times> hash) option"
  csm_valid_block :: "(u32 \<times> hash) option"
  csm_valid_proposal :: "Proposal option"
  csm_future_prevotes :: "(u32, votes) fmap"
  csm_future_precommits :: "(u32, votes) fmap"

definition ConsensusStateMachine_new :: "u64 \<Rightarrow> ValidatorSet \<Rightarrow> address \<Rightarrow> ConsensusStateMachine" where
  "ConsensusStateMachine_new height validator_set local_address =
     \<lparr>csm_height = height, csm_round = 0, csm_step = NewRound, csm_validator_set = validator_set,
      csm_local_address = local_address, csm_proposal = None, csm_prevotes = fmempty,
      csm_precommits = fmempty, csm_locked_block = None, csm_valid_block = None,
      csm_valid_proposal = None, csm_future_prevotes = fmempty, csm_future_precommits = fmempty\<rparr>"

definition current_proposer :: "ConsensusStateMachine \<Rightarrow> address option" where
  "current_proposer m = map_option vw_address (get_proposer (csm_validator_set m) (csm_height m) (csm_round m))"

definition is_proposer :: "ConsensusStateMachine \<Rightarrow> bool option" where
  "is_proposer m = map_option (\<lambda>a. a = csm_local_address m) (current_proposer m)"

text \<open>The values of a vote map.\<close>

definition vote_list :: "votes \<Rightarrow> Vote list" where
  "vote_list vm = map snd (sorted_list_of_fmap vm)"

definition skip_threshold :: "ConsensusStateMachine \<Rightarrow> u64" where
  "skip_threshold m = vs_total_stake (csm_validator_set m) div 3 + 1"

definition should_skip_to_round :: "ConsensusStateMachine \<Rightarrow> u32 \<Rightarrow> bool" where
  "should_skip_to_round m rnd =
     (let voters_of = (\<lambda>f. case fmlookup f rnd of None \<Rightarrow> {||} | Some vm \<Rightarrow> fmdom vm);
          voters = voters_of (csm_future_prevotes m) |\<union>| voters_of (csm_future_precommits m)
      in skip_threshold m \<le> sum_list (map (get_stake (csm_validator_set m)) (sorted_list_of_fset voters)))"

text \<open>Both ways into a round load what was buffered for it and drop what it leaves behind.\<close>

definition load_round :: "ConsensusStateMachine \<Rightarrow> ConsensusStateMachine" where
  "load_round m =
     (let r = csm_round m;
          buffered = (\<lambda>f. case fmlookup f r of None \<Rightarrow> fmempty | Some vm \<Rightarrow> vm)
      in m\<lparr>csm_step := Propose, csm_proposal := None,
           csm_prevotes := buffered (csm_future_prevotes m),
           csm_precommits := buffered (csm_future_precommits m),
           csm_future_prevotes := fmfilter (\<lambda>r'. r < r') (csm_future_prevotes m),
           csm_future_precommits := fmfilter (\<lambda>r'. r < r') (csm_future_precommits m)\<rparr>)"

definition start_new_round :: "ConsensusStateMachine \<Rightarrow> ConsensusAction \<times> ConsensusStateMachine" where
  "start_new_round m = (ScheduleTimeout Propose PROPOSE_TIMEOUT_MS, load_round m)"

definition skip_to_round :: "u32 \<Rightarrow> ConsensusStateMachine \<Rightarrow> ConsensusStateMachine" where
  "skip_to_round target m = load_round (m\<lparr>csm_round := target\<rparr>)"

definition validate_vote_basics :: "ConsensusStateMachine \<Rightarrow> Vote \<Rightarrow> VoteType \<Rightarrow> (ConsensusError, unit) result" where
  "validate_vote_basics m vote expected_type =
     (if vt_height vote \<noteq> csm_height m then Err (WrongHeight (csm_height m) (vt_height vote))
      else if vt_type vote \<noteq> expected_type then
        Err (InvalidVote (''expected '' @ vote_type_label expected_type @ '', got '' @ vote_type_label (vt_type vote)))
      else if \<not> vs_contains (csm_validator_set m) (vt_voter vote) then Err NotValidator
      else Ok ())"

text \<open>The loop of both quorum searches, over the votes in iteration order.\<close>

fun quorum_scan :: "ValidatorSet \<Rightarrow> (hash \<Rightarrow> u64) \<Rightarrow> Vote list \<Rightarrow> hash option" where
  "quorum_scan vs acc [] = None"
| "quorum_scan vs acc (v # votes) =
     (let entry = saturating_add (acc (vt_block_hash v)) (get_stake vs (vt_voter v)) in
      if quorum_threshold vs \<le> entry then Some (vt_block_hash v)
      else quorum_scan vs (acc(vt_block_hash v := entry)) votes)"

definition find_prevote_quorum :: "ConsensusStateMachine \<Rightarrow> hash option" where
  "find_prevote_quorum m = quorum_scan (csm_validator_set m) (\<lambda>_. 0) (vote_list (csm_prevotes m))"

definition find_precommit_quorum :: "ConsensusStateMachine \<Rightarrow> hash option" where
  "find_precommit_quorum m = quorum_scan (csm_validator_set m) (\<lambda>_. 0) (vote_list (csm_precommits m))"

definition count_votes_for :: "ValidatorSet \<Rightarrow> votes \<Rightarrow> hash \<Rightarrow> u64" where
  "count_votes_for vs vm h = (\<Sum>v\<leftarrow>filter (\<lambda>v. vt_block_hash v = h) (vote_list vm). get_stake vs (vt_voter v))"

definition count_prevotes_for :: "ConsensusStateMachine \<Rightarrow> hash \<Rightarrow> u64" where
  "count_prevotes_for m h = count_votes_for (csm_validator_set m) (csm_prevotes m) h"

definition count_precommits_for :: "ConsensusStateMachine \<Rightarrow> hash \<Rightarrow> u64" where
  "count_precommits_for m h = count_votes_for (csm_validator_set m) (csm_precommits m) h"

definition has_prevote_quorum :: "ConsensusStateMachine \<Rightarrow> hash \<Rightarrow> bool" where
  "has_prevote_quorum m h \<longleftrightarrow> quorum_threshold (csm_validator_set m) \<le> count_prevotes_for m h"

definition has_precommit_quorum :: "ConsensusStateMachine \<Rightarrow> hash \<Rightarrow> bool" where
  "has_precommit_quorum m h \<longleftrightarrow> quorum_threshold (csm_validator_set m) \<le> count_precommits_for m h"

text \<open>A vote of this node for its current round; the runtime fills in the signature.\<close>

definition own_vote :: "ConsensusStateMachine \<Rightarrow> VoteType \<Rightarrow> hash \<Rightarrow> Vote" where
  "own_vote m ty h = \<lparr>vt_height = csm_height m, vt_round = csm_round m, vt_type = ty, vt_block_hash = h,
     vt_voter = csm_local_address m, vt_signature = 0\<rparr>"

subsection \<open>Handlers\<close>

definition on_proposal ::
  "Proposal \<Rightarrow> ConsensusStateMachine \<Rightarrow> (ConsensusError, ConsensusAction) result \<times> ConsensusStateMachine" where
  "on_proposal proposal m =
     (if pr_height proposal \<noteq> csm_height m then (Err (WrongHeight (csm_height m) (pr_height proposal)), m)
      else if pr_round proposal < csm_round m then (Err (WrongRound (csm_round m) (pr_round proposal)), m)
      else
        (let m = (if csm_round m < pr_round proposal then skip_to_round (pr_round proposal) m else m);
             block_hash = block_hash (pr_block proposal)
         in case current_proposer m of
              None \<Rightarrow> (Panic, m)
            | Some expected_proposer \<Rightarrow>
                (if pr_proposer proposal \<noteq> expected_proposer \<and>
                    \<not> (case csm_valid_block m of None \<Rightarrow> False | Some (_, h) \<Rightarrow> h = block_hash)
                 then (Err InvalidProposer, m)
                 else if \<not> vs_contains (csm_validator_set m) (pr_proposer proposal) then (Err NotValidator, m)
                 else
                   (let prevote_hash =
                          (case csm_locked_block m of
                             Some (_, locked_hash) \<Rightarrow> if block_hash = locked_hash then block_hash else ZERO
                           | None \<Rightarrow> block_hash);
                        m = m\<lparr>csm_proposal := Some proposal, csm_step := Prevote\<rparr>
                    in (Ok (SendPrevote (own_vote m VT_Prevote prevote_hash)), m)))))"

text \<open>What both vote handlers do with a vote for a future round, given the buffer it goes to.\<close>

definition buffer_vote :: "Vote \<Rightarrow> (u32, votes) fmap \<Rightarrow> (u32, votes) fmap option" where
  "buffer_vote vote f =
     (let round_votes = (case fmlookup f (vt_round vote) of None \<Rightarrow> fmempty | Some vm \<Rightarrow> vm) in
      if fmlookup round_votes (vt_voter vote) \<noteq> None then None
      else Some (fmupd (vt_round vote) (fmupd (vt_voter vote) vote round_votes) f))"

definition catch_up ::
  "u32 \<Rightarrow> ConsensusStateMachine \<Rightarrow> (ConsensusError, ConsensusAction option) result \<times> ConsensusStateMachine" where
  "catch_up r m =
     (if should_skip_to_round m r
      then (Ok (Some (ScheduleTimeout Propose PROPOSE_TIMEOUT_MS)), skip_to_round r m)
      else (Ok None, m))"

definition on_prevote ::
  "Vote \<Rightarrow> ConsensusStateMachine \<Rightarrow> (ConsensusError, ConsensusAction option) result \<times> ConsensusStateMachine" where
  "on_prevote vote m =
     (case validate_vote_basics m vote VT_Prevote of
        Err e \<Rightarrow> (Err e, m)
      | Panic \<Rightarrow> (Panic, m)
      | Ok _ \<Rightarrow>
          (if vt_round vote < csm_round m then (Err (WrongRound (csm_round m) (vt_round vote)), m)
           else if csm_round m < vt_round vote then
             (case buffer_vote vote (csm_future_prevotes m) of
                None \<Rightarrow> (Err DuplicateVoteError, m)
              | Some f \<Rightarrow> catch_up (vt_round vote) (m\<lparr>csm_future_prevotes := f\<rparr>))
           else if fmlookup (csm_prevotes m) (vt_voter vote) \<noteq> None then (Err DuplicateVoteError, m)
           else
             (let m = m\<lparr>csm_prevotes := fmupd (vt_voter vote) vote (csm_prevotes m)\<rparr> in
              case find_prevote_quorum m of
                None \<Rightarrow> (Ok None, m)
              | Some hash \<Rightarrow>
                  (if csm_step m = Prevote \<or> csm_step m = Propose then
                     (let m = m\<lparr>csm_step := Precommit\<rparr>;
                          m = (if \<not> is_zero hash
                               then m\<lparr>csm_locked_block := Some (csm_round m, hash),
                                      csm_valid_block := Some (csm_round m, hash),
                                      csm_valid_proposal := csm_proposal m\<rparr>
                               else m)
                      in (Ok (Some (SendPrecommit (own_vote m VT_Precommit hash))), m))
                   else (Ok None, m)))))"

definition on_precommit ::
  "Vote \<Rightarrow> ConsensusStateMachine \<Rightarrow> (ConsensusError, ConsensusAction option) result \<times> ConsensusStateMachine" where
  "on_precommit vote m =
     (case validate_vote_basics m vote VT_Precommit of
        Err e \<Rightarrow> (Err e, m)
      | Panic \<Rightarrow> (Panic, m)
      | Ok _ \<Rightarrow>
          (if vt_round vote < csm_round m then (Err (WrongRound (csm_round m) (vt_round vote)), m)
           else if csm_round m < vt_round vote then
             (case buffer_vote vote (csm_future_precommits m) of
                None \<Rightarrow> (Err DuplicateVoteError, m)
              | Some f \<Rightarrow> catch_up (vt_round vote) (m\<lparr>csm_future_precommits := f\<rparr>))
           else if fmlookup (csm_precommits m) (vt_voter vote) \<noteq> None then (Err DuplicateVoteError, m)
           else
             (let m = m\<lparr>csm_precommits := fmupd (vt_voter vote) vote (csm_precommits m)\<rparr> in
              case find_precommit_quorum m of
                None \<Rightarrow> (Ok None, m)
              | Some hash \<Rightarrow>
                  (if \<not> is_zero hash \<and> csm_step m \<noteq> Commit then
                     (let m = m\<lparr>csm_step := Commit\<rparr>;
                          proof_votes = filter (\<lambda>v. vt_block_hash v = hash) (vote_list (csm_precommits m));
                          commit_proof = \<lparr>cp_height = csm_height m, cp_round = csm_round m,
                            cp_block_hash = hash, cp_votes = proof_votes\<rparr>
                      in (Ok (Some (CommitBlock (csm_height m) hash commit_proof)), m))
                   else (Ok None, m)))))"

definition on_timeout :: "ConsensusStateMachine \<Rightarrow> ConsensusAction \<times> ConsensusStateMachine" where
  "on_timeout m =
     (case csm_step m of
        NewRound \<Rightarrow> (let m = m\<lparr>csm_step := Prevote\<rparr> in (SendPrevote (own_vote m VT_Prevote ZERO), m))
      | Propose \<Rightarrow> (let m = m\<lparr>csm_step := Prevote\<rparr> in (SendPrevote (own_vote m VT_Prevote ZERO), m))
      | Prevote \<Rightarrow> (let m = m\<lparr>csm_step := Precommit\<rparr> in (SendPrecommit (own_vote m VT_Precommit ZERO), m))
      | Precommit \<Rightarrow> start_new_round (m\<lparr>csm_round := saturating_add (csm_round m) 1\<rparr>)
      | Commit \<Rightarrow> (ScheduleTimeout Commit PROPOSE_TIMEOUT_MS, m))"

definition advance_height :: "u64 \<Rightarrow> ConsensusStateMachine \<Rightarrow> ConsensusStateMachine" where
  "advance_height new_height m =
     m\<lparr>csm_height := new_height, csm_round := 0, csm_step := NewRound, csm_proposal := None,
       csm_prevotes := fmempty, csm_precommits := fmempty, csm_locked_block := None,
       csm_valid_block := None, csm_valid_proposal := None, csm_future_prevotes := fmempty,
       csm_future_precommits := fmempty\<rparr>"

definition update_validator_set :: "ValidatorSet \<Rightarrow> ConsensusStateMachine \<Rightarrow> ConsensusStateMachine" where
  "update_validator_set new_set m = m\<lparr>csm_validator_set := new_set\<rparr>"

subsection \<open>Stake and quorums\<close>

text \<open>A set of voters counts with the sum of its stakes; a quorum is more than two thirds of the total.\<close>

locale weighted_quorum =
  fixes stake :: "'v \<Rightarrow> nat" and total_stake :: nat
  assumes bounded: "finite A \<Longrightarrow> sum stake A \<le> total_stake"
begin

lemma quorum_intersection:
  assumes "finite A" "finite B" "2 * total_stake < 3 * sum stake A" "2 * total_stake < 3 * sum stake B"
  shows "total_stake < 3 * sum stake (A \<inter> B)"
proof -
  have "sum stake A + sum stake B = sum stake (A \<union> B) + sum stake (A \<inter> B)"
    using assms(1,2) by (rule sum.union_inter [symmetric])
  moreover have "sum stake (A \<union> B) \<le> total_stake"
    using assms(1,2) by (simp add: bounded)
  ultimately show ?thesis using assms(3,4) by linarith
qed

lemma quorum_unique:
  assumes "finite A" "finite B" "A \<inter> B = {}" "2 * total_stake < 3 * sum stake A"
  shows "\<not> 2 * total_stake < 3 * sum stake B"
  using quorum_intersection [OF assms(1,2,4)] assms(3) by auto

end

abbreviation stake_of :: "ValidatorSet \<Rightarrow> address \<Rightarrow> nat" where
  "stake_of vs a \<equiv> unat (get_stake vs a)"

definition member_stake :: "ValidatorSet \<Rightarrow> nat" where
  "member_stake vs = (\<Sum>a\<in>vw_address ` set (vs_validators vs). stake_of vs a)"

lemma get_stake_stranger: "a \<notin> vw_address ` set (vs_validators vs) \<Longrightarrow> get_stake vs a = 0"
  by (auto simp: get_stake_def find_Some_iff image_iff split: option.splits)

interpretation stakes: weighted_quorum "stake_of vs" "member_stake vs" for vs
proof
  fix A :: "address set"
  assume "finite A"
  have "sum (stake_of vs) A = sum (stake_of vs) (A \<inter> vw_address ` set (vs_validators vs))"
    using \<open>finite A\<close> by (intro sum.mono_neutral_right) (auto simp: get_stake_stranger)
  also have "\<dots> \<le> member_stake vs"
    unfolding member_stake_def by (intro sum_mono2) auto
  finally show "sum (stake_of vs) A \<le> member_stake vs" .
qed

text \<open>What the constructor guarantees: distinct members, and a total that is the sum of their stakes.\<close>

definition wf_vset :: "ValidatorSet \<Rightarrow> bool" where
  "wf_vset vs \<longleftrightarrow> distinct (map vw_address (vs_validators vs)) \<and>
     unat (vs_total_stake vs) = (\<Sum>v\<leftarrow>vs_validators vs. unat (vw_stake v))"

lemma checked_total_sum: "checked_total acc vs = Some t \<Longrightarrow> unat t = unat acc + (\<Sum>v\<leftarrow>vs. unat (vw_stake v))"
  by (induction acc vs rule: checked_total.induct)
     (auto simp: checked_add_def unat_word_ariths split: option.splits if_splits)

lemma ValidatorSet_new_wf: "ValidatorSet_new validators = Ok vs \<Longrightarrow> wf_vset vs"
  by (auto simp: ValidatorSet_new_def wf_vset_def split: if_splits option.splits dest: checked_total_sum)

lemma get_stake_member:
  assumes "distinct (map vw_address (vs_validators vs))" "v \<in> set (vs_validators vs)"
  shows "get_stake vs (vw_address v) = vw_stake v"
proof -
  obtain w where w: "find (\<lambda>x. vw_address x = vw_address v) (vs_validators vs) = Some w"
    using assms(2) by (cases "find (\<lambda>x. vw_address x = vw_address v) (vs_validators vs)") (auto simp: find_None_iff)
  then have "w \<in> set (vs_validators vs)" "vw_address w = vw_address v"
    by (auto simp: find_Some_iff)
  then have "w = v"
    using assms by (metis distinct_map inj_onD)
  with w show ?thesis by (simp add: get_stake_def)
qed

lemma member_stake_total: "wf_vset vs \<Longrightarrow> member_stake vs = unat (vs_total_stake vs)"
  by (auto simp: member_stake_def wf_vset_def distinct_map sum.reindex get_stake_member sum_list_distinct_conv_sum_set
      intro!: sum.cong)

lemma unat_quorum_threshold: "unat (quorum_threshold vs) = unat (vs_total_stake vs) * 2 div 3 + 1"
  unfolding quorum_threshold_def unat_of_nat using unat_u64_bound [of "vs_total_stake vs"] by (intro mod_less) simp

lemma quorum_iff: "unat (quorum_threshold vs) \<le> n \<longleftrightarrow> 2 * unat (vs_total_stake vs) < 3 * n"
  unfolding unat_quorum_threshold by presburger

subsection \<open>The quorum search\<close>

definition backing :: "ValidatorSet \<Rightarrow> Vote list \<Rightarrow> hash \<Rightarrow> nat" where
  "backing vs votes h = (\<Sum>v\<leftarrow>filter (\<lambda>v. vt_block_hash v = h) votes. stake_of vs (vt_voter v))"

lemma backing_simps [simp]:
  "backing vs [] h = 0"
  "backing vs (v # votes) h = (if vt_block_hash v = h then stake_of vs (vt_voter v) else 0) + backing vs votes h"
  by (simp_all add: backing_def)

text \<open>A hash that the search returns is backed by a quorum, saturation or not.\<close>

lemma quorum_scan_sound:
  "quorum_scan vs acc votes = Some h \<Longrightarrow> unat (quorum_threshold vs) \<le> unat (acc h) + backing vs votes h"
proof (induction votes arbitrary: acc)
  case (Cons v votes)
  let ?entry = "saturating_add (acc (vt_block_hash v)) (get_stake vs (vt_voter v))"
  have le: "unat ?entry \<le> unat (acc (vt_block_hash v)) + stake_of vs (vt_voter v)"
    by (simp add: unat_saturating_add)
  define acc' where "acc' = acc(vt_block_hash v := ?entry)"
  have acc': "acc' h = (if h = vt_block_hash v then ?entry else acc h)"
    by (simp add: acc'_def)
  show ?case
  proof (cases "quorum_threshold vs \<le> ?entry")
    case True
    with Cons.prems le show ?thesis by (auto simp: Let_def word_le_nat_alt)
  next
    case False
    then have "quorum_scan vs acc' votes = Some h"
      using Cons.prems by (simp add: Let_def acc'_def)
    from Cons.IH [OF this] le show ?thesis
      by (auto simp: acc' split: if_splits)
  qed
qed simp

text \<open>A hash backed by a quorum makes the search succeed.\<close>

lemma quorum_scan_complete:
  assumes "unat (quorum_threshold vs) \<le> unat (acc h) + backing vs votes h" "acc h < quorum_threshold vs"
  shows "quorum_scan vs acc votes \<noteq> None"
  using assms
proof (induction votes arbitrary: acc)
  case (Cons v votes)
  let ?entry = "saturating_add (acc (vt_block_hash v)) (get_stake vs (vt_voter v))"
  define acc' where "acc' = acc(vt_block_hash v := ?entry)"
  have acc': "acc' h = (if h = vt_block_hash v then ?entry else acc h)"
    by (simp add: acc'_def)
  show ?case
  proof (cases "quorum_threshold vs \<le> ?entry")
    case False
    then have "unat ?entry < unat (quorum_threshold vs)"
      by (simp add: word_le_nat_alt)
    then have "unat ?entry = unat (acc (vt_block_hash v)) + stake_of vs (vt_voter v)"
      using unat_u64_bound [of "quorum_threshold vs"] by (simp add: unat_saturating_add min_def split: if_splits)
    with False Cons.prems Cons.IH [of acc'] have "quorum_scan vs acc' votes \<noteq> None"
      by (auto simp: acc' not_le split: if_splits)
    with False show ?thesis
      by (simp add: Let_def acc'_def)
  qed (simp add: Let_def)
qed (simp add: word_less_nat_alt)

lemma backing_voters:
  assumes "distinct (map vt_voter votes)"
  shows "backing vs votes h = sum (stake_of vs) (vt_voter ` {v \<in> set votes. vt_block_hash v = h})"
proof -
  have "distinct (map vt_voter (filter (\<lambda>v. vt_block_hash v = h) votes))"
    using assms by (rule distinct_map_filter)
  then show ?thesis
    by (simp add: backing_def distinct_map sum.reindex sum_list_distinct_conv_sum_set)
qed

lemma backing_unique:
  assumes "wf_vset vs" "distinct (map vt_voter votes)"
    and "unat (quorum_threshold vs) \<le> backing vs votes h" "unat (quorum_threshold vs) \<le> backing vs votes h'"
  shows "h = h'"
proof (rule ccontr)
  assume "h \<noteq> h'"
  then have "vt_voter ` {v \<in> set votes. vt_block_hash v = h} \<inter> vt_voter ` {v \<in> set votes. vt_block_hash v = h'} = {}"
    using assms(2) by (auto simp: distinct_map dest: inj_onD)
  then show False
    using stakes.quorum_unique [of _ "vt_voter ` {v \<in> set votes. vt_block_hash v = h'}" vs] assms
    unfolding quorum_iff backing_voters [OF assms(2)] member_stake_total [OF assms(1)] by force
qed

text \<open>With distinct voters of a well-formed set, the search finds the one hash with a quorum, in any order.\<close>

lemma quorum_scan_iff:
  assumes "wf_vset vs" "distinct (map vt_voter votes)"
  shows "quorum_scan vs (\<lambda>_. 0) votes = Some h \<longleftrightarrow> unat (quorum_threshold vs) \<le> backing vs votes h"
proof
  assume q: "unat (quorum_threshold vs) \<le> backing vs votes h"
  have "0 < quorum_threshold vs"
    by (simp add: word_less_nat_alt unat_quorum_threshold)
  then obtain h' where h': "quorum_scan vs (\<lambda>_. 0) votes = Some h'"
    using quorum_scan_complete [of vs "\<lambda>_. 0" h votes] q by auto
  then show "quorum_scan vs (\<lambda>_. 0) votes = Some h"
    using backing_unique [OF assms q] quorum_scan_sound [OF h'] by simp
qed (use quorum_scan_sound [of vs "\<lambda>_. 0"] in fastforce)

lemma quorum_scan_order:
  assumes "wf_vset vs" "distinct (map vt_voter votes)" "mset votes = mset votes'"
  shows "quorum_scan vs (\<lambda>_. 0) votes = quorum_scan vs (\<lambda>_. 0) votes'"
proof -
  have "distinct (map vt_voter votes')"
    using mset_eq_imp_distinct_iff [of "map vt_voter votes" "map vt_voter votes'"] assms(2,3) by simp
  moreover have "backing vs votes h = backing vs votes' h" for h
    using arg_cong [OF assms(3), of "\<lambda>M. \<Sum>v\<in>#filter_mset (\<lambda>v. vt_block_hash v = h) M. stake_of vs (vt_voter v)"]
    unfolding backing_def by (simp only: mset_filter [symmetric] mset_map [symmetric] sum_mset_sum_list)
  ultimately have "quorum_scan vs (\<lambda>_. 0) votes = Some h \<longleftrightarrow> quorum_scan vs (\<lambda>_. 0) votes' = Some h" for h
    using quorum_scan_iff assms(1,2) by simp
  then show ?thesis by (metis not_Some_eq)
qed

end
