(* ===== verification/Polay_Keys.thy ===== *)
theory Polay_Keys
  imports Polay_Types "HOL-Library.List_Lexorder" "HOL-Library.Sublist" "HOL-Library.Product_Lexorder"
begin

section \<open>State keys (\<^verbatim>\<open>polay-state/src/keys.rs\<close>)\<close>

text \<open>
  The key builders, byte for byte. The typed state of the model has one map per namespace, indexed by
  the arguments of the builder; the theorems here are what makes that the same as the single byte map
  of the store: different logical keys have different encodings, a prefix scan meets exactly the keys
  of its namespace and owner, and it meets them in the order of their components.
\<close>

subsection \<open>Prefix bytes\<close>

definition PREFIX_ACCOUNT :: u8 where
  "PREFIX_ACCOUNT = 1"

definition PREFIX_BALANCE :: u8 where
  "PREFIX_BALANCE = 2"

definition PREFIX_ASSET_CLASS :: u8 where
  "PREFIX_ASSET_CLASS = 3"

definition PREFIX_ASSET_BALANCE :: u8 where
  "PREFIX_ASSET_BALANCE = 4"

definition PREFIX_VALIDATOR :: u8 where
  "PREFIX_VALIDATOR = 5"

definition PREFIX_DELEGATION :: u8 where
  "PREFIX_DELEGATION = 6"

definition PREFIX_LISTING :: u8 where
  "PREFIX_LISTING = 7"

definition PREFIX_PROFILE :: u8 where
  "PREFIX_PROFILE = 8"

definition PREFIX_ACHIEVEMENT :: u8 where
  "PREFIX_ACHIEVEMENT = 9"

definition PREFIX_ATTESTOR :: u8 where
  "PREFIX_ATTESTOR = 10"

definition PREFIX_MATCH_RESULT :: u8 where
  "PREFIX_MATCH_RESULT = 11"

definition PREFIX_MATCH_SETTLEMENT :: u8 where
  "PREFIX_MATCH_SETTLEMENT = 12"

definition PREFIX_UNBONDING :: u8 where
  "PREFIX_UNBONDING = 13"

definition PREFIX_UNBONDING_INDEX :: u8 where
  "PREFIX_UNBONDING_INDEX = 14"

definition PREFIX_PROPOSAL :: u8 where
  "PREFIX_PROPOSAL = 15"

definition PREFIX_VOTE :: u8 where
  "PREFIX_VOTE = 16"

definition PREFIX_PROPOSAL_LIST :: u8 where
  "PREFIX_PROPOSAL_LIST = 17"

definition PREFIX_RECEIPT :: u8 where
  "PREFIX_RECEIPT = 18"

definition PREFIX_EVENT :: u8 where
  "PREFIX_EVENT = 19"

definition PREFIX_TX_BLOCK_INDEX :: u8 where
  "PREFIX_TX_BLOCK_INDEX = 20"

definition PREFIX_BLOCK_EVENTS :: u8 where
  "PREFIX_BLOCK_EVENTS = 21"

definition PREFIX_EPOCH :: u8 where
  "PREFIX_EPOCH = 22"

definition PREFIX_ACTIVE_VALIDATOR_SET :: u8 where
  "PREFIX_ACTIVE_VALIDATOR_SET = 23"

definition PREFIX_SESSION :: u8 where
  "PREFIX_SESSION = 24"

definition PREFIX_RENTAL :: u8 where
  "PREFIX_RENTAL = 25"

definition PREFIX_RENTAL_BY_OWNER :: u8 where
  "PREFIX_RENTAL_BY_OWNER = 26"

definition PREFIX_RENTAL_BY_RENTER :: u8 where
  "PREFIX_RENTAL_BY_RENTER = 27"

definition PREFIX_GUILD :: u8 where
  "PREFIX_GUILD = 28"

definition PREFIX_GUILD_MEMBER :: u8 where
  "PREFIX_GUILD_MEMBER = 29"

definition PREFIX_MEMBER_GUILDS :: u8 where
  "PREFIX_MEMBER_GUILDS = 30"

definition PREFIX_TOURNAMENT :: u8 where
  "PREFIX_TOURNAMENT = 31"

definition PREFIX_TOURNAMENT_PARTICIPANT :: u8 where
  "PREFIX_TOURNAMENT_PARTICIPANT = 32"

definition PREFIX_SUPPLY :: u8 where
  "PREFIX_SUPPLY = 33"

definition PREFIX_EQUIVOCATION :: u8 where
  "PREFIX_EQUIVOCATION = 34"

definition PREFIX_CHAIN_META :: u8 where
  "PREFIX_CHAIN_META = 240"

definition PREFIX_BLOCK :: u8 where
  "PREFIX_BLOCK = 241"

definition META_HEIGHT :: "u8 list" where
  "META_HEIGHT = str_bytes ''height''"

definition META_LATEST_HASH :: "u8 list" where
  "META_LATEST_HASH = str_bytes ''latest_hash''"

subsection \<open>Key builders\<close>

definition account_key :: "address \<Rightarrow> u8 list" where
  "account_key addr = PREFIX_ACCOUNT # as_bytes addr"

definition balance_key :: "address \<Rightarrow> u8 list" where
  "balance_key addr = PREFIX_BALANCE # as_bytes addr"

definition asset_class_key :: "hash \<Rightarrow> u8 list" where
  "asset_class_key ident = PREFIX_ASSET_CLASS # as_bytes ident"

definition asset_balance_key :: "hash \<Rightarrow> address \<Rightarrow> u8 list" where
  "asset_balance_key asset_class_id owner = PREFIX_ASSET_BALANCE # as_bytes asset_class_id @ as_bytes owner"

definition validator_key :: "address \<Rightarrow> u8 list" where
  "validator_key addr = PREFIX_VALIDATOR # as_bytes addr"

definition delegation_key :: "address \<Rightarrow> address \<Rightarrow> u8 list" where
  "delegation_key delegator validator = PREFIX_DELEGATION # as_bytes delegator @ as_bytes validator"

definition listing_key :: "hash \<Rightarrow> u8 list" where
  "listing_key ident = PREFIX_LISTING # as_bytes ident"

definition profile_key :: "address \<Rightarrow> u8 list" where
  "profile_key addr = PREFIX_PROFILE # as_bytes addr"

definition achievement_key :: "address \<Rightarrow> string \<Rightarrow> u8 list" where
  "achievement_key addr achievement_id = PREFIX_ACHIEVEMENT # as_bytes addr @ str_bytes achievement_id"

definition attestor_key :: "address \<Rightarrow> u8 list" where
  "attestor_key addr = PREFIX_ATTESTOR # as_bytes addr"

definition match_result_key :: "hash \<Rightarrow> u8 list" where
  "match_result_key match_id = PREFIX_MATCH_RESULT # as_bytes match_id"

definition match_settlement_key :: "hash \<Rightarrow> u8 list" where
  "match_settlement_key match_id = PREFIX_MATCH_SETTLEMENT # as_bytes match_id"

definition unbonding_key :: "address \<Rightarrow> u64 \<Rightarrow> u8 \<Rightarrow> u8 list" where
  "unbonding_key delegator completion_height index = PREFIX_UNBONDING # as_bytes delegator @ be_bytes 8 completion_height @ [index]"

definition unbonding_prefix :: "address \<Rightarrow> u8 list" where
  "unbonding_prefix delegator = PREFIX_UNBONDING # as_bytes delegator"

definition unbonding_index_key :: "u64 \<Rightarrow> address \<Rightarrow> u8 \<Rightarrow> u8 list" where
  "unbonding_index_key completion_height delegator index = PREFIX_UNBONDING_INDEX # be_bytes 8 completion_height @ as_bytes delegator @ [index]"

definition unbonding_index_prefix :: "u8 list" where
  "unbonding_index_prefix = [PREFIX_UNBONDING_INDEX]"

definition proposal_key :: "hash \<Rightarrow> u8 list" where
  "proposal_key ident = PREFIX_PROPOSAL # as_bytes ident"

definition vote_key :: "hash \<Rightarrow> address \<Rightarrow> u8 list" where
  "vote_key proposal_id voter = PREFIX_VOTE # as_bytes proposal_id @ as_bytes voter"

definition proposal_list_key :: "u8 list" where
  "proposal_list_key = [PREFIX_PROPOSAL_LIST]"

definition chain_height_key :: "u8 list" where
  "chain_height_key = PREFIX_CHAIN_META # META_HEIGHT"

definition latest_hash_key :: "u8 list" where
  "latest_hash_key = PREFIX_CHAIN_META # META_LATEST_HASH"

definition block_key :: "u64 \<Rightarrow> u8 list" where
  "block_key height = PREFIX_BLOCK # be_bytes 8 height"

definition receipt_key :: "hash \<Rightarrow> u8 list" where
  "receipt_key tx_hash = PREFIX_RECEIPT # as_bytes tx_hash"

definition tx_block_index_key :: "hash \<Rightarrow> u8 list" where
  "tx_block_index_key tx_hash = PREFIX_TX_BLOCK_INDEX # as_bytes tx_hash"

definition block_events_key :: "u64 \<Rightarrow> u8 list" where
  "block_events_key height = PREFIX_BLOCK_EVENTS # be_bytes 8 height"

definition epoch_key :: "u64 \<Rightarrow> u8 list" where
  "epoch_key epoch_number = PREFIX_EPOCH # be_bytes 8 epoch_number"

definition active_validator_set_key :: "u8 list" where
  "active_validator_set_key = [PREFIX_ACTIVE_VALIDATOR_SET]"

definition session_key :: "address \<Rightarrow> address \<Rightarrow> u8 list" where
  "session_key granter session_addr = PREFIX_SESSION # as_bytes granter @ as_bytes session_addr"

definition session_prefix :: "address \<Rightarrow> u8 list" where
  "session_prefix granter = PREFIX_SESSION # as_bytes granter"

definition rental_key :: "hash \<Rightarrow> u8 list" where
  "rental_key rental_id = PREFIX_RENTAL # as_bytes rental_id"

definition rental_by_owner_key :: "address \<Rightarrow> hash \<Rightarrow> u8 list" where
  "rental_by_owner_key owner rental_id = PREFIX_RENTAL_BY_OWNER # as_bytes owner @ as_bytes rental_id"

definition rental_by_owner_prefix :: "address \<Rightarrow> u8 list" where
  "rental_by_owner_prefix owner = PREFIX_RENTAL_BY_OWNER # as_bytes owner"

definition rental_by_renter_key :: "address \<Rightarrow> hash \<Rightarrow> u8 list" where
  "rental_by_renter_key renter rental_id = PREFIX_RENTAL_BY_RENTER # as_bytes renter @ as_bytes rental_id"

definition rental_by_renter_prefix :: "address \<Rightarrow> u8 list" where
  "rental_by_renter_prefix renter = PREFIX_RENTAL_BY_RENTER # as_bytes renter"

definition guild_key :: "hash \<Rightarrow> u8 list" where
  "guild_key guild_id = PREFIX_GUILD # as_bytes guild_id"

definition guild_member_key :: "hash \<Rightarrow> address \<Rightarrow> u8 list" where
  "guild_member_key guild_id member_addr = PREFIX_GUILD_MEMBER # as_bytes guild_id @ as_bytes member_addr"

definition guild_member_prefix :: "hash \<Rightarrow> u8 list" where
  "guild_member_prefix guild_id = PREFIX_GUILD_MEMBER # as_bytes guild_id"

definition member_guilds_key :: "address \<Rightarrow> hash \<Rightarrow> u8 list" where
  "member_guilds_key member_addr guild_id = PREFIX_MEMBER_GUILDS # as_bytes member_addr @ as_bytes guild_id"

definition member_guilds_prefix :: "address \<Rightarrow> u8 list" where
  "member_guilds_prefix member_addr = PREFIX_MEMBER_GUILDS # as_bytes member_addr"

definition tournament_key :: "hash \<Rightarrow> u8 list" where
  "tournament_key tournament_id = PREFIX_TOURNAMENT # as_bytes tournament_id"

definition tournament_participant_key :: "hash \<Rightarrow> address \<Rightarrow> u8 list" where
  "tournament_participant_key tournament_id participant = PREFIX_TOURNAMENT_PARTICIPANT # as_bytes tournament_id @ as_bytes participant"

definition tournament_participant_prefix :: "hash \<Rightarrow> u8 list" where
  "tournament_participant_prefix tournament_id = PREFIX_TOURNAMENT_PARTICIPANT # as_bytes tournament_id"

definition supply_info_key :: "u8 list" where
  "supply_info_key = [PREFIX_SUPPLY]"

definition equivocation_key :: "address \<Rightarrow> u64 \<Rightarrow> u8 list" where
  "equivocation_key validator height = PREFIX_EQUIVOCATION # as_bytes validator @ be_bytes 8 height"

definition equivocation_prefix :: "address \<Rightarrow> u8 list" where
  "equivocation_prefix validator = PREFIX_EQUIVOCATION # as_bytes validator"

subsection \<open>Logical keys\<close>

text \<open>One constructor per builder.\<close>

datatype (plugins only: size) state_key =
    K_account address
  | K_balance address
  | K_asset_class hash
  | K_asset_balance hash address
  | K_validator address
  | K_delegation address address
  | K_listing hash
  | K_profile address
  | K_achievement address string
  | K_attestor address
  | K_match_result hash
  | K_match_settlement hash
  | K_unbonding address u64 u8
  | K_unbonding_index u64 address u8
  | K_proposal hash
  | K_vote hash address
  | K_proposal_list
  | K_chain_height
  | K_latest_hash
  | K_block u64
  | K_receipt hash
  | K_tx_block_index hash
  | K_block_events u64
  | K_epoch u64
  | K_active_validator_set
  | K_session address address
  | K_rental hash
  | K_rental_by_owner address hash
  | K_rental_by_renter address hash
  | K_guild hash
  | K_guild_member hash address
  | K_member_guilds address hash
  | K_tournament hash
  | K_tournament_participant hash address
  | K_supply_info
  | K_equivocation address u64

fun encode_key :: "state_key \<Rightarrow> u8 list" where
  "encode_key (K_account x) = account_key x"
| "encode_key (K_balance x) = balance_key x"
| "encode_key (K_asset_class x) = asset_class_key x"
| "encode_key (K_asset_balance x y) = asset_balance_key x y"
| "encode_key (K_validator x) = validator_key x"
| "encode_key (K_delegation x y) = delegation_key x y"
| "encode_key (K_listing x) = listing_key x"
| "encode_key (K_profile x) = profile_key x"
| "encode_key (K_achievement x y) = achievement_key x y"
| "encode_key (K_attestor x) = attestor_key x"
| "encode_key (K_match_result x) = match_result_key x"
| "encode_key (K_match_settlement x) = match_settlement_key x"
| "encode_key (K_unbonding x y z) = unbonding_key x y z"
| "encode_key (K_unbonding_index x y z) = unbonding_index_key x y z"
| "encode_key (K_proposal x) = proposal_key x"
| "encode_key (K_vote x y) = vote_key x y"
| "encode_key K_proposal_list = proposal_list_key"
| "encode_key K_chain_height = chain_height_key"
| "encode_key K_latest_hash = latest_hash_key"
| "encode_key (K_block x) = block_key x"
| "encode_key (K_receipt x) = receipt_key x"
| "encode_key (K_tx_block_index x) = tx_block_index_key x"
| "encode_key (K_block_events x) = block_events_key x"
| "encode_key (K_epoch x) = epoch_key x"
| "encode_key K_active_validator_set = active_validator_set_key"
| "encode_key (K_session x y) = session_key x y"
| "encode_key (K_rental x) = rental_key x"
| "encode_key (K_rental_by_owner x y) = rental_by_owner_key x y"
| "encode_key (K_rental_by_renter x y) = rental_by_renter_key x y"
| "encode_key (K_guild x) = guild_key x"
| "encode_key (K_guild_member x y) = guild_member_key x y"
| "encode_key (K_member_guilds x y) = member_guilds_key x y"
| "encode_key (K_tournament x) = tournament_key x"
| "encode_key (K_tournament_participant x y) = tournament_participant_key x y"
| "encode_key K_supply_info = supply_info_key"
| "encode_key (K_equivocation x y) = equivocation_key x y"

lemmas prefix_byte_defs =
  PREFIX_ACCOUNT_def PREFIX_BALANCE_def PREFIX_ASSET_CLASS_def PREFIX_ASSET_BALANCE_def
  PREFIX_VALIDATOR_def PREFIX_DELEGATION_def PREFIX_LISTING_def PREFIX_PROFILE_def PREFIX_ACHIEVEMENT_def
  PREFIX_ATTESTOR_def PREFIX_MATCH_RESULT_def PREFIX_MATCH_SETTLEMENT_def PREFIX_UNBONDING_def
  PREFIX_UNBONDING_INDEX_def PREFIX_PROPOSAL_def PREFIX_VOTE_def PREFIX_PROPOSAL_LIST_def
  PREFIX_CHAIN_META_def PREFIX_BLOCK_def PREFIX_RECEIPT_def PREFIX_TX_BLOCK_INDEX_def
  PREFIX_BLOCK_EVENTS_def PREFIX_EPOCH_def PREFIX_ACTIVE_VALIDATOR_SET_def PREFIX_SESSION_def
  PREFIX_RENTAL_def PREFIX_RENTAL_BY_OWNER_def PREFIX_RENTAL_BY_RENTER_def PREFIX_GUILD_def
  PREFIX_GUILD_MEMBER_def PREFIX_MEMBER_GUILDS_def PREFIX_TOURNAMENT_def
  PREFIX_TOURNAMENT_PARTICIPANT_def PREFIX_SUPPLY_def PREFIX_EQUIVOCATION_def PREFIX_EVENT_def

lemmas key_defs =
  account_key_def balance_key_def asset_class_key_def asset_balance_key_def validator_key_def
  delegation_key_def listing_key_def profile_key_def achievement_key_def attestor_key_def
  match_result_key_def match_settlement_key_def unbonding_key_def unbonding_index_key_def
  proposal_key_def vote_key_def proposal_list_key_def chain_height_key_def latest_hash_key_def
  block_key_def receipt_key_def tx_block_index_key_def block_events_key_def epoch_key_def
  active_validator_set_key_def session_key_def rental_key_def rental_by_owner_key_def
  rental_by_renter_key_def guild_key_def guild_member_key_def member_guilds_key_def tournament_key_def
  tournament_participant_key_def supply_info_key_def equivocation_key_def

lemmas scan_prefix_defs =
  unbonding_prefix_def session_prefix_def rental_by_owner_prefix_def rental_by_renter_prefix_def
  guild_member_prefix_def member_guilds_prefix_def tournament_participant_prefix_def
  equivocation_prefix_def unbonding_index_prefix_def

lemma be_bytes_u64_iff [simp]: "be_bytes 8 v = be_bytes 8 w \<longleftrightarrow> v = (w :: u64)"
  by (auto dest: be_bytes_inj)

lemma str_bytes_iff [simp]: "str_bytes s = str_bytes t \<longleftrightarrow> s = t"
  by (auto dest: str_bytes_inj)

text \<open>Two keys in the same namespace agree in all components.\<close>

lemma meta_keys_differ: "META_HEIGHT \<noteq> META_LATEST_HASH"
  by (simp add: META_HEIGHT_def META_LATEST_HASH_def)

lemma encode_key_inj: "encode_key j = encode_key k \<Longrightarrow> j = k"
  by (cases j; cases k; simp add: key_defs prefix_byte_defs meta_keys_differ meta_keys_differ [symmetric])

subsection \<open>Prefix scans\<close>

lemma prefix_same_length: "length xs = length ys \<Longrightarrow> prefix xs (ys @ zs) \<longleftrightarrow> xs = ys"
  by (auto simp: prefix_def)

lemma prefix_as_bytes [simp]:
  "prefix (as_bytes a) (as_bytes b) \<longleftrightarrow> a = b" "prefix (as_bytes a) (as_bytes b @ zs) \<longleftrightarrow> a = b"
  using prefix_same_length [of "as_bytes a" "as_bytes b" "[]"] prefix_same_length [of "as_bytes a" "as_bytes b" zs]
  by simp_all

text \<open>The keys a scan of a whole namespace meets are the keys with its prefix byte.\<close>

lemma namespace_scan: "prefix [p] (encode_key k) \<longleftrightarrow> hd (encode_key k) = p"
  by (cases k) (auto simp: key_defs)

subsection \<open>Key order\<close>

text \<open>Big-endian bytes compare like the numbers they encode.\<close>

lemma append_less_iff:
  assumes "length xs = length ys"
  shows "xs @ us < ys @ vs \<longleftrightarrow> xs < ys \<or> xs = ys \<and> us < (vs :: 'a :: order list)"
  using assms by (induction xs ys rule: list_induct2) auto

lemma be_bytes_Suc: "be_bytes (Suc n) w = ucast (drop_bit (8 * n) w) # be_bytes n w"
  by (simp add: be_bytes_def upt_conv_Cons map_Suc_upt [symmetric] del: upt_Suc)

lemma digits_less_iff:
  fixes a b r s base :: nat
  assumes "r < base" "s < base"
  shows "a * base + r < b * base + s \<longleftrightarrow> a < b \<or> a = b \<and> r < s"
proof (cases a b rule: linorder_cases)
  case less
  then have "Suc a * base \<le> b * base" by (intro mult_le_mono1) simp
  with less assms show ?thesis by simp
next
  case greater
  then have "Suc b * base \<le> a * base" by (intro mult_le_mono1) simp
  with greater assms show ?thesis by simp
qed simp

lemma unat_low_bytes:
  "unat w mod 2 ^ (8 * Suc n) =
     unat (ucast (drop_bit (8 * n) w) :: u8) * 2 ^ (8 * n) + unat w mod 2 ^ (8 * n)"
proof -
  have "unat (ucast (drop_bit (8 * n) w) :: u8) = unat w div 2 ^ (8 * n) mod 256"
    unfolding unsigned_ucast_eq unat_drop_bit_eq by (simp add: take_bit_eq_mod drop_bit_eq_div)
  then show ?thesis
    by (simp add: power_add mult.commute [of 256] mod_mult2_eq)
qed

lemma be_bytes_less: "be_bytes n v < be_bytes n w \<longleftrightarrow> unat v mod 2 ^ (8 * n) < unat w mod 2 ^ (8 * n)"
proof (induction n)
  case (Suc n)
  then show ?case
    unfolding be_bytes_Suc unat_low_bytes
    by (subst digits_less_iff) (simp_all add: word_less_nat_alt word_unat_eq_iff)
qed (simp add: be_bytes_def)

lemma unat_mod_width [simp]: "unat (w :: 'a :: len word) mod 2 ^ LENGTH('a) = unat w"
  by (rule mod_less) (rule unsigned_less)

lemma be_bytes_less_u64 [simp]: "be_bytes 8 v < be_bytes 8 w \<longleftrightarrow> v < (w :: u64)"
  using unat_mod_width [of v] unat_mod_width [of w] by (simp add: be_bytes_less word_less_nat_alt)

lemma as_bytes_less [simp]: "as_bytes a < as_bytes b \<longleftrightarrow> a < b"
  using unat_mod_width [of a] unat_mod_width [of b] by (simp add: as_bytes_def be_bytes_less word_less_nat_alt)

lemma encode_key_eq_iff: "encode_key j = encode_key k \<longleftrightarrow> j = k"
  by (auto dest: encode_key_inj)

lemma scans_meet_owner:
  "prefix (unbonding_prefix a) (encode_key k) \<longleftrightarrow> (\<exists>h i. k = K_unbonding a h i)"
  "prefix unbonding_index_prefix (encode_key k) \<longleftrightarrow> (\<exists>h d i. k = K_unbonding_index h d i)"
  "prefix (session_prefix a) (encode_key k) \<longleftrightarrow> (\<exists>b. k = K_session a b)"
  "prefix (rental_by_owner_prefix a) (encode_key k) \<longleftrightarrow> (\<exists>i. k = K_rental_by_owner a i)"
  "prefix (rental_by_renter_prefix a) (encode_key k) \<longleftrightarrow> (\<exists>i. k = K_rental_by_renter a i)"
  "prefix (guild_member_prefix g) (encode_key k) \<longleftrightarrow> (\<exists>b. k = K_guild_member g b)"
  "prefix (member_guilds_prefix a) (encode_key k) \<longleftrightarrow> (\<exists>i. k = K_member_guilds a i)"
  "prefix (tournament_participant_prefix g) (encode_key k) \<longleftrightarrow> (\<exists>b. k = K_tournament_participant g b)"
  "prefix (equivocation_prefix a) (encode_key k) \<longleftrightarrow> (\<exists>h. k = K_equivocation a h)"
  by (cases k; simp add: key_defs scan_prefix_defs prefix_byte_defs eq_commute)+

lemma key_order:
  "block_key h < block_key h' \<longleftrightarrow> h < h'"
  "block_events_key h < block_events_key h' \<longleftrightarrow> h < h'"
  "epoch_key h < epoch_key h' \<longleftrightarrow> h < h'"
  "unbonding_key d h i < unbonding_key d h' i' \<longleftrightarrow> (h, i) < (h', i')"
  "unbonding_index_key h d i < unbonding_index_key h' d' i' \<longleftrightarrow> (h, d, i) < (h', d', i')"
  by (auto simp: key_defs append_less_iff)

subsection \<open>The key space\<close>


end
