(* ===== verification/Polay_Store.thy ===== *)
theory Polay_Store
  imports Polay_Keys
begin

section \<open>Key-value stores (\<^verbatim>\<open>polay-state/src/{store,overlay}.rs\<close>)\<close>

text \<open>
  The trait \<open>StateStore\<close> as a record of operations, its in-memory implementation and the write
  overlay that the parallel executor puts on top of a base store. \<open>kv_store\<close> is the contract of the
  trait's documentation; the memory store meets it, and an overlay meets it whenever its base does.
  RocksDB is code outside the repository: a store that may fail is any other record of operations.
\<close>

type_synonym bytes = "u8 list"

datatype StateError = StorageError string | SerializationError string | KeyNotFound string

subsection \<open>The trait and its typed helpers\<close>

record 's StateStore =
  get_raw :: "'s \<Rightarrow> bytes \<Rightarrow> (StateError, bytes option) result"
  put_raw :: "'s \<Rightarrow> bytes \<Rightarrow> bytes \<Rightarrow> (StateError, unit) result \<times> 's"
  delete_raw :: "'s \<Rightarrow> bytes \<Rightarrow> (StateError, unit) result \<times> 's"
  prefix_scan :: "'s \<Rightarrow> bytes \<Rightarrow> (StateError, (bytes \<times> bytes) list) result"

text \<open>
  Borsh is a parameter: \<open>try_from_slice\<close> and \<open>to_vec\<close> return a value or the text of an error.
\<close>

definition store_get ::
  "(bytes \<Rightarrow> string) \<Rightarrow> (bytes \<Rightarrow> string + 'a) \<Rightarrow> 's StateStore \<Rightarrow> 's \<Rightarrow> bytes \<Rightarrow> (StateError, 'a option) result" where
  "store_get hex_encode try_from_slice ops s key =
     (case get_raw ops s key of
        Ok (Some bs) \<Rightarrow>
          (case try_from_slice bs of
             Inl e \<Rightarrow> Err (SerializationError (''borsh decode for key '' @ hex_encode key @ '': '' @ e))
           | Inr v \<Rightarrow> Ok (Some v))
      | Ok None \<Rightarrow> Ok None
      | Err e \<Rightarrow> Err e
      | Panic \<Rightarrow> Panic)"

definition store_put ::
  "(bytes \<Rightarrow> string) \<Rightarrow> ('a \<Rightarrow> string + bytes) \<Rightarrow> 's StateStore \<Rightarrow> 's \<Rightarrow> bytes \<Rightarrow> 'a
    \<Rightarrow> (StateError, unit) result \<times> 's" where
  "store_put hex_encode to_vec ops s key v =
     (case to_vec v of
        Inl e \<Rightarrow> (Err (SerializationError (''borsh encode for key '' @ hex_encode key @ '': '' @ e)), s)
      | Inr bs \<Rightarrow> put_raw ops s key bs)"

subsection \<open>MemoryStore\<close>

record MemoryStore =
  mem_data :: "(bytes, bytes) fmap"

definition MemoryStore_new :: MemoryStore where
  "MemoryStore_new = \<lparr>mem_data = fmempty\<rparr>"

definition memory_get_raw :: "MemoryStore \<Rightarrow> bytes \<Rightarrow> (StateError, bytes option) result" where
  "memory_get_raw m key = Ok (fmlookup (mem_data m) key)"

definition memory_put_raw :: "MemoryStore \<Rightarrow> bytes \<Rightarrow> bytes \<Rightarrow> (StateError, unit) result \<times> MemoryStore" where
  "memory_put_raw m key v = (Ok (), m\<lparr>mem_data := fmupd key v (mem_data m)\<rparr>)"

definition memory_delete :: "MemoryStore \<Rightarrow> bytes \<Rightarrow> (StateError, unit) result \<times> MemoryStore" where
  "memory_delete m key = (Ok (), m\<lparr>mem_data := fmdrop key (mem_data m)\<rparr>)"

definition memory_prefix_scan :: "MemoryStore \<Rightarrow> bytes \<Rightarrow> (StateError, (bytes \<times> bytes) list) result" where
  "memory_prefix_scan m p =
     Ok (takeWhile (\<lambda>(k, _). prefix p k) (filter (\<lambda>(k, _). p \<le> k) (sorted_list_of_fmap (mem_data m))))"

definition memory_store :: "MemoryStore StateStore" where
  "memory_store = \<lparr>get_raw = memory_get_raw, put_raw = memory_put_raw, delete_raw = memory_delete,
     prefix_scan = memory_prefix_scan\<rparr>"

subsection \<open>OverlayStore\<close>

text \<open>The overlay maps a key to \<open>None\<close> as a tombstone.\<close>

record 's OverlayStore =
  ovl_base :: 's
  ovl_overlay :: "(bytes, bytes option) fmap"

definition OverlayStore_new :: "'s \<Rightarrow> 's OverlayStore" where
  "OverlayStore_new base = \<lparr>ovl_base = base, ovl_overlay = fmempty\<rparr>"

definition drain_writes :: "'s OverlayStore \<Rightarrow> (bytes, bytes option) fmap" where
  "drain_writes ov = ovl_overlay ov"

fun flush_writes :: "'s StateStore \<Rightarrow> (bytes \<times> bytes option) list \<Rightarrow> 's \<Rightarrow> (StateError, unit) result \<times> 's" where
  "flush_writes ops [] base = (Ok (), base)"
| "flush_writes ops ((key, v) # ws) base =
     (case (case v of Some d \<Rightarrow> put_raw ops base key d | None \<Rightarrow> delete_raw ops base key) of
        (Ok _, base') \<Rightarrow> flush_writes ops ws base'
      | (Err e, base') \<Rightarrow> (Err e, base')
      | (Panic, base') \<Rightarrow> (Panic, base'))"

definition flush :: "'s StateStore \<Rightarrow> 's OverlayStore \<Rightarrow> (StateError, nat) result \<times> 's" where
  "flush ops ov =
     (let writes = sorted_list_of_fmap (ovl_overlay ov) in
      case flush_writes ops writes (ovl_base ov) of
        (Ok _, base') \<Rightarrow> (Ok (length writes), base')
      | (Err e, base') \<Rightarrow> (Err e, base')
      | (Panic, base') \<Rightarrow> (Panic, base'))"

definition pending_writes :: "'s OverlayStore \<Rightarrow> nat" where
  "pending_writes ov = fcard (fmdom (ovl_overlay ov))"

definition overlay_get_raw :: "'s StateStore \<Rightarrow> 's OverlayStore \<Rightarrow> bytes \<Rightarrow> (StateError, bytes option) result" where
  "overlay_get_raw ops ov key =
     (case fmlookup (ovl_overlay ov) key of
        Some entry \<Rightarrow> Ok entry
      | None \<Rightarrow> get_raw ops (ovl_base ov) key)"

definition overlay_put_raw :: "'s OverlayStore \<Rightarrow> bytes \<Rightarrow> bytes \<Rightarrow> (StateError, unit) result \<times> 's OverlayStore" where
  "overlay_put_raw ov key v = (Ok (), ov\<lparr>ovl_overlay := fmupd key (Some v) (ovl_overlay ov)\<rparr>)"

definition overlay_delete :: "'s OverlayStore \<Rightarrow> bytes \<Rightarrow> (StateError, unit) result \<times> 's OverlayStore" where
  "overlay_delete ov key = (Ok (), ov\<lparr>ovl_overlay := fmupd key None (ovl_overlay ov)\<rparr>)"

text \<open>One iteration of the loop that lays the pending writes over the base's results.\<close>

definition overlay_entry :: "bytes \<Rightarrow> bytes \<times> bytes option \<Rightarrow> (bytes, bytes) fmap \<Rightarrow> (bytes, bytes) fmap" where
  "overlay_entry p = (\<lambda>(k, v) results.
     if prefix p k then (case v of Some d \<Rightarrow> fmupd k d results | None \<Rightarrow> fmdrop k results) else results)"

definition overlay_prefix_scan ::
  "'s StateStore \<Rightarrow> 's OverlayStore \<Rightarrow> bytes \<Rightarrow> (StateError, (bytes \<times> bytes) list) result" where
  "overlay_prefix_scan ops ov p =
     (case prefix_scan ops (ovl_base ov) p of
        Err e \<Rightarrow> Err e
      | Panic \<Rightarrow> Panic
      | Ok kvs \<Rightarrow>
          (let results = fold (\<lambda>(k, v). fmupd k v) kvs fmempty;
               results = fold (overlay_entry p) (sorted_list_of_fmap (ovl_overlay ov)) results
           in Ok (sorted_list_of_fmap results)))"

definition overlay_store :: "'s StateStore \<Rightarrow> 's OverlayStore StateStore" where
  "overlay_store ops = \<lparr>get_raw = overlay_get_raw ops, put_raw = overlay_put_raw,
     delete_raw = overlay_delete, prefix_scan = overlay_prefix_scan ops\<rparr>"

lemmas store_ops_defs = memory_store_def memory_get_raw_def memory_put_raw_def memory_delete_def
  memory_prefix_scan_def overlay_store_def overlay_get_raw_def overlay_put_raw_def overlay_delete_def
  overlay_prefix_scan_def

subsection \<open>Ordered scans\<close>

lemma keyed_list_eq: "distinct (map fst kvs) \<Longrightarrow> kvs = map (\<lambda>k. (k, the (map_of kvs k))) (map fst kvs)"
  by (rule sym) (auto simp: comp_def intro!: map_idI)

text \<open>A list in strict key order is determined by its entries.\<close>

lemma keyed_list_unique:
  fixes kvs kvs' :: "('k :: linorder \<times> 'v) list"
  assumes "sorted_wrt (<) (map fst kvs)" "sorted_wrt (<) (map fst kvs')" "set kvs = set kvs'"
  shows "kvs = kvs'"
proof -
  have d: "distinct (map fst kvs)" "distinct (map fst kvs')" and srt: "sorted (map fst kvs)" "sorted (map fst kvs')"
    using assms(1,2) by (auto simp: strict_sorted_iff)
  have "map fst kvs = map fst kvs'"
    using sorted_distinct_set_unique [OF srt(1) d(1) srt(2) d(2)] assms(3) by simp
  moreover have "map_of kvs = map_of kvs'"
    by (rule map_of_inject_set [OF d, THEN iffD2]) (rule assms(3))
  ultimately show ?thesis
    using keyed_list_eq [OF d(1)] keyed_list_eq [OF d(2)] by simp
qed

lemma scan_strictly_sorted: "sorted_wrt (<) (map fst (sorted_list_of_fmap m))"
  by (simp add: strict_sorted_iff sorted_keys_scan distinct_keys_scan)

lemma prefix_imp_le: "prefix p k \<Longrightarrow> p \<le> (k :: u8 list)"
proof (induction p arbitrary: k)
  case (Cons x p)
  then show ?case by (cases k) auto
qed simp

lemma prefix_between: "p \<le> k \<Longrightarrow> k \<le> k' \<Longrightarrow> prefix p k' \<Longrightarrow> prefix p (k :: u8 list)"
proof (induction p arbitrary: k k')
  case (Cons x p)
  then show ?case by (cases k; cases k') auto
qed simp

text \<open>Reading from the prefix on until it no longer matches finds every key with the prefix.\<close>

lemma range_scan:
  assumes "sorted_wrt (<) (map fst kvs)"
  shows "takeWhile (\<lambda>(k, _). prefix p k) (filter (\<lambda>(k, _). p \<le> (k :: u8 list)) kvs) = filter (\<lambda>(k, _). prefix p k) kvs"
  using assms
proof (induction kvs)
  case (Cons x kvs)
  obtain k v where x: "x = (k, v)" by fastforce
  show ?case
  proof (cases "p \<le> k \<and> \<not> prefix p k")
    case True
    then have "\<not> prefix p (fst y)" if "y \<in> set kvs" for y
      using that Cons.prems prefix_between [of p k "fst y"] x by (auto dest: less_imp_le)
    then have "filter (\<lambda>(k, _). prefix p k) kvs = []"
      by (auto simp: filter_empty_conv)
    then show ?thesis using True x by simp
  qed (use Cons x prefix_imp_le [of p k] in auto)
qed simp

subsection \<open>Sequences of writes\<close>

text \<open>What a client does to a store, and its effect on the map the store stands for.\<close>

datatype store_write = Put bytes bytes | Delete bytes

primrec do_write :: "'s StateStore \<Rightarrow> store_write \<Rightarrow> 's \<Rightarrow> 's" where
  "do_write ops (Put k v) s = snd (put_raw ops s k v)"
| "do_write ops (Delete k) s = snd (delete_raw ops s k)"

primrec map_write :: "store_write \<Rightarrow> (bytes \<rightharpoonup> bytes) \<Rightarrow> (bytes \<rightharpoonup> bytes)" where
  "map_write (Put k v) m = m(k \<mapsto> v)"
| "map_write (Delete k) m = m(k := None)"

text \<open>The map an overlay stands for: pending entries first, then the base.\<close>

definition overlay_contents :: "('s \<Rightarrow> bytes \<rightharpoonup> bytes) \<Rightarrow> 's OverlayStore \<Rightarrow> bytes \<rightharpoonup> bytes" where
  "overlay_contents contents ov k =
     (case fmlookup (ovl_overlay ov) k of Some entry \<Rightarrow> entry | None \<Rightarrow> contents (ovl_base ov) k)"

subsection \<open>The contract of a store\<close>

text \<open>A store that never fails, by the map it holds.\<close>

locale kv_store =
  fixes ops :: "'s StateStore" and contents :: "'s \<Rightarrow> bytes \<rightharpoonup> bytes"
  assumes get_law: "get_raw ops s k = Ok (contents s k)"
    and put_law: "fst (put_raw ops s k v) = Ok ()" "contents (snd (put_raw ops s k v)) = (contents s)(k \<mapsto> v)"
    and delete_law: "fst (delete_raw ops s k) = Ok ()" "contents (snd (delete_raw ops s k)) = (contents s)(k := None)"
    and scan_law: "\<exists>kvs. prefix_scan ops s p = Ok kvs \<and> sorted_wrt (<) (map fst kvs) \<and>
      set kvs = {(k, v). contents s k = Some v \<and> prefix p k}"
begin

text \<open>What a scan returns depends on the contents only.\<close>

lemma scan_eq:
  assumes "sorted_wrt (<) (map fst kvs)" "set kvs = {(k, v). contents s k = Some v \<and> prefix p k}"
  shows "prefix_scan ops s p = Ok kvs"
proof -
  obtain kvs' where kvs': "prefix_scan ops s p = Ok kvs'" "sorted_wrt (<) (map fst kvs')"
      "set kvs' = {(k, v). contents s k = Some v \<and> prefix p k}"
    using scan_law by blast
  have "kvs = kvs'"
    by (rule keyed_list_unique [OF assms(1) kvs'(2)]) (simp only: assms(2) kvs'(3))
  then show ?thesis by (simp add: kvs'(1))
qed

lemma same_contents_same_scan:
  "contents s = contents s' \<Longrightarrow> prefix_scan ops s p = prefix_scan ops s' p"
  using scan_law [of s' p] scan_eq [of _ s p] by auto

lemma contents_do_writes: "contents (fold (do_write ops) ws s) = fold map_write ws (contents s)"
proof (induction ws arbitrary: s)
  case (Cons w ws)
  then show ?case
    by (cases w) (simp_all only: fold_simps do_write.simps map_write.simps put_law delete_law)
qed simp

lemma flush_writes_ok:
  assumes "distinct (map fst ws)"
  shows "fst (flush_writes ops ws s) = Ok () \<and>
    contents (snd (flush_writes ops ws s)) k = (case map_of ws k of Some entry \<Rightarrow> entry | None \<Rightarrow> contents s k)"
  using assms
proof (induction ws arbitrary: s)
  case (Cons w ws)
  obtain key v s' where w: "w = (key, v)"
      and s': "(case v of Some d \<Rightarrow> put_raw ops s key d | None \<Rightarrow> delete_raw ops s key) = (Ok (), s')"
      "contents s' = (contents s)(key := v)"
    using put_law [of s "fst w"] delete_law [of s "fst w"]
    by (cases w; cases "snd w") (auto simp: prod_eq_iff)
  have "map_of ws key = None" using Cons.prems w by (auto simp: map_of_eq_None_iff)
  then show ?case
    using Cons.IH [of s'] Cons.prems s' w by (auto split: option.splits)
qed simp

lemma flush_ok:
  "\<exists>s'. flush ops ov = (Ok (pending_writes ov), s') \<and> contents s' = overlay_contents contents ov"
proof -
  let ?ws = "sorted_list_of_fmap (ovl_overlay ov)"
  note ok = flush_writes_ok [OF distinct_keys_scan, where m1 = "ovl_overlay ov", of "ovl_base ov"]
  obtain s' where s': "flush_writes ops ?ws (ovl_base ov) = (Ok (), s')"
    using ok by (cases "flush_writes ops ?ws (ovl_base ov)") auto
  moreover have "contents s' k = overlay_contents contents ov k" for k
    using ok [of k] s' by (simp add: overlay_contents_def)
  moreover have "length ?ws = pending_writes ov"
    by (simp add: pending_writes_def sorted_list_of_fmap_def sorted_list_of_fset.rep_eq fcard.rep_eq)
  ultimately show ?thesis by (auto simp: flush_def Let_def)
qed

text \<open>Reading a value back through the typed helpers.\<close>

lemma typed_read:
  assumes "to_vec v = Inr bs" "\<And>v bs. to_vec v = Inr bs \<Longrightarrow> try_from_slice bs = Inr v"
  shows "\<exists>s'. store_put hex to_vec ops s k v = (Ok (), s') \<and>
    store_get hex try_from_slice ops s' k = Ok (Some v) \<and>
    (\<forall>k'. k' \<noteq> k \<longrightarrow> get_raw ops s' k' = get_raw ops s k')"
  using assms put_law [of s k bs]
  by (cases "put_raw ops s k bs") (auto simp: store_put_def store_get_def get_law)

end

subsection \<open>Memory store and overlay meet the contract\<close>

definition memory_contents :: "MemoryStore \<Rightarrow> bytes \<rightharpoonup> bytes" where
  "memory_contents m = fmlookup (mem_data m)"

text \<open>Laying the pending writes over a map, key by key.\<close>

lemma overlay_entries_lookup:
  assumes "distinct (map fst ws)"
  shows "fmlookup (fold (overlay_entry p) ws m) k =
    (if prefix p k then (case map_of ws k of Some entry \<Rightarrow> entry | None \<Rightarrow> fmlookup m k) else fmlookup m k)"
  using assms
proof (induction ws arbitrary: m)
  case (Cons w ws)
  obtain key v where w: "w = (key, v)" by fastforce
  have "map_of ws key = None" using Cons.prems w by (auto simp: map_of_eq_None_iff)
  then show ?case
    using Cons.IH [of "overlay_entry p w m"] Cons.prems w by (auto simp: overlay_entry_def split: option.splits)
qed simp

lemma collect_lookup:
  assumes "distinct (map fst kvs)"
  shows "fmlookup (fold (\<lambda>(k, v). fmupd k v) kvs m) k = (case map_of kvs k of Some v \<Rightarrow> Some v | None \<Rightarrow> fmlookup m k)"
  using assms
proof (induction kvs arbitrary: m)
  case (Cons w kvs)
  have "map_of kvs (fst w) = None" using Cons.prems by (auto simp: map_of_eq_None_iff)
  then show ?case
    using Cons.IH [of "fmupd (fst w) (snd w) m"] Cons.prems by (cases w) (auto split: option.splits)
qed simp

lemma restricted_option: "(\<And>v. x = Some v \<longleftrightarrow> y = Some v \<and> P) \<Longrightarrow> x = (if P then y else None)"
  by (metis not_Some_eq)

text \<open>A store that an overlay may be put on.\<close>

locale base_store = kv_store
begin

lemma overlay_scan:
  "\<exists>kvs. prefix_scan (overlay_store ops) ov p = Ok kvs \<and> sorted_wrt (<) (map fst kvs) \<and>
     set kvs = {(k, v). overlay_contents contents ov k = Some v \<and> prefix p k}"
proof -
  obtain kvs where kvs: "prefix_scan ops (ovl_base ov) p = Ok kvs" "sorted_wrt (<) (map fst kvs)"
      "set kvs = {(k, v). contents (ovl_base ov) k = Some v \<and> prefix p k}"
    using scan_law by blast
  have d: "distinct (map fst kvs)" using kvs(2) by (simp add: strict_sorted_iff)
  have look: "map_of kvs k = (if prefix p k then contents (ovl_base ov) k else None)" for k
  proof -
    have "map_of kvs k = Some v \<longleftrightarrow> contents (ovl_base ov) k = Some v \<and> prefix p k" for v
      unfolding map_of_eq_Some_iff [OF d] kvs(3) by simp
    then show ?thesis by (rule restricted_option)
  qed
  let ?m = "fold (overlay_entry p) (sorted_list_of_fmap (ovl_overlay ov)) (fold (\<lambda>(k, v). fmupd k v) kvs fmempty)"
  have "fmlookup ?m k = (if prefix p k then overlay_contents contents ov k else None)" for k
    unfolding overlay_entries_lookup [OF distinct_keys_scan] collect_lookup [OF d] look overlay_contents_def
    by (cases "fmlookup (ovl_overlay ov) k") (simp_all split: option.split)
  then have "set (sorted_list_of_fmap ?m) = {(k, v). overlay_contents contents ov k = Some v \<and> prefix p k}"
    by (auto simp: set_scan split: if_splits)
  with kvs(1) show ?thesis
    by (simp add: store_ops_defs Let_def scan_strictly_sorted)
qed

end

sublocale base_store \<subseteq> ovl: kv_store "overlay_store ops" "overlay_contents contents"
proof
  show "get_raw (overlay_store ops) ov k = Ok (overlay_contents contents ov k)" for ov k
    by (simp add: store_ops_defs overlay_contents_def get_law split: option.splits)
  show "\<exists>kvs. prefix_scan (overlay_store ops) ov p = Ok kvs \<and> sorted_wrt (<) (map fst kvs) \<and>
     set kvs = {(k, v). overlay_contents contents ov k = Some v \<and> prefix p k}" for ov p
    by (rule overlay_scan)
qed (auto simp: store_ops_defs overlay_contents_def fun_eq_iff split: option.splits)

interpretation memory: base_store memory_store memory_contents
proof
  show "\<exists>kvs. prefix_scan memory_store m p = Ok kvs \<and> sorted_wrt (<) (map fst kvs) \<and>
     set kvs = {(k, v). memory_contents m k = Some v \<and> prefix p k}" for m p
  proof -
    let ?kvs = "filter (\<lambda>(k, _). prefix p k) (sorted_list_of_fmap (mem_data m))"
    have "prefix_scan memory_store m p = Ok ?kvs"
      by (simp add: store_ops_defs range_scan [OF scan_strictly_sorted])
    moreover have "sorted_wrt (<) (map fst ?kvs)"
      using scan_strictly_sorted [of "mem_data m"] by (simp add: sorted_wrt_map sorted_wrt_filter)
    moreover have "set ?kvs = {(k, v). memory_contents m k = Some v \<and> prefix p k}"
      by (auto simp: set_scan memory_contents_def)
    ultimately show ?thesis by blast
  qed
qed (auto simp: store_ops_defs memory_contents_def fun_eq_iff)

subsection \<open>Properties\<close>

lemma overlay_new_contents [simp]: "overlay_contents contents (OverlayStore_new s) = contents s"
  by (simp add: overlay_contents_def OverlayStore_new_def fun_eq_iff)

lemma overlay_keeps_base: "ovl_base (fold (do_write (overlay_store ops)) ws ov) = ovl_base ov"
proof (induction ws arbitrary: ov)
  case (Cons w ws)
  then show ?case by (cases w) (simp_all add: store_ops_defs)
qed simp

lemma memory_contents_inject: "memory_contents m = memory_contents m' \<Longrightarrow> m = m'"
  by (simp add: memory_contents_def fmlookup_inject)

text \<open>
  C13: an overlay on a store is the store with the same writes made directly. After any sequence of
  writes and deletions into a fresh overlay every read and every prefix scan answers what the directly
  written store answers, the base is untouched, and flushing turns the base into exactly that store
  and reports the number of pending writes.
\<close>

theorem overlay_refines_store:
  "let ov = fold (do_write (overlay_store memory_store)) ws (OverlayStore_new m);
       direct = fold (do_write memory_store) ws m
   in get_raw (overlay_store memory_store) ov k = get_raw memory_store direct k \<and>
      prefix_scan (overlay_store memory_store) ov p = prefix_scan memory_store direct p \<and>
      ovl_base ov = m \<and>
      flush memory_store ov = (Ok (pending_writes ov), direct)"
proof -
  let ?ov = "fold (do_write (overlay_store memory_store)) ws (OverlayStore_new m)"
  let ?direct = "fold (do_write memory_store) ws m"
  have same: "overlay_contents memory_contents ?ov = memory_contents ?direct"
    by (simp add: memory.ovl.contents_do_writes memory.contents_do_writes)
  obtain s' where s': "flush memory_store ?ov = (Ok (pending_writes ?ov), s')" "memory_contents s' = memory_contents ?direct"
    using memory.flush_ok [of ?ov] same by auto
  obtain kvs where "prefix_scan memory_store ?direct p = Ok kvs" "sorted_wrt (<) (map fst kvs)"
      "set kvs = {(k, v). memory_contents ?direct k = Some v \<and> prefix p k}"
    using memory.scan_law by blast
  then have "prefix_scan (overlay_store memory_store) ?ov p = prefix_scan memory_store ?direct p"
    using memory.ovl.scan_eq [of kvs ?ov p] same by simp
  then show ?thesis
    using s' memory_contents_inject [of s' ?direct]
    by (simp add: Let_def memory.ovl.get_law memory.get_law same overlay_keeps_base, simp add: OverlayStore_new_def)
qed

text \<open>
  typed values survive the store. With a codec whose decoder inverts its encoder, a value put
  under the key of a logical entry into an overlay is read back unchanged, and the entry of every other
  logical key reads as before.
\<close>

theorem typed_store_roundtrip:
  assumes codec: "\<And>v bs. to_vec v = Inr bs \<Longrightarrow> try_from_slice bs = Inr v" and enc: "to_vec v = Inr bs"
  shows "\<exists>ov'. store_put hex to_vec (overlay_store memory_store) ov (encode_key k) v = (Ok (), ov') \<and>
    store_get hex try_from_slice (overlay_store memory_store) ov' (encode_key k) = Ok (Some v) \<and>
    (\<forall>k'. k' \<noteq> k \<longrightarrow> store_get hex any_codec (overlay_store memory_store) ov' (encode_key k')
                     = store_get hex any_codec (overlay_store memory_store) ov (encode_key k'))"
proof -
  obtain ov' where ov': "store_put hex to_vec (overlay_store memory_store) ov (encode_key k) v = (Ok (), ov')"
      "store_get hex try_from_slice (overlay_store memory_store) ov' (encode_key k) = Ok (Some v)"
      "\<And>key. key \<noteq> encode_key k \<Longrightarrow>
        get_raw (overlay_store memory_store) ov' key = get_raw (overlay_store memory_store) ov key"
    using memory.ovl.typed_read [of to_vec v bs try_from_slice hex ov "encode_key k"] codec enc by blast
  moreover have "encode_key k' \<noteq> encode_key k" if "k' \<noteq> k" for k'
    using encode_key_inj that by blast
  ultimately show ?thesis
    by (auto simp: store_get_def)
qed

text \<open>A one-byte codec that rejects any other length, on an empty store.\<close>

definition byte_decode :: "bytes \<Rightarrow> string + u8" where
  "byte_decode bs = (case bs of [b] \<Rightarrow> Inr b | _ \<Rightarrow> Inl ''unexpected length'')"

theorem typed_store_roundtrip_witness:
  "\<exists>ov'. store_put (\<lambda>_. '''') (\<lambda>b. Inr [b]) (overlay_store memory_store) (OverlayStore_new MemoryStore_new)
       (encode_key (K_account 1)) (7 :: u8) = (Ok (), ov') \<and>
     store_get (\<lambda>_. '''') byte_decode (overlay_store memory_store) ov' (encode_key (K_account 1)) = Ok (Some 7) \<and>
     store_get (\<lambda>_. '''') byte_decode (overlay_store memory_store) ov' (encode_key (K_account 2)) = Ok None"
proof -
  have empty: "store_get (\<lambda>_. '''') byte_decode (overlay_store memory_store) (OverlayStore_new MemoryStore_new)
      (encode_key (K_account 2)) = Ok None"
    by (simp add: store_get_def store_ops_defs OverlayStore_new_def MemoryStore_new_def)
  show ?thesis
    using typed_store_roundtrip [of "\<lambda>b. Inr [b]" byte_decode 7 "[7]" "\<lambda>_. ''''" "OverlayStore_new MemoryStore_new"
        "K_account 1" byte_decode] empty
    by (auto simp: byte_decode_def dest: spec [of _ "K_account 2"])
qed

end
