(* ===== verification/Polay_Epoch.thy ===== *)
theory Polay_Epoch
  imports Polay_Ledger Polay_Config Polay_Consensus Polay_Store
begin

section \<open>Epoch rewards, slashing and validator set rotation\<close>

text \<open>
  \<^verbatim>\<open>polay-staking/src/lib.rs\<close> and \<^verbatim>\<open>polay-validator/src/epoch.rs\<close>. The staking library keeps two lists
  next to the namespaces of the chain state, under keys of its own: the registered validators and, per
  validator, its delegators. A \<open>node_store\<close> is the chain state with these lists. Operations that can fail
  return their result next to the store they leave behind.

  The lemmas show what an epoch pays out, and which validators an epoch transition selects.
\<close>

record node_store =
  ns_chain :: chain_state
  ns_validator_list :: "address list option"
  ns_delegators :: "(address, address list) fmap"

datatype StakingError = State_staking StateError | ValidatorNotFound_staking address | ArithmeticOverflow_staking

record SlashEvent =
  sl_validator :: address
  sl_amount :: u64
  sl_reason :: string
  sl_height :: u64

definition DEFAULT_JAIL_DURATION_BLOCKS :: u64 where
  "DEFAULT_JAIL_DURATION_BLOCKS = 1800"

subsection \<open>The lists\<close>

definition load_validator_list :: "node_store \<Rightarrow> address list" where
  "load_validator_list s = unwrap_or (ns_validator_list s) []"

definition register_in_validator_list :: "address \<Rightarrow> node_store \<Rightarrow> node_store" where
  "register_in_validator_list addr s =
     (let xs = load_validator_list s
      in if addr \<in> set xs then s else s\<lparr>ns_validator_list := Some (xs @ [addr])\<rparr>)"

definition get_validator_set :: "node_store \<Rightarrow> ValidatorInfo list" where
  "get_validator_set s = List.map_filter (get_validator (ns_chain s)) (load_validator_list s)"

fun checked_sum :: "u64 \<Rightarrow> u64 list \<Rightarrow> u64 option" where
  "checked_sum acc [] = Some acc"
| "checked_sum acc (x # xs) = (case checked_add acc x of None \<Rightarrow> None | Some acc' \<Rightarrow> checked_sum acc' xs)"

definition get_total_staked :: "node_store \<Rightarrow> (StakingError, u64) result" where
  "get_total_staked s =
     (case checked_sum 0 (map val_stake (get_validator_set s)) of
        None \<Rightarrow> Err ArithmeticOverflow_staking
      | Some t \<Rightarrow> Ok t)"

definition get_delegations_for_validator :: "node_store \<Rightarrow> address \<Rightarrow> Delegation list" where
  "get_delegations_for_validator s validator =
     List.map_filter (\<lambda>delegator. get_delegation (ns_chain s) delegator validator)
       (unwrap_or (fmlookup (ns_delegators s) validator) [])"

definition register_delegation :: "address \<Rightarrow> address \<Rightarrow> node_store \<Rightarrow> node_store" where
  "register_delegation validator delegator s =
     (let xs = unwrap_or (fmlookup (ns_delegators s) validator) []
      in if delegator \<in> set xs then s
         else s\<lparr>ns_delegators := fmupd validator (xs @ [delegator]) (ns_delegators s)\<rparr>)"

subsection \<open>Rewards\<close>

definition calculate_epoch_rewards :: "u64 \<Rightarrow> u64 \<Rightarrow> InflationParams \<Rightarrow> u64 \<Rightarrow> u64" where
  "calculate_epoch_rewards total_supply total_staked params epoch_length =
     (if total_supply = 0 \<or> epoch_length = 0 then 0
      else let blocks_per_year = 365 * 24 * 3600 div 2;
               epochs_per_year = blocks_per_year div epoch_length
           in if epochs_per_year = 0 then 0
              else bps_share total_supply (max (inf_initial_rate_bps params) (inf_min_rate_bps params)) div epochs_per_year)"

text \<open>A share in 128 bits: \<open>None\<close> where the multiplication overflows or the divisor is zero.\<close>

definition reward_share :: "u64 \<Rightarrow> u64 \<Rightarrow> u64 \<Rightarrow> u64 option" where
  "reward_share reward part whole =
     (if 2 ^ 128 \<le> unat reward * unat part \<or> whole = 0 then None
      else Some (ucast ((ucast reward * ucast part :: u128) div ucast whole)))"

definition eligible_delegations :: "u64 \<Rightarrow> Delegation list \<Rightarrow> Delegation list" where
  "eligible_delegations current_epoch ds = filter (\<lambda>d. 0 < del_amount d \<and> del_last_reward_epoch d < current_epoch) ds"

fun pay_delegations ::
  "u64 \<Rightarrow> u64 \<Rightarrow> Delegation list \<Rightarrow> (address \<times> u64) list \<Rightarrow> chain_state \<Rightarrow>
   (StakingError, (address \<times> u64) list) result \<times> chain_state" where
  "pay_delegations pool whole [] payouts s = (Ok payouts, s)"
| "pay_delegations pool whole (d # ds) payouts s =
     (if del_amount d = 0 then pay_delegations pool whole ds payouts s
      else case reward_share pool (del_amount d) whole of
             None \<Rightarrow> (Err ArithmeticOverflow_staking, s)
           | Some share \<Rightarrow>
               (if 0 < share
                then pay_delegations pool whole ds (payouts @ [(del_delegator d, share)]) (credited (del_delegator d) 0 share s)
                else pay_delegations pool whole ds payouts s))"

text \<open>The reward of one validator: its commission, then the shares of its delegators.\<close>

definition pay_validator ::
  "node_store \<Rightarrow> u64 \<Rightarrow> u64 \<Rightarrow> u64 \<Rightarrow> ValidatorInfo \<Rightarrow> (address \<times> u64) list \<Rightarrow> chain_state \<Rightarrow>
   (StakingError, (address \<times> u64) list) result \<times> chain_state" where
  "pay_validator store current_epoch total_reward total_stake v payouts s =
     (if val_stake v = 0 then (Ok payouts, s)
      else case reward_share total_reward (val_stake v) total_stake of
             None \<Rightarrow> (Err ArithmeticOverflow_staking, s)
           | Some validator_reward \<Rightarrow>
               (let commission = commission_on v validator_reward;
                    delegator_pool = saturating_sub validator_reward commission;
                    (payouts1, s1) =
                      (if 0 < commission then (payouts @ [(val_address v, commission)], credited (val_address v) 0 commission s)
                       else (payouts, s));
                    eligible = eligible_delegations current_epoch
                      (get_delegations_for_validator (store\<lparr>ns_chain := s1\<rparr>) (val_address v));
                    total_delegated = sum_list (map del_amount eligible)
                in if 0 < total_delegated \<and> 0 < delegator_pool
                   then pay_delegations delegator_pool total_delegated eligible payouts1 s1
                   else (Ok payouts1, s1)))"

fun pay_validators ::
  "node_store \<Rightarrow> u64 \<Rightarrow> u64 \<Rightarrow> u64 \<Rightarrow> ValidatorInfo list \<Rightarrow> (address \<times> u64) list \<Rightarrow> chain_state \<Rightarrow>
   (StakingError, (address \<times> u64) list) result \<times> chain_state" where
  "pay_validators store current_epoch total_reward total_stake [] payouts s = (Ok payouts, s)"
| "pay_validators store current_epoch total_reward total_stake (v # vs) payouts s =
     (case pay_validator store current_epoch total_reward total_stake v payouts s of
        (Ok payouts1, s1) \<Rightarrow> pay_validators store current_epoch total_reward total_stake vs payouts1 s1
      | (Err e, s1) \<Rightarrow> (Err e, s1)
      | (Panic, s1) \<Rightarrow> (Panic, s1))"

definition distribute_epoch_rewards ::
  "ValidatorInfo list \<Rightarrow> u64 \<Rightarrow> ChainConfig \<Rightarrow> node_store \<Rightarrow> (StakingError, (address \<times> u64) list) result \<times> node_store" where
  "distribute_epoch_rewards validators current_epoch config store =
     (let total_stake = sum_list (map val_stake validators)
      in if total_stake = 0 then (Ok [], store)
         else
           let supply = unwrap_or (get_supply_info (ns_chain store)) SupplyInfo_default;
               total_reward = calculate_epoch_rewards (sup_total_supply supply) total_stake
                 (cfg_inflation_params config) (cfg_epoch_length config)
           in case pay_validators store current_epoch total_reward total_stake validators [] (ns_chain store) of
                (Err e, s1) \<Rightarrow> (Err e, store\<lparr>ns_chain := s1\<rparr>)
              | (Panic, s1) \<Rightarrow> (Panic, store\<lparr>ns_chain := s1\<rparr>)
              | (Ok payouts, s1) \<Rightarrow>
                  (case checked_sum 0 (map snd payouts) of
                     None \<Rightarrow> (Err ArithmeticOverflow_staking, store\<lparr>ns_chain := s1\<rparr>)
                   | Some total_distributed \<Rightarrow>
                       (if 0 < total_distributed
                        then let supply = unwrap_or (get_supply_info s1) SupplyInfo_default;
                                 s2 = set_supply_info (recompute_circulating
                                   (supply\<lparr>sup_total_minted := saturating_add (sup_total_minted supply) total_distributed,
                                            sup_total_supply := saturating_add (sup_total_supply supply) total_distributed\<rparr>)) s1
                             in (Ok payouts, store\<lparr>ns_chain := s2\<rparr>)
                        else (Ok payouts, store\<lparr>ns_chain := s1\<rparr>))))"

subsection \<open>Slashing\<close>

text \<open>The loop over the delegations, with the total slashed so far.\<close>

fun slash_delegations :: "u16 \<Rightarrow> Delegation list \<Rightarrow> u64 \<Rightarrow> chain_state \<Rightarrow> u64 \<times> chain_state" where
  "slash_delegations fraction_bps [] acc s = (acc, s)"
| "slash_delegations fraction_bps (d # ds) acc s =
     (if del_amount d = 0 then slash_delegations fraction_bps ds acc s
      else let delegation_slash = bps_share (del_amount d) fraction_bps
           in slash_delegations fraction_bps ds (saturating_add acc delegation_slash)
                (set_delegation (d\<lparr>del_amount := saturating_sub (del_amount d) delegation_slash\<rparr>) s))"

definition process_slashing ::
  "address \<Rightarrow> u16 \<Rightarrow> string \<Rightarrow> u64 \<Rightarrow> node_store \<Rightarrow> (StakingError, SlashEvent) result \<times> node_store" where
  "process_slashing validator_addr fraction_bps reason height store =
     (case get_validator (ns_chain store) validator_addr of
        None \<Rightarrow> (Err (ValidatorNotFound_staking validator_addr), store)
      | Some v \<Rightarrow>
          (let validator_slash = bps_share (val_stake v) fraction_bps;
               v1 = jail (v\<lparr>val_stake := saturating_sub (val_stake v) validator_slash\<rparr>)
                      (saturating_add height DEFAULT_JAIL_DURATION_BLOCKS);
               v2 = (if val_stake v1 = 0 then v1\<lparr>val_status := ValidatorUnbonding\<rparr> else v1);
               s1 = set_validator v2 (ns_chain store);
               (delegation_slash_total, s2) = slash_delegations fraction_bps
                 (get_delegations_for_validator (store\<lparr>ns_chain := s1\<rparr>) validator_addr) 0 s1
           in (Ok \<lparr>sl_validator = validator_addr, sl_amount = saturating_add validator_slash delegation_slash_total,
                   sl_reason = reason, sl_height = height\<rparr>, store\<lparr>ns_chain := s2\<rparr>)))"

subsection \<open>Epoch transitions\<close>

text \<open>\<open>EpochError\<close> wraps the text of the staking error.\<close>

datatype EpochError = StateError_epoch StateError | StakingError_epoch StakingError

text \<open>\<open>is_multiple_of\<close> takes zero for a multiple of zero only.\<close>

definition is_epoch_boundary :: "ChainConfig \<Rightarrow> u64 \<Rightarrow> bool" where
  "is_epoch_boundary config height \<longleftrightarrow>
     0 < height \<and> (if cfg_epoch_length config = 0 then height = 0 else height mod cfg_epoch_length config = 0)"

definition epoch_for_height :: "ChainConfig \<Rightarrow> u64 \<Rightarrow> ('e, u64) result" where
  "epoch_for_height config height =
     (if cfg_epoch_length config = 0 then Panic else Ok (height div cfg_epoch_length config))"

fun unjail_validators :: "u64 \<Rightarrow> ValidatorInfo list \<Rightarrow> Event list \<Rightarrow> chain_state \<Rightarrow> Event list \<times> chain_state" where
  "unjail_validators height [] events s = (events, s)"
| "unjail_validators height (v # vs) events s =
     (if val_status v = ValidatorJailed \<and> (case val_jailed_until v of None \<Rightarrow> False | Some until \<Rightarrow> until \<le> height)
      then unjail_validators height vs (events @ [Event_validator_unjailed (val_address v)])
             (set_validator (v\<lparr>val_status := ValidatorActive, val_jailed_until := None\<rparr>) s)
      else unjail_validators height vs events s)"

definition select_validators :: "ChainConfig \<Rightarrow> ValidatorInfo list \<Rightarrow> ValidatorInfo list" where
  "select_validators config vs =
     take (unat (cfg_max_validators config))
       (sort_key (\<lambda>v. - uint (val_stake v))
         (filter (\<lambda>v. val_status v = ValidatorActive \<and> cfg_min_stake config \<le> val_stake v) vs))"

definition process_epoch_transition ::
  "ChainConfig \<Rightarrow> u64 \<Rightarrow> node_store \<Rightarrow> (EpochError, ValidatorSet \<times> Event list) result \<times> node_store" where
  "process_epoch_transition config height store =
     (case epoch_for_height config height of
        Err e \<Rightarrow> (Err e, store)
      | Panic \<Rightarrow> (Panic, store)
      | Ok epoch \<Rightarrow>
          (let (events1, s1) = unjail_validators height (get_validator_set store) [] (ns_chain store);
               store1 = store\<lparr>ns_chain := s1\<rparr>;
               eligible = select_validators config (get_validator_set store1);
               active_addrs = map val_address eligible
           in case ValidatorSet_new (map (\<lambda>v. \<lparr>vw_address = val_address v, vw_stake = val_stake v\<rparr>) eligible) of
                Err _ \<Rightarrow> (Panic, store1)
              | Panic \<Rightarrow> (Panic, store1)
              | Ok new_set \<Rightarrow>
                  (let store2 = store1\<lparr>ns_chain := set_active_validator_set active_addrs s1\<rparr>;
                       events2 = events1 @ [Event_validator_set_updated epoch (word_of_nat (length active_addrs))]
                   in case distribute_epoch_rewards eligible epoch config store2 of
                        (Err e, store3) \<Rightarrow> (Err (StakingError_epoch e), store3)
                      | (Panic, store3) \<Rightarrow> (Panic, store3)
                      | (Ok rewards, store3) \<Rightarrow>
                          (let total_rewards = sum_list (map snd rewards);
                               info = \<lparr>ep_epoch = epoch, ep_start_height = epoch * cfg_epoch_length config,
                                 ep_end_height = (epoch + 1) * cfg_epoch_length config - 1, ep_validator_set = active_addrs,
                                 ep_total_staked = vs_total_stake new_set, ep_rewards_distributed = total_rewards\<rparr>
                           in (Ok (new_set, events2 @ [Event_epoch_transition epoch (word_of_nat (length active_addrs))
                                     (vs_total_stake new_set) total_rewards]),
                               store3\<lparr>ns_chain := set_epoch_info info (ns_chain store3)\<rparr>)))))"

definition epoch_init_from_genesis ::
  "ChainConfig \<Rightarrow> (address \<times> u64) list \<Rightarrow> node_store \<Rightarrow> (EpochError, ValidatorSet) result \<times> node_store" where
  "epoch_init_from_genesis config genesis_validators store =
     (case ValidatorSet_new (map (\<lambda>(a, st). \<lparr>vw_address = a, vw_stake = st\<rparr>) genesis_validators) of
        Err _ \<Rightarrow> (Panic, store)
      | Panic \<Rightarrow> (Panic, store)
      | Ok vset \<Rightarrow>
          (let active = map fst genesis_validators;
               info = \<lparr>ep_epoch = 0, ep_start_height = 0, ep_end_height = cfg_epoch_length config - 1,
                 ep_validator_set = active, ep_total_staked = vs_total_stake vset, ep_rewards_distributed = 0\<rparr>
           in (Ok vset, store\<lparr>ns_chain := set_epoch_info info (set_active_validator_set active (ns_chain store))\<rparr>)))"

subsection \<open>What an epoch pays out\<close>

abbreviation paid :: "(address \<times> u64) list \<Rightarrow> nat" where
  "paid xs \<equiv> (\<Sum>(_, amount)\<leftarrow>xs. unat amount)"

lemma div_add_le: "(m :: nat) div k + n div k \<le> (m + n) div k"
  by (metis div_add1_eq le_add1)

lemma checked_sum_exact:
  "unat acc + (\<Sum>x\<leftarrow>xs. unat x) < 2 ^ 64 \<Longrightarrow>
   \<exists>t. checked_sum acc xs = Some t \<and> unat t = unat acc + (\<Sum>x\<leftarrow>xs. unat x)"
  by (induction acc xs rule: checked_sum.induct) (auto simp: checked_add_def unat_word_ariths)

lemma reward_share_exact:
  assumes "part \<le> whole" "whole \<noteq> 0"
  shows "\<exists>share. reward_share reward part whole = Some share \<and> unat share = unat reward * unat part div unat whole"
proof -
  have small: "unat reward * unat part < 2 ^ 128"
    using mult_strict_mono' [of "unat reward" "2 ^ 64" "unat part" "2 ^ 64"] unat_u64_bound [of reward] unat_u64_bound [of part]
    by simp
  have "unat reward * unat part div unat whole \<le> unat reward"
    using assms by (simp add: word_le_nat_alt unat_gt_0 div_le_mono2 div_mult_self_is_m
        less_mult_imp_div_less order_trans [OF div_le_mono [OF mult_le_mono2]] unat_eq_0)
  then have "unat reward * unat part div unat whole < 2 ^ 64"
    using unat_u64_bound [of reward] by linarith
  moreover have wide: "unat (ucast x :: u128) = unat x" for x :: u64
    using unat_u64_bound [of x] by (simp add: unat_ucast_mod)
  ultimately have "unat (ucast ((ucast reward * ucast part :: u128) div ucast whole) :: u64) = unat reward * unat part div unat whole"
    using small unat_ucast_mod [of "(ucast reward * ucast part :: u128) div ucast whole", where 'b = 64]
    by (simp add: unat_div unat_word_ariths wide)
  with small assms(2) show ?thesis
    by (simp add: reward_share_def not_le)
qed

text \<open>Payments leave everything but accounts alone.\<close>

definition only_credits :: "chain_state \<Rightarrow> (address \<times> u64) list \<Rightarrow> chain_state \<Rightarrow> bool" where
  "only_credits s new s' \<longleftrightarrow>
     wf_state s' \<and> ledger_total s' = ledger_total s + paid new \<and>
     get_supply_info s' = get_supply_info s \<and> st_delegations s' = st_delegations s"

lemma only_credits_refl: "wf_state s \<Longrightarrow> only_credits s [] s"
  by (simp add: only_credits_def)

lemma only_credits_trans: "only_credits s xs s1 \<Longrightarrow> only_credits s1 ys s2 \<Longrightarrow> only_credits s (xs @ ys) s2"
  by (simp add: only_credits_def)

lemma only_credits_credited:
  assumes "wf_state s" "ledger_total s + unat amount < 2 ^ 64"
  shows "only_credits s [(a, amount)] (credited a 0 amount s)"
  using assms credited_total [OF assms, of a 0]
  by (simp add: only_credits_def wf_intros) (simp add: state_defs)

lemma pay_delegations_effect:
  assumes "wf_state s" "whole \<noteq> 0" "\<forall>d \<in> set ds. del_amount d \<le> whole"
    and "ledger_total s + unat pool * (\<Sum>d\<leftarrow>ds. unat (del_amount d)) div unat whole < 2 ^ 64"
  shows "\<exists>new s'. pay_delegations pool whole ds payouts s = (Ok (payouts @ new), s') \<and> only_credits s new s' \<and>
    paid new \<le> unat pool * (\<Sum>d\<leftarrow>ds. unat (del_amount d)) div unat whole"
  using assms
proof (induction pool whole ds payouts s rule: pay_delegations.induct)
  case (1 pool whole payouts s)
  then show ?case by (auto intro: exI [of _ "[]"] only_credits_refl)
next
  case (2 pool whole d ds payouts s)
  let ?rest = "\<Sum>d\<leftarrow>ds. unat (del_amount d)"
  obtain share where share: "reward_share pool (del_amount d) whole = Some share"
    "unat share = unat pool * unat (del_amount d) div unat whole"
    using reward_share_exact [of "del_amount d" whole pool] "2.prems"(2,3) by auto
  have split: "unat share + unat pool * ?rest div unat whole \<le> unat pool * (\<Sum>d\<leftarrow>d # ds. unat (del_amount d)) div unat whole"
    using div_add_le [of "unat pool * unat (del_amount d)" "unat whole" "unat pool * ?rest"]
    by (simp add: share(2) distrib_left)
  consider "del_amount d = 0" | "del_amount d \<noteq> 0" "0 < share" | "del_amount d \<noteq> 0" "share = 0"
    by (auto simp: word_gt_0)
  then show ?case
  proof cases
    case 1
    with "2.IH"(1) "2.prems" show ?thesis by simp
  next
    case 2
    let ?s = "credited (del_delegator d) 0 share s"
    have credit: "only_credits s [(del_delegator d, share)] ?s"
      using "2.prems"(1,4) split by (intro only_credits_credited) simp_all
    have "ledger_total ?s + unat pool * ?rest div unat whole < 2 ^ 64"
      using credit "2.prems"(4) split by (simp add: only_credits_def)
    then obtain new s' where new: "pay_delegations pool whole ds (payouts @ [(del_delegator d, share)]) ?s = (Ok ((payouts @ [(del_delegator d, share)]) @ new), s')"
      "only_credits ?s new s'" "paid new \<le> unat pool * ?rest div unat whole"
      using "2.IH"(2) [OF 2(1) share(1) 2(2)] credit "2.prems"(2,3) by (auto simp: only_credits_def)
    have "only_credits s ((del_delegator d, share) # new) s'"
      using only_credits_trans [OF credit new(2)] by simp
    with new(1,3) split 2 share(1) show ?thesis
      by (intro exI [of _ "(del_delegator d, share) # new"] exI [of _ s']) simp
  next
    case 3
    then have "ledger_total s + unat pool * ?rest div unat whole < 2 ^ 64"
      using "2.prems"(4) split by simp
    then obtain new s' where "pay_delegations pool whole ds payouts s = (Ok (payouts @ new), s')"
      "only_credits s new s'" "paid new \<le> unat pool * ?rest div unat whole"
      using "2.IH"(3) [OF 3(1) share(1)] 3(2) "2.prems"(1-3) by auto
    with split 3 share(1) show ?thesis
      by (intro exI [of _ new] exI [of _ s']) simp
  qed
qed

lemma delegations_frame:
  "st_delegations s = st_delegations (ns_chain store) \<Longrightarrow>
   get_delegations_for_validator (store\<lparr>ns_chain := s\<rparr>) v = get_delegations_for_validator store v"
  by (simp add: get_delegations_for_validator_def get_delegation_def)

definition delegated_to :: "node_store \<Rightarrow> address \<Rightarrow> nat" where
  "delegated_to store v = (\<Sum>d\<leftarrow>get_delegations_for_validator store v. unat (del_amount d))"

lemma eligible_total:
  fixes e :: u64
  assumes "delegated_to store a < 2 ^ 64"
  defines "ds \<equiv> eligible_delegations e (get_delegations_for_validator store a)"
  shows "unat (\<Sum>d\<leftarrow>ds. del_amount d) = (\<Sum>d\<leftarrow>ds. unat (del_amount d))"
    "\<forall>d \<in> set ds. del_amount d \<le> (\<Sum>d\<leftarrow>ds. del_amount d)"
proof -
  have "(\<Sum>d\<leftarrow>filter P xs. unat (del_amount d)) \<le> (\<Sum>d\<leftarrow>xs. unat (del_amount d))" for P xs
    by (induction xs) auto
  then have "(\<Sum>d\<leftarrow>ds. unat (del_amount d)) < 2 ^ 64"
    using assms(1) unfolding ds_def eligible_delegations_def delegated_to_def by (rule le_less_trans)
  then show sum: "unat (\<Sum>d\<leftarrow>ds. del_amount d) = (\<Sum>d\<leftarrow>ds. unat (del_amount d))"
    by (rule unat_sum_u64)
  show "\<forall>d \<in> set ds. del_amount d \<le> (\<Sum>d\<leftarrow>ds. del_amount d)"
    using member_le_sum_list [of _ "map (\<lambda>d. unat (del_amount d)) ds"] by (auto simp: word_le_nat_alt sum)
qed

lemma pay_validator_effect:
  assumes wf: "wf_state s" and frame: "st_delegations s = st_delegations (ns_chain store)"
    and stake: "val_stake v \<le> total_stake" "total_stake \<noteq> 0"
    and bps: "unat (val_commission_bps v) \<le> 10000" and fits: "delegated_to store (val_address v) < 2 ^ 64"
    and room: "ledger_total s + unat reward * unat (val_stake v) div unat total_stake < 2 ^ 64"
  shows "\<exists>new s'. pay_validator store e reward total_stake v payouts s = (Ok (payouts @ new), s') \<and>
    only_credits s new s' \<and> paid new \<le> unat reward * unat (val_stake v) div unat total_stake"
proof (cases "val_stake v = 0")
  case True
  then show ?thesis
    using only_credits_refl [OF wf] by (intro exI [of _ "[]"] exI [of _ s]) (simp add: pay_validator_def)
next
  case False
  obtain r where r: "reward_share reward (val_stake v) total_stake = Some r"
    "unat r = unat reward * unat (val_stake v) div unat total_stake"
    using reward_share_exact [OF stake] by blast
  define c where "c = commission_on v r"
  define new1 where "new1 = (if 0 < c then [(val_address v, c)] else [])"
  define s1 where "s1 = (if 0 < c then credited (val_address v) 0 c s else s)"
  define ds where "ds = eligible_delegations e (get_delegations_for_validator store (val_address v))"
  define whole where "whole = (\<Sum>d\<leftarrow>ds. del_amount d)"
  have c: "c \<le> r"
    unfolding c_def commission_on_def by (rule bps_share_le [OF bps])
  have pool: "unat (saturating_sub r c) = unat r - unat c"
    by (simp add: unat_saturating_sub)
  have paid1: "paid new1 = unat c"
    by (auto simp: new1_def word_gt_0)
  have credit: "only_credits s new1 s1"
    using only_credits_credited [OF wf, of c "val_address v"] only_credits_refl [OF wf] c room r(2)
    by (auto simp: s1_def new1_def word_le_nat_alt)
  then have ds: "eligible_delegations e (get_delegations_for_validator (store\<lparr>ns_chain := s1\<rparr>) (val_address v)) = ds"
    unfolding ds_def by (subst delegations_frame) (simp_all add: only_credits_def frame)
  have run: "pay_validator store e reward total_stake v payouts s =
     (if 0 < whole \<and> 0 < saturating_sub r c
      then pay_delegations (saturating_sub r c) whole ds (payouts @ new1) s1 else (Ok (payouts @ new1), s1))"
  proof -
    have first: "(if 0 < c then (payouts @ [(val_address v, c)], credited (val_address v) 0 c s) else (payouts, s)) = (payouts @ new1, s1)"
      by (simp add: new1_def s1_def)
    show ?thesis
      using False unfolding pay_validator_def r(1) option.case Let_def c_def [symmetric] first prod.case ds whole_def by simp
  qed
  show ?thesis
  proof (cases "0 < whole \<and> 0 < saturating_sub r c")
    case True
    have sum: "(\<Sum>d\<leftarrow>ds. unat (del_amount d)) = unat whole"
      using eligible_total(1) [OF fits, of e] by (simp add: whole_def ds_def)
    have pays: "unat (saturating_sub r c) * (\<Sum>d\<leftarrow>ds. unat (del_amount d)) div unat whole = unat r - unat c"
      using True by (simp add: sum pool unat_gt_0 word_gt_0 unat_eq_0)
    have "ledger_total s1 + (unat r - unat c) < 2 ^ 64"
      using credit paid1 room r(2) c by (simp add: only_credits_def word_le_nat_alt)
    then obtain new2 s2 where new2: "pay_delegations (saturating_sub r c) whole ds (payouts @ new1) s1 = (Ok ((payouts @ new1) @ new2), s2)"
      "only_credits s1 new2 s2" "paid new2 \<le> unat r - unat c"
      using pay_delegations_effect [of s1 whole ds "saturating_sub r c" "payouts @ new1"] credit True
        eligible_total(2) [OF fits, of e] unfolding pays
      by (auto simp: only_credits_def whole_def ds_def word_gt_0)
    have "paid (new1 @ new2) \<le> unat r"
      using new2(3) paid1 c by (simp add: word_le_nat_alt)
    with new2 only_credits_trans [OF credit new2(2)] True run r(2) show ?thesis
      by (intro exI [of _ "new1 @ new2"] exI [of _ s2]) simp
  next
    case False
    with run credit paid1 c r(2) show ?thesis
      by (intro exI [of _ new1] exI [of _ s1]) (simp add: word_le_nat_alt)
  qed
qed

lemma pay_validators_effect:
  assumes "wf_state s" "st_delegations s = st_delegations (ns_chain store)" "whole \<noteq> 0"
    and "\<forall>v \<in> set vs. val_stake v \<le> whole \<and> unat (val_commission_bps v) \<le> 10000 \<and> delegated_to store (val_address v) < 2 ^ 64"
    and "ledger_total s + unat reward * (\<Sum>v\<leftarrow>vs. unat (val_stake v)) div unat whole < 2 ^ 64"
  shows "\<exists>new s'. pay_validators store e reward whole vs payouts s = (Ok (payouts @ new), s') \<and> only_credits s new s' \<and>
    paid new \<le> unat reward * (\<Sum>v\<leftarrow>vs. unat (val_stake v)) div unat whole"
  using assms
proof (induction vs arbitrary: payouts s)
  case Nil
  then show ?case by (auto intro: exI [of _ "[]"] only_credits_refl)
next
  case (Cons v vs)
  let ?rest = "unat reward * (\<Sum>v\<leftarrow>vs. unat (val_stake v)) div unat whole"
  have split: "unat reward * unat (val_stake v) div unat whole + ?rest \<le>
      unat reward * (\<Sum>v\<leftarrow>v # vs. unat (val_stake v)) div unat whole"
    using div_add_le [of "unat reward * unat (val_stake v)" "unat whole" "unat reward * (\<Sum>v\<leftarrow>vs. unat (val_stake v))"]
    by (simp add: distrib_left)
  have "ledger_total s + unat reward * unat (val_stake v) div unat whole < 2 ^ 64"
    using Cons.prems(5) split by linarith
  then obtain new1 s1 where new1: "pay_validator store e reward whole v payouts s = (Ok (payouts @ new1), s1)"
    "only_credits s new1 s1" "paid new1 \<le> unat reward * unat (val_stake v) div unat whole"
    using pay_validator_effect [of s store v whole reward e payouts] Cons.prems(1-4) by auto
  then have "ledger_total s1 + ?rest < 2 ^ 64"
    using Cons.prems(5) split by (simp only: only_credits_def)
  then obtain new2 s2 where new2: "pay_validators store e reward whole vs (payouts @ new1) s1 = (Ok ((payouts @ new1) @ new2), s2)"
    "only_credits s1 new2 s2" "paid new2 \<le> ?rest"
    using Cons.IH [of s1 "payouts @ new1"] Cons.prems(2-4) new1(2) by (auto simp: only_credits_def)
  have "paid (new1 @ new2) \<le> unat reward * (\<Sum>v\<leftarrow>v # vs. unat (val_stake v)) div unat whole"
    using new1(3) new2(3) split by simp
  with new1(1) new2(1) only_credits_trans [OF new1(2) new2(2)] show ?case
    by (intro exI [of _ "new1 @ new2"] exI [of _ s2]) simp
qed


subsection \<open>Which validators an epoch transition selects\<close>

text \<open>The parts of the state that payments do not touch.\<close>

abbreviation selection :: "chain_state \<Rightarrow> (address, ValidatorInfo) fmap \<times> address list option" where
  "selection s \<equiv> (st_validators s, st_active_validator_set s)"

lemma pay_delegations_selection: "selection (snd (pay_delegations pool whole ds payouts s)) = selection s"
  by (induction pool whole ds payouts s rule: pay_delegations.induct) (auto simp: set_account_def split: option.splits)

lemma pay_validators_selection:
  assumes "pay_validators store e reward whole vs payouts s = (r, s')"
  shows "selection s' = selection s"
proof -
  have one: "selection s1 = selection s" if "pay_validator store e reward whole v payouts s = (r, s1)" for v payouts s r s1
  proof -
    have "selection (snd (pay_validator store e reward whole v payouts s)) = selection s"
      using pay_delegations_selection by (auto simp: pay_validator_def Let_def set_account_def split: option.splits)
    then show ?thesis by (simp add: that)
  qed
  show ?thesis
    using assms
  proof (induction vs arbitrary: payouts s)
    case (Cons v vs)
    obtain r1 s1 where first: "pay_validator store e reward whole v payouts s = (r1, s1)" by fastforce
    with Cons one [OF first] show ?case by (cases r1) auto
  qed simp
qed

lemma distribute_selection:
  assumes "distribute_epoch_rewards vs e config store = (r, store')"
  shows "selection (ns_chain store') = selection (ns_chain store)"
  using assms pay_validators_selection
  by (fastforce simp: distribute_epoch_rewards_def Let_def set_supply_info_def split: if_splits prod.splits result.splits option.splits)

definition release_jail :: "u64 \<Rightarrow> ValidatorInfo \<Rightarrow> ValidatorInfo" where
  "release_jail height v =
     (if val_status v = ValidatorJailed \<and> (\<exists>until. val_jailed_until v = Some until \<and> until \<le> height)
      then v\<lparr>val_status := ValidatorActive, val_jailed_until := None\<rparr> else v)"

lemma release_jail_fields [simp]:
  "val_address (release_jail height v) = val_address v" "val_stake (release_jail height v) = val_stake v"
  by (simp_all add: release_jail_def)

lemma unjail_step:
  "\<exists>ev. unjail_validators height (v # vs) events s =
     unjail_validators height vs ev (if release_jail height v = v then s else set_validator (release_jail height v) s)"
proof (cases "val_status v = ValidatorJailed \<and> (case val_jailed_until v of None \<Rightarrow> False | Some until \<Rightarrow> until \<le> height)")
  case True
  then have "v\<lparr>val_status := ValidatorActive, val_jailed_until := None\<rparr> = release_jail height v"
    by (simp add: release_jail_def split: option.splits)
  moreover have "release_jail height v \<noteq> v"
    using True arg_cong [OF calculation, of val_status] by auto
  ultimately show ?thesis using True by auto
next
  case False
  then have "release_jail height v = v"
    by (auto simp: release_jail_def)
  with False show ?thesis by auto
qed

lemma set_map_filter: "y \<in> set (List.map_filter f xs) \<longleftrightarrow> (\<exists>x \<in> set xs. f x = Some y)"
  by (induction xs) (auto simp: map_filter_simps split: option.splits)

lemma unjail_lookup:
  assumes "\<forall>v \<in> set vs. val_address v = a \<longrightarrow> v = v0" "fmlookup (st_validators s) a = Some v0 \<or> fmlookup (st_validators s) a = Some (release_jail height v0)"
  shows "fmlookup (st_validators (snd (unjail_validators height vs events s))) a =
    (if v0 \<in> set vs \<and> val_address v0 = a then Some (release_jail height v0) else fmlookup (st_validators s) a)"
  using assms
proof (induction vs arbitrary: events s)
  case (Cons v vs)
  define s' where "s' = (if release_jail height v = v then s else set_validator (release_jail height v) s)"
  obtain ev where step: "unjail_validators height (v # vs) events s = unjail_validators height vs ev s'"
    using unjail_step [of height v vs events s] unfolding s'_def by blast
  have s': "fmlookup (st_validators s') a =
      (if val_address v = a \<and> release_jail height v \<noteq> v then Some (release_jail height v) else fmlookup (st_validators s) a)"
    by (simp add: s'_def set_validator_def)
  have IH: "fmlookup (st_validators (snd (unjail_validators height vs ev s'))) a =
      (if v0 \<in> set vs \<and> val_address v0 = a then Some (release_jail height v0) else fmlookup (st_validators s') a)"
  proof (rule Cons.IH)
    show "fmlookup (st_validators s') a = Some v0 \<or> fmlookup (st_validators s') a = Some (release_jail height v0)"
      using s' Cons.prems by (cases "val_address v = a") (simp_all split: if_splits)
  qed (use Cons.prems in simp)
  show ?case
  proof (cases "val_address v = a")
    case True
    with Cons.prems(1) have "v = v0" by simp
    with True s' Cons.prems(2) IH step show ?thesis by (auto split: if_splits)
  next
    case False
    with s' have "fmlookup (st_validators s') a = fmlookup (st_validators s) a" by simp
    with False IH step show ?thesis by auto
  qed
qed simp

lemma unjail_listed:
  assumes wf: "wf_state (ns_chain store)" and listed: "a \<in> set (load_validator_list store)"
  shows "fmlookup (st_validators (snd (unjail_validators height (get_validator_set store) events (ns_chain store)))) a =
    map_option (release_jail height) (get_validator (ns_chain store) a)"
proof -
  let ?c = "ns_chain store" and ?vs = "get_validator_set store"
  have member: "v \<in> set ?vs \<longleftrightarrow> (\<exists>b \<in> set (load_validator_list store). get_validator ?c b = Some v)" for v
    by (simp add: get_validator_set_def set_map_filter)
  note key = wf_keys(3) [OF wf]
  show ?thesis
  proof (cases "get_validator ?c a")
    case None
    have "fmlookup (st_validators (snd (unjail_validators height vs ev s))) a = fmlookup (st_validators s) a"
      if "\<forall>v \<in> set vs. val_address v \<noteq> a" for vs ev s
      using that by (induction height vs ev s rule: unjail_validators.induct) (auto simp: set_validator_def)
    moreover have "\<forall>v \<in> set ?vs. val_address v \<noteq> a"
      using None key member by (metis option.distinct(1))
    ultimately show ?thesis using None by (simp add: get_validator_def)
  next
    case (Some v0)
    have uniq: "\<forall>v \<in> set ?vs. val_address v = a \<longrightarrow> v = v0"
      using Some key member by (metis option.inject)
    have here: "v0 \<in> set ?vs \<and> val_address v0 = a"
      using Some listed key member by blast
    have look: "fmlookup (st_validators ?c) a = Some v0"
      using Some by (simp add: get_validator_def)
    have "fmlookup (st_validators (snd (unjail_validators height ?vs events ?c))) a = Some (release_jail height v0)"
      unfolding unjail_lookup [OF uniq disjI1 [OF look]] if_P [OF here] by (rule refl)
    then show ?thesis using Some by simp
  qed
qed

lemma selected_validators:
  defines "sel \<equiv> select_validators"
  shows "length (sel config vs) \<le> unat (cfg_max_validators config)"
    "v \<in> set (sel config vs) \<Longrightarrow> v \<in> set vs \<and> val_status v = ValidatorActive \<and> cfg_min_stake config \<le> val_stake v"
    "u \<in> set vs \<Longrightarrow> val_status u = ValidatorActive \<Longrightarrow> cfg_min_stake config \<le> val_stake u \<Longrightarrow> u \<notin> set (sel config vs) \<Longrightarrow>
     length (sel config vs) = unat (cfg_max_validators config) \<and> (\<forall>v \<in> set (sel config vs). val_stake u \<le> val_stake v)"
proof -
  let ?n = "unat (cfg_max_validators config)"
  define ok where "ok = filter (\<lambda>v. val_status v = ValidatorActive \<and> cfg_min_stake config \<le> val_stake v) vs"
  define xs where "xs = sort_key (\<lambda>v. - uint (val_stake v)) ok"
  have sel: "sel config vs = take ?n xs"
    by (simp add: sel_def select_validators_def xs_def ok_def)
  show "length (sel config vs) \<le> ?n" by (simp add: sel)
  show "v \<in> set (sel config vs) \<Longrightarrow> v \<in> set vs \<and> val_status v = ValidatorActive \<and> cfg_min_stake config \<le> val_stake v"
    using set_take_subset [of ?n xs] by (auto simp: sel xs_def ok_def)
  have "sorted (map (\<lambda>v. - uint (val_stake v)) xs)" by (simp add: xs_def)
  then have "sorted_wrt (\<lambda>a b. val_stake b \<le> val_stake a) (take ?n xs @ drop ?n xs)"
    unfolding append_take_drop_id by (simp add: sorted_map word_le_def)
  then have best: "val_stake u \<le> val_stake v" if "v \<in> set (take ?n xs)" "u \<in> set (drop ?n xs)" for u v
    using that unfolding sorted_wrt_append by blast
  assume u: "u \<in> set vs" "val_status u = ValidatorActive" "cfg_min_stake config \<le> val_stake u" "u \<notin> set (sel config vs)"
  then have "u \<in> set xs" by (simp add: xs_def ok_def)
  then have dropped: "u \<in> set (drop ?n xs)"
    using u(4) unfolding sel by (metis Un_iff append_take_drop_id set_append)
  then have "drop ?n xs \<noteq> []" by auto
  then have "length (sel config vs) = ?n" by (simp add: sel)
  with dropped best show "length (sel config vs) = ?n \<and> (\<forall>v \<in> set (sel config vs). val_stake u \<le> val_stake v)"
    unfolding sel by blast
qed

lemma transition_ok:
  assumes "process_epoch_transition config height store = (Ok (vset, events), store')"
  defines "s1 \<equiv> snd (unjail_validators height (get_validator_set store) [] (ns_chain store))"
  defines "eligible \<equiv> select_validators config (get_validator_set (store\<lparr>ns_chain := s1\<rparr>))"
  shows "ValidatorSet_new (map (\<lambda>v. \<lparr>vw_address = val_address v, vw_stake = val_stake v\<rparr>) eligible) = Ok vset"
    "st_validators (ns_chain store') = st_validators s1"
    "get_active_validator_set (ns_chain store') = Some (map val_address eligible)"
proof -
  obtain events1 where s1: "unjail_validators height (get_validator_set store) [] (ns_chain store) = (events1, s1)"
    unfolding s1_def by (metis prod.collapse)
  let ?weights = "map (\<lambda>v. \<lparr>vw_address = val_address v, vw_stake = val_stake v\<rparr>) eligible"
  let ?store2 = "store\<lparr>ns_chain := set_active_validator_set (map val_address eligible) s1\<rparr>"
  obtain epoch where epoch: "epoch_for_height config height = (Ok epoch :: (EpochError, u64) result)"
    using assms(1) by (cases "epoch_for_height config height :: (EpochError, u64) result") (simp_all add: process_epoch_transition_def)
  note run = assms(1) [unfolded process_epoch_transition_def epoch result.case s1 prod.case Let_def, folded eligible_def]
  show vset: "ValidatorSet_new ?weights = Ok vset"
    using run by (auto split: result.splits prod.splits)
  obtain rewards store3 where "distribute_epoch_rewards eligible epoch config ?store2 = (Ok rewards, store3)"
    "selection (ns_chain store') = selection (ns_chain store3)"
    using run vset by (auto simp: set_epoch_info_def split: result.splits prod.splits)
  with distribute_selection show "st_validators (ns_chain store') = st_validators s1"
    "get_active_validator_set (ns_chain store') = Some (map val_address eligible)"
    by (fastforce simp: set_active_validator_set_def get_active_validator_set_def)+
qed


text \<open>A store with one validator whose jail term ends at height 50, and one with a supply to inflate.\<close>

definition jailed_validator :: ValidatorInfo where
  "jailed_validator = \<lparr>val_address = 7, val_stake = 2000000, val_commission_bps = 500, val_status = ValidatorJailed,
     val_jailed_until = Some 50, val_blocks_produced = 0\<rparr>"

definition jailed_state :: chain_state where
  "jailed_state = set_validator jailed_validator sample_state"

definition epoch_store :: "chain_state \<Rightarrow> node_store" where
  "epoch_store s = \<lparr>ns_chain = s, ns_validator_list = Some [7], ns_delegators = fmempty\<rparr>"

lemma jailed_state_facts:
  "wf_state jailed_state" "ledger_total jailed_state = 1500" "get_supply_info jailed_state = None"
  "get_validator jailed_state 7 = Some jailed_validator"
  by (simp_all add: jailed_state_def wf_intros sample_total)
     (simp_all add: state_defs sample_state_def empty_state_def jailed_validator_def)

lemma epoch_store_facts [simp]:
  "ns_chain (epoch_store s) = s" "load_validator_list (epoch_store s) = [7]" "delegated_to (epoch_store s) a = 0"
  by (simp_all add: epoch_store_def load_validator_list_def delegated_to_def get_delegations_for_validator_def map_filter_simps)



end
