(* ===== verification/Polay_Merkle.thy ===== *)
theory Polay_Merkle
  imports Polay_Store
begin

section \<open>State commitments (\<^verbatim>\<open>polay-state/src/merkle.rs, polay-crypto/src/hash.rs\<close>)\<close>

text \<open>
  The sorted Merkle tree over key-value pairs, its inclusion proofs and the state root, and the
  transactions root of the crypto crate. SHA-256 is a parameter. Inclusion proofs always verify; the
  state root depends on twelve of the namespaces only.
\<close>

subsection \<open>Transactions root\<close>

definition DOMAIN_MERKLE :: bytes where
  "DOMAIN_MERKLE = str_bytes ''POLAY-MKL:''"

text \<open>One level: pairs are hashed, an unpaired last node is promoted.\<close>

fun combine_level :: "(bytes \<Rightarrow> hash) \<Rightarrow> hash list \<Rightarrow> hash list" where
  "combine_level sha256 (a # b # level) =
     sha256 (DOMAIN_MERKLE @ as_bytes a @ as_bytes b) # combine_level sha256 level"
| "combine_level sha256 level = level"

lemma length_combine_level [simp]: "length (combine_level sha level) = (length level + 1) div 2"
  by (induction sha level rule: combine_level.induct) auto

function merkle_levels :: "(bytes \<Rightarrow> hash) \<Rightarrow> hash list \<Rightarrow> hash" where
  "merkle_levels sha256 level =
     (if 1 < length level then merkle_levels sha256 (combine_level sha256 level) else hd level)"
  by auto
termination by (relation "measure (\<lambda>(_, level). length level)") auto

declare merkle_levels.simps [simp del]

definition merkle_root :: "(bytes \<Rightarrow> hash) \<Rightarrow> hash list \<Rightarrow> hash" where
  "merkle_root sha256 hashes =
     (if hashes = [] then ZERO else if length hashes = 1 then hd hashes else merkle_levels sha256 hashes)"

subsection \<open>The Merkle tree\<close>

datatype Side = Left | Right

record MerkleProof =
  mp_leaf :: hash
  mp_siblings :: "(hash \<times> Side) list"
  mp_root :: hash

record MerkleTree =
  mt_leaves :: "hash list"

definition MerkleTree_new :: MerkleTree where
  "MerkleTree_new = \<lparr>mt_leaves = []\<rparr>"

definition merkle_insert :: "(bytes \<Rightarrow> hash) \<Rightarrow> bytes \<Rightarrow> bytes \<Rightarrow> MerkleTree \<Rightarrow> MerkleTree" where
  "merkle_insert sha256 key v tree = tree\<lparr>mt_leaves := mt_leaves tree @ [sha256 (key @ v)]\<rparr>"

definition hash_pair :: "(bytes \<Rightarrow> hash) \<Rightarrow> hash \<Rightarrow> hash \<Rightarrow> hash" where
  "hash_pair sha256 left right = sha256 (as_bytes left @ as_bytes right)"

definition pad_layer :: "hash list \<Rightarrow> hash list" where
  "pad_layer layer = (if odd (length layer) then layer @ [last layer] else layer)"

text \<open>The chunks of two of a layer of even length.\<close>

fun hash_chunks :: "(bytes \<Rightarrow> hash) \<Rightarrow> hash list \<Rightarrow> hash list" where
  "hash_chunks sha256 (a # b # layer) = hash_pair sha256 a b # hash_chunks sha256 layer"
| "hash_chunks sha256 _ = []"

definition hash_layer :: "(bytes \<Rightarrow> hash) \<Rightarrow> hash list \<Rightarrow> hash list" where
  "hash_layer sha256 layer = hash_chunks sha256 (pad_layer layer)"

lemma length_hash_chunks [simp]: "length (hash_chunks sha layer) = length layer div 2"
  by (induction sha layer rule: hash_chunks.induct) auto

lemma length_pad_layer: "length (pad_layer layer) = 2 * ((length layer + 1) div 2)"
  by (cases "odd (length layer)") (auto simp: pad_layer_def elim!: oddE evenE)

lemma length_hash_layer [simp]: "length (hash_layer sha layer) = (length layer + 1) div 2"
  by (simp add: hash_layer_def length_pad_layer)

function root_loop :: "(bytes \<Rightarrow> hash) \<Rightarrow> hash list \<Rightarrow> hash" where
  "root_loop sha256 layer = (if 1 < length layer then root_loop sha256 (hash_layer sha256 layer) else hd layer)"
  by auto
termination by (relation "measure (\<lambda>(_, layer). length layer)") auto

declare root_loop.simps [simp del]

definition sorted_leaves :: "MerkleTree \<Rightarrow> hash list" where
  "sorted_leaves tree = sort (mt_leaves tree)"

definition tree_root :: "(bytes \<Rightarrow> hash) \<Rightarrow> MerkleTree \<Rightarrow> hash" where
  "tree_root sha256 tree = (if mt_leaves tree = [] then ZERO else root_loop sha256 (sorted_leaves tree))"

text \<open>The loop of \<open>proof\<close>: the siblings on the way up, and the root it ends with.\<close>

function proof_loop :: "(bytes \<Rightarrow> hash) \<Rightarrow> hash list \<Rightarrow> nat \<Rightarrow> (hash \<times> Side) list \<times> hash" where
  "proof_loop sha256 layer idx =
     (if 1 < length layer then
        (let layer = pad_layer layer;
             sibling_idx = (if even idx then idx + 1 else idx - 1);
             side = (if even idx then Right else Left);
             (siblings, root) = proof_loop sha256 (hash_chunks sha256 layer) (idx div 2)
         in ((layer ! sibling_idx, side) # siblings, root))
      else ([], hd layer))"
  by auto
termination by (relation "measure (\<lambda>(_, layer, _). length layer)") (auto simp: length_pad_layer)

declare proof_loop.simps [simp del]

definition tree_proof :: "(bytes \<Rightarrow> hash) \<Rightarrow> MerkleTree \<Rightarrow> nat \<Rightarrow> MerkleProof option" where
  "tree_proof sha256 tree index =
     (if length (mt_leaves tree) \<le> index then None
      else
        (let srtd = sorted_leaves tree;
             (siblings, root) = proof_loop sha256 srtd index
         in Some \<lparr>mp_leaf = srtd ! index, mp_siblings = siblings, mp_root = root\<rparr>))"

definition proof_step :: "(bytes \<Rightarrow> hash) \<Rightarrow> hash \<times> Side \<Rightarrow> hash \<Rightarrow> hash" where
  "proof_step sha256 = (\<lambda>(sibling, side) current.
     case side of Left \<Rightarrow> hash_pair sha256 sibling current | Right \<Rightarrow> hash_pair sha256 current sibling)"

definition verify_proof :: "(bytes \<Rightarrow> hash) \<Rightarrow> hash \<Rightarrow> hash \<Rightarrow> MerkleProof \<Rightarrow> bool" where
  "verify_proof sha256 root leaf prf \<longleftrightarrow> fold (proof_step sha256) (mp_siblings prf) leaf = root"

subsection \<open>State root\<close>

record StateCommitment =
  sc_root :: hash
  sc_entry_count :: u64

definition STATE_PREFIXES :: "u8 list" where
  "STATE_PREFIXES = [PREFIX_ACCOUNT, PREFIX_BALANCE, PREFIX_ASSET_CLASS, PREFIX_ASSET_BALANCE, PREFIX_VALIDATOR,
     PREFIX_DELEGATION, PREFIX_LISTING, PREFIX_PROFILE, PREFIX_ACHIEVEMENT, PREFIX_ATTESTOR,
     PREFIX_MATCH_RESULT, PREFIX_MATCH_SETTLEMENT]"

fun collect_entries :: "(bytes \<Rightarrow> hash) \<Rightarrow> 's StateStore \<Rightarrow> 's \<Rightarrow> u8 list \<Rightarrow> MerkleTree \<Rightarrow> (StateError, MerkleTree) result" where
  "collect_entries sha256 ops s [] tree = Ok tree"
| "collect_entries sha256 ops s (p # ps) tree =
     (case prefix_scan ops s [p] of
        Ok entries \<Rightarrow> collect_entries sha256 ops s ps (fold (\<lambda>(key, v). merkle_insert sha256 key v) entries tree)
      | Err e \<Rightarrow> Err e
      | Panic \<Rightarrow> Panic)"

definition compute_state_root :: "(bytes \<Rightarrow> hash) \<Rightarrow> 's StateStore \<Rightarrow> 's \<Rightarrow> (StateError, StateCommitment) result" where
  "compute_state_root sha256 ops s =
     (case collect_entries sha256 ops s STATE_PREFIXES MerkleTree_new of
        Ok tree \<Rightarrow> Ok \<lparr>sc_root = tree_root sha256 tree, sc_entry_count = word_of_nat (length (mt_leaves tree))\<rparr>
      | Err e \<Rightarrow> Err e
      | Panic \<Rightarrow> Panic)"

subsection \<open>Inclusion proofs\<close>

lemma nth_hash_chunks:
  "i < length layer div 2 \<Longrightarrow> hash_chunks sha layer ! i = hash_pair sha (layer ! (2 * i)) (layer ! Suc (2 * i))"
proof (induction sha layer arbitrary: i rule: hash_chunks.induct)
  case (1 sha a b layer)
  then show ?case by (cases i) auto
qed auto

lemma nth_pad_layer: "i < length layer \<Longrightarrow> pad_layer layer ! i = layer ! i"
  by (simp add: pad_layer_def nth_append)

text \<open>Following the siblings from any leaf of a layer ends at the root of the layer.\<close>

lemma proof_loop_correct:
  "idx < length layer \<Longrightarrow> proof_loop sha layer idx = (siblings, root) \<Longrightarrow>
     root = root_loop sha layer \<and> fold (proof_step sha) siblings (layer ! idx) = root"
proof (induction sha layer idx arbitrary: siblings rule: proof_loop.induct)
  case (1 sha layer idx)
  show ?case
  proof (cases "1 < length layer")
    case True
    let ?padded = "pad_layer layer" and ?next = "hash_layer sha layer"
    obtain sibs where rec: "proof_loop sha ?next (idx div 2) = (sibs, root)"
      and sibs: "siblings = (?padded ! (if even idx then idx + 1 else idx - 1), if even idx then Right else Left) # sibs"
      using True 1(3) by (subst (asm) proof_loop.simps) (auto simp: Let_def hash_layer_def split: prod.splits)
    have small: "idx div 2 < length ?next" "idx div 2 < length ?padded div 2"
      using 1(2) by (auto simp: length_pad_layer)
    have "proof_step sha (hd siblings) (layer ! idx) = ?next ! (idx div 2)"
      using nth_hash_chunks [OF small(2), of sha] nth_pad_layer [OF 1(2)]
      by (cases "even idx") (auto simp: sibs proof_step_def hash_layer_def elim!: evenE oddE)
    moreover have "root = root_loop sha ?next \<and> fold (proof_step sha) sibs (?next ! (idx div 2)) = root"
      using 1(1) [OF True refl refl refl, of sibs] rec small(1) by (simp add: hash_layer_def)
    ultimately show ?thesis
      using True by (subst root_loop.simps) (simp add: sibs)
  next
    case False
    with 1(2,3) show ?thesis
      by (cases layer) (auto simp: proof_loop.simps root_loop.simps)
  qed
qed

text \<open>
  C15: inclusion proofs. For every position of the sorted leaves, and for no other, the tree yields a
  proof; the proof names the leaf at this position and the root of the tree, and verifies against them.
\<close>

theorem merkle_proof_roundtrip:
  "case tree_proof sha tree i of
     None \<Rightarrow> length (mt_leaves tree) \<le> i
   | Some prf \<Rightarrow> i < length (mt_leaves tree) \<and> mp_leaf prf = sorted_leaves tree ! i \<and> mp_root prf = tree_root sha tree \<and>
       verify_proof sha (tree_root sha tree) (mp_leaf prf) prf"
proof (cases "i < length (mt_leaves tree)")
  case True
  obtain siblings root where run: "proof_loop sha (sorted_leaves tree) i = (siblings, root)" by fastforce
  moreover from proof_loop_correct [OF _ run] True
  have "root = root_loop sha (sorted_leaves tree) \<and> fold (proof_step sha) siblings (sorted_leaves tree ! i) = root"
    by (simp add: sorted_leaves_def)
  ultimately show ?thesis
    using True by (auto simp: tree_proof_def tree_root_def verify_proof_def Let_def)
qed (simp add: tree_proof_def)

subsection \<open>What the state root sees\<close>

context kv_store
begin

lemma scan_agree:
  assumes "\<And>k. prefix p k \<Longrightarrow> contents s k = contents s' k"
  shows "prefix_scan ops s p = prefix_scan ops s' p"
proof -
  obtain kvs where kvs: "prefix_scan ops s' p = Ok kvs" "sorted_wrt (<) (map fst kvs)"
      "set kvs = {(k, v). contents s' k = Some v \<and> prefix p k}"
    using scan_law by blast
  have "set kvs = {(k, v). contents s k = Some v \<and> prefix p k}"
    unfolding kvs(3) using assms by auto
  then show ?thesis
    using scan_eq [OF kvs(2)] kvs(1) by simp
qed

lemma collect_agree:
  assumes "\<And>p k. p \<in> set ps \<Longrightarrow> prefix [p] k \<Longrightarrow> contents s k = contents s' k"
  shows "collect_entries sha ops s ps tree = collect_entries sha ops s' ps tree"
  using assms
proof (induction ps arbitrary: tree)
  case (Cons p ps)
  have "prefix_scan ops s [p] = prefix_scan ops s' [p]"
    using Cons.prems by (intro scan_agree) auto
  with Cons show ?case by (auto split: result.splits)
qed simp

lemma root_agree:
  assumes "\<And>p k. p \<in> set STATE_PREFIXES \<Longrightarrow> contents s (p # k) = contents s' (p # k)"
  shows "compute_state_root sha ops s = compute_state_root sha ops s'"
proof -
  have "collect_entries sha ops s STATE_PREFIXES MerkleTree_new = collect_entries sha ops s' STATE_PREFIXES MerkleTree_new"
    by (rule collect_agree) (auto simp: prefix_def assms)
  then show ?thesis by (simp add: compute_state_root_def)
qed

end



end
