(* ===== verification/Polay_Crypto.thy ===== *)
theory Polay_Crypto
  imports Polay_Merkle
begin

section \<open>Transaction and block hashes, signatures (\<^verbatim>\<open>polay-crypto\<close>)\<close>

text \<open>
  Domain-separated hashes, signing and verification of transactions, and block assembly
  (\<^verbatim>\<open>polay-crypto/src/{hash,transaction,public_key,keypair}.rs\<close>,
  \<^verbatim>\<open>polay-consensus/src/proposer.rs\<close>). SHA-256, Borsh and Ed25519 are a record of functions; a key is
  its 32 bytes. Where these libraries return an error the model has its text.
\<close>

record crypto =
  cx_sha256 :: "bytes \<Rightarrow> hash"
  cx_tx_bytes :: "Transaction \<Rightarrow> string + bytes"
  cx_header_bytes :: "BlockHeader \<Rightarrow> bytes"
  cx_public :: "bytes \<Rightarrow> bytes"
  cx_sign :: "bytes \<Rightarrow> bytes \<Rightarrow> signature"
  cx_key_error :: "bytes \<Rightarrow> string option"
  cx_verify_error :: "bytes \<Rightarrow> bytes \<Rightarrow> signature \<Rightarrow> string option"

text \<open>
  An error carries a text: the one of the library that failed, or a formatted message, of which the model
  keeps the printed values.
\<close>

datatype crypto_message =
    library_message string
  | derives_address address address
  | hash_mismatch hash hash

datatype CryptoError =
    InvalidSignature_crypto crypto_message
  | InvalidPublicKey crypto_message
  | InvalidSecretKey crypto_message
  | HashError crypto_message
  | SerializationError_crypto crypto_message

subsection \<open>Hashes\<close>

definition DOMAIN_TX :: bytes where
  "DOMAIN_TX = str_bytes ''POLAY-TX:''"

definition DOMAIN_BLOCK :: bytes where
  "DOMAIN_BLOCK = str_bytes ''POLAY-BLK:''"

definition hash_transaction :: "crypto \<Rightarrow> Transaction \<Rightarrow> (CryptoError, hash) result" where
  "hash_transaction cx tx =
     (case cx_tx_bytes cx tx of
        Inl e \<Rightarrow> Err (HashError (library_message e))
      | Inr bs \<Rightarrow> Ok (cx_sha256 cx (DOMAIN_TX @ bs)))"

definition hash_input_bytes :: "crypto \<Rightarrow> BlockHeader \<Rightarrow> bytes" where
  "hash_input_bytes cx header = cx_header_bytes cx (header\<lparr>bh_hash := ZERO\<rparr>)"

definition hash_block_header :: "crypto \<Rightarrow> BlockHeader \<Rightarrow> (CryptoError, hash) result" where
  "hash_block_header cx header = Ok (cx_sha256 cx (DOMAIN_BLOCK @ hash_input_bytes cx header))"

subsection \<open>Keys\<close>

definition PublicKey_from_bytes :: "crypto \<Rightarrow> bytes \<Rightarrow> (CryptoError, bytes) result" where
  "PublicKey_from_bytes cx bs = (case cx_key_error cx bs of Some e \<Rightarrow> Err (InvalidPublicKey (library_message e)) | None \<Rightarrow> Ok bs)"

definition PublicKey_verify :: "crypto \<Rightarrow> bytes \<Rightarrow> bytes \<Rightarrow> signature \<Rightarrow> (CryptoError, unit) result" where
  "PublicKey_verify cx pubkey message sig =
     (case cx_verify_error cx pubkey message sig of Some e \<Rightarrow> Err (InvalidSignature_crypto (library_message e)) | None \<Rightarrow> Ok ())"

definition PublicKey_address :: "crypto \<Rightarrow> bytes \<Rightarrow> address" where
  "PublicKey_address cx pubkey = cx_sha256 cx pubkey"

definition Keypair_address :: "crypto \<Rightarrow> bytes \<Rightarrow> address" where
  "Keypair_address cx secret = cx_sha256 cx (cx_public cx secret)"

subsection \<open>Signed transactions\<close>

definition build_tx_signing_payload :: "crypto \<Rightarrow> Transaction \<Rightarrow> (CryptoError, bytes) result" where
  "build_tx_signing_payload cx tx =
     (case cx_tx_bytes cx tx of Inl e \<Rightarrow> Err (SerializationError_crypto (library_message e)) | Inr bs \<Rightarrow> Ok bs)"

definition sign_transaction :: "crypto \<Rightarrow> bytes \<Rightarrow> Transaction \<Rightarrow> (CryptoError, SignedTransaction) result" where
  "sign_transaction cx secret tx =
     (case build_tx_signing_payload cx tx of
        Err e \<Rightarrow> Err e
      | Panic \<Rightarrow> Panic
      | Ok payload \<Rightarrow>
          (case hash_transaction cx tx of
             Err e \<Rightarrow> Err e
           | Panic \<Rightarrow> Panic
           | Ok tx_hash \<Rightarrow>
               Ok \<lparr>stx_transaction = tx, stx_signature = cx_sign cx secret payload, stx_tx_hash = tx_hash,
                   stx_signer_pubkey = cx_public cx secret\<rparr>))"

definition verify_transaction_with_key :: "crypto \<Rightarrow> SignedTransaction \<Rightarrow> bytes \<Rightarrow> (CryptoError, bool) result" where
  "verify_transaction_with_key cx signed_tx pubkey =
     (let derived_address = PublicKey_address cx pubkey;
          tx = stx_transaction signed_tx
      in if derived_address \<noteq> tx_signer tx then Err (InvalidPublicKey (derives_address derived_address (tx_signer tx)))
         else case hash_transaction cx tx of
           Err e \<Rightarrow> Err e
         | Panic \<Rightarrow> Panic
         | Ok expected_hash \<Rightarrow>
             (if expected_hash \<noteq> stx_tx_hash signed_tx then Err (HashError (hash_mismatch expected_hash (stx_tx_hash signed_tx)))
              else case build_tx_signing_payload cx tx of
                Err e \<Rightarrow> Err e
              | Panic \<Rightarrow> Panic
              | Ok payload \<Rightarrow>
                  (case PublicKey_verify cx pubkey payload (stx_signature signed_tx) of
                     Err e \<Rightarrow> Err e
                   | Panic \<Rightarrow> Panic
                   | Ok _ \<Rightarrow> Ok True)))"

subsection \<open>Block assembly\<close>

text \<open>Hashing a header cannot fail, so that the \<open>expect\<close> of the source never fires.\<close>

definition propose_block ::
  "crypto \<Rightarrow> u64 \<Rightarrow> u32 \<Rightarrow> hash \<Rightarrow> hash \<Rightarrow> SignedTransaction list \<Rightarrow> string \<Rightarrow> address \<Rightarrow> u64 \<Rightarrow> (unit, Block) result" where
  "propose_block cx height rnd parent_hash state_root transactions chain_id proposer timestamp =
     (let header = \<lparr>bh_height = height, bh_timestamp = timestamp, bh_parent_hash = parent_hash,
            bh_state_root = state_root,
            bh_transactions_root = merkle_root (cx_sha256 cx) (map stx_tx_hash transactions),
            bh_proposer = proposer, bh_chain_id = chain_id, bh_hash = ZERO\<rparr>
      in case hash_block_header cx header of
           Ok h \<Rightarrow> Ok \<lparr>blk_header = header\<lparr>bh_hash := h\<rparr>, blk_transactions = transactions\<rparr>
         | _ \<Rightarrow> Panic)"

subsection \<open>Signing and verifying\<close>

text \<open>A verified transaction carries the hash and a valid signature of its own content, by its signer.\<close>

lemmas signing_defs = verify_transaction_with_key_def PublicKey_address_def hash_transaction_def
  build_tx_signing_payload_def PublicKey_verify_def sign_transaction_def Keypair_address_def

lemma verified_transaction:
  assumes "verify_transaction_with_key cx stx pk = Ok b"
  shows "b \<and> cx_sha256 cx pk = tx_signer (stx_transaction stx) \<and>
    (\<exists>bs. cx_tx_bytes cx (stx_transaction stx) = Inr bs \<and> stx_tx_hash stx = cx_sha256 cx (DOMAIN_TX @ bs) \<and>
      cx_verify_error cx pk bs (stx_signature stx) = None)"
proof (cases "cx_tx_bytes cx (stx_transaction stx)")
  case (Inl e)
  with assms show ?thesis
    by (simp add: signing_defs Let_def split: if_splits)
next
  case (Inr bs)
  with assms show ?thesis
    by (cases "cx_verify_error cx pk bs (stx_signature stx)") (simp_all add: signing_defs Let_def split: if_splits)
qed

lemma signed_transaction_verifies:
  assumes "\<And>sk msg. cx_verify_error cx (cx_public cx sk) msg (cx_sign cx sk msg) = None"
    and "sign_transaction cx sk tx = Ok stx" "tx_signer tx = Keypair_address cx sk"
  shows "verify_transaction_with_key cx stx (stx_signer_pubkey stx) = Ok True"
proof (cases "cx_tx_bytes cx tx")
  case (Inl e)
  with assms(2) show ?thesis
    by (simp add: signing_defs)
next
  case (Inr bs)
  with assms(2) have "stx = \<lparr>stx_transaction = tx, stx_signature = cx_sign cx sk bs,
      stx_tx_hash = cx_sha256 cx (DOMAIN_TX @ bs), stx_signer_pubkey = cx_public cx sk\<rparr>"
    by (simp add: signing_defs)
  with Inr assms(1,3) show ?thesis
    by (simp add: signing_defs Let_def)
qed

end
