(* ===== verification/Polay_Genesis.thy ===== *)
theory Polay_Genesis
  imports Polay_Executor Polay_Epoch Polay_Crypto
begin

section \<open>Genesis\<close>

text \<open>
  The genesis document, its checks and generators (\<^verbatim>\<open>polay-genesis/src/lib.rs\<close>), and how a node turns it into
  the first chain state (\<^verbatim>\<open>ChainState::init_from_genesis\<close> of \<^verbatim>\<open>polay-validator/src/chain.rs\<close>). SHA-256, hex
  coding and the clock are parameters; reading and writing the JSON file is not modelled.
\<close>

record GenesisAccount =
  ga_address :: string
  ga_balance :: u64

record GenesisValidator =
  gnv_address :: string
  gnv_pubkey :: string
  gnv_stake :: u64
  gnv_commission_bps :: u16

record GenesisAttestor =
  gat_address :: string
  gat_game_id :: string
  gat_endpoint :: string

record Genesis =
  gen_chain_config :: ChainConfig
  gen_genesis_time :: string
  gen_accounts :: "GenesisAccount list"
  gen_validators :: "GenesisValidator list"
  gen_attestors :: "GenesisAttestor list"
  gen_initial_supply :: u64

text \<open>The formatted messages of \<open>Validation\<close>, with the values they print.\<close>

datatype genesis_fault =
    balance_sum_differs u64 u64
  | stake_below_minimum string u64 u64
  | commission_above_maximum string u16 u16
  | duplicate_account string
  | duplicate_validator string
  | validator_without_account string

datatype GenesisError = Io_genesis string | Json_genesis string | Validation_genesis genesis_fault

datatype (plugins only: size) ValidatorError =
    StateError_validator StateError
  | ExecutionError_validator ExecutionError
  | GenesisError_validator GenesisError
  | CryptoError_validator CryptoError
  | Other_invalid_hex string string
  | Other_address_length nat
  | Other_validator string

subsection \<open>Validation\<close>

fun first_duplicate :: "'a list \<Rightarrow> 'a list \<Rightarrow> 'a option" where
  "first_duplicate seen [] = None"
| "first_duplicate seen (x # xs) = (if x \<in> set seen then Some x else first_duplicate (x # seen) xs)"

definition genesis_validate :: "Genesis \<Rightarrow> (GenesisError, unit) result" where
  "genesis_validate g =
     (let config = gen_chain_config g;
          balance_sum = (\<Sum>a\<leftarrow>gen_accounts g. ga_balance a);
          addresses = map ga_address (gen_accounts g)
      in if balance_sum \<noteq> gen_initial_supply g
         then Err (Validation_genesis (balance_sum_differs balance_sum (gen_initial_supply g)))
         else case find (\<lambda>v. gnv_stake v < cfg_min_stake config) (gen_validators g) of
           Some v \<Rightarrow> Err (Validation_genesis (stake_below_minimum (gnv_address v) (gnv_stake v) (cfg_min_stake config)))
         | None \<Rightarrow>
             (case find (\<lambda>v. cfg_max_commission_bps config < gnv_commission_bps v) (gen_validators g) of
                Some v \<Rightarrow> Err (Validation_genesis (commission_above_maximum (gnv_address v) (gnv_commission_bps v) (cfg_max_commission_bps config)))
              | None \<Rightarrow>
                  (case first_duplicate [] addresses of
                     Some a \<Rightarrow> Err (Validation_genesis (duplicate_account a))
                   | None \<Rightarrow>
                       (case first_duplicate [] (map gnv_address (gen_validators g)) of
                          Some a \<Rightarrow> Err (Validation_genesis (duplicate_validator a))
                        | None \<Rightarrow>
                            (case find (\<lambda>v. gnv_address v \<notin> set addresses) (gen_validators g) of
                               Some v \<Rightarrow> Err (Validation_genesis (validator_without_account (gnv_address v)))
                             | None \<Rightarrow> Ok ())))))"

subsection \<open>Generators\<close>

definition make_addr :: "(bytes \<Rightarrow> hash) \<Rightarrow> (bytes \<Rightarrow> string) \<Rightarrow> string \<Rightarrow> u32 \<Rightarrow> string" where
  "make_addr sha256 hex_encode pfx idx = hex_encode (be_bytes 32 (sha256 (str_bytes pfx @ le_bytes 4 idx)))"

definition generated_validators :: "(bytes \<Rightarrow> hash) \<Rightarrow> (bytes \<Rightarrow> string) \<Rightarrow> string \<Rightarrow> u32 \<Rightarrow> GenesisValidator list" where
  "generated_validators sha256 hex_encode pfx n =
     map (\<lambda>i. \<lparr>gnv_address = make_addr sha256 hex_encode pfx (word_of_nat i),
               gnv_pubkey = make_addr sha256 hex_encode ''validator-pubkey'' (word_of_nat i),
               gnv_stake = 10000000, gnv_commission_bps = 500\<rparr>) [0..<unat n]"

definition generated_accounts ::
  "(bytes \<Rightarrow> hash) \<Rightarrow> (bytes \<Rightarrow> string) \<Rightarrow> GenesisValidator list \<Rightarrow> string \<Rightarrow> nat \<Rightarrow> u64 \<Rightarrow> GenesisAccount list" where
  "generated_accounts sha256 hex_encode validators pfx n account_balance =
     map (\<lambda>v. \<lparr>ga_address = gnv_address v, ga_balance = 10000000\<rparr>) validators @
     map (\<lambda>i. \<lparr>ga_address = make_addr sha256 hex_encode pfx (word_of_nat i), ga_balance = account_balance\<rparr>) [0..<n]"

definition generate_devnet :: "(bytes \<Rightarrow> hash) \<Rightarrow> (bytes \<Rightarrow> string) \<Rightarrow> string \<Rightarrow> Genesis" where
  "generate_devnet sha256 hex_encode now =
     (let validators = generated_validators sha256 hex_encode ''validator'' 4;
          accounts = generated_accounts sha256 hex_encode validators ''account'' 10 6000000
      in \<lparr>gen_chain_config = ChainConfig_default, gen_genesis_time = now, gen_accounts = accounts,
          gen_validators = validators,
          gen_attestors =
            [\<lparr>gat_address = make_addr sha256 hex_encode ''attestor'' 0, gat_game_id = ''game-battle-arena'',
              gat_endpoint = ''http://localhost:8081/attest''\<rparr>,
             \<lparr>gat_address = make_addr sha256 hex_encode ''attestor'' 1, gat_game_id = ''game-card-clash'',
              gat_endpoint = ''http://localhost:8082/attest''\<rparr>],
          gen_initial_supply = (\<Sum>a\<leftarrow>accounts. ga_balance a)\<rparr>)"

definition generate_testnet :: "(bytes \<Rightarrow> hash) \<Rightarrow> (bytes \<Rightarrow> string) \<Rightarrow> string \<Rightarrow> u32 \<Rightarrow> Genesis" where
  "generate_testnet sha256 hex_encode now validator_count =
     (let validators = generated_validators sha256 hex_encode ''testnet-validator'' validator_count;
          accounts = generated_accounts sha256 hex_encode validators ''testnet-account'' 20 5000000;
          attestor = (\<lambda>i game n. \<lparr>gat_address = make_addr sha256 hex_encode ''testnet-attestor'' i, gat_game_id = game,
                        gat_endpoint = ''https://testnet-attestor-'' @ n @ ''.polay.io/attest''\<rparr>)
      in \<lparr>gen_chain_config = testnet, gen_genesis_time = now, gen_accounts = accounts, gen_validators = validators,
          gen_attestors = [attestor 0 ''game-battle-arena'' ''1'', attestor 1 ''game-card-clash'' ''2'',
            attestor 2 ''game-rpg-quest'' ''3'', attestor 3 ''game-racing-league'' ''4''],
          gen_initial_supply = (\<Sum>a\<leftarrow>accounts. ga_balance a)\<rparr>)"

definition generate_mainnet ::
  "string \<Rightarrow> GenesisValidator list \<Rightarrow> GenesisAccount list \<Rightarrow> (GenesisError, Genesis) result" where
  "generate_mainnet now validators accounts =
     (let genesis = \<lparr>gen_chain_config = mainnet, gen_genesis_time = now, gen_accounts = accounts,
            gen_validators = validators, gen_attestors = [], gen_initial_supply = (\<Sum>a\<leftarrow>accounts. ga_balance a)\<rparr>
      in case genesis_validate genesis of
           Ok _ \<Rightarrow> Ok genesis
         | Err e \<Rightarrow> Err e
         | Panic \<Rightarrow> Panic)"

subsection \<open>The first chain state\<close>

definition parse_address :: "(string \<Rightarrow> string + bytes) \<Rightarrow> string \<Rightarrow> (ValidatorError, address) result" where
  "parse_address hex_decode hex_str =
     (case hex_decode hex_str of
        Inl e \<Rightarrow> Err (Other_invalid_hex hex_str e)
      | Inr bs \<Rightarrow> (if length bs \<noteq> 32 then Err (Other_address_length (length bs)) else Ok (address_of_bytes bs)))"

definition create_genesis_validator ::
  "(string \<Rightarrow> string + bytes) \<Rightarrow> GenesisValidator \<Rightarrow> node_store \<Rightarrow> (ValidatorError, unit) result \<times> node_store" where
  "create_genesis_validator hex_decode gv store =
     (case parse_address hex_decode (gnv_address gv) of
        Err e \<Rightarrow> (Err e, store)
      | Panic \<Rightarrow> (Panic, store)
      | Ok addr \<Rightarrow>
          (let info = (ValidatorInfo_new addr (gnv_commission_bps gv))\<lparr>val_stake := gnv_stake gv\<rparr>
           in (Ok (), register_in_validator_list addr (store\<lparr>ns_chain := set_validator info (ns_chain store)\<rparr>))))"

definition create_genesis_attestor ::
  "(string \<Rightarrow> string + bytes) \<Rightarrow> GenesisAttestor \<Rightarrow> node_store \<Rightarrow> (ValidatorError, unit) result \<times> node_store" where
  "create_genesis_attestor hex_decode ga store =
     (case parse_address hex_decode (gat_address ga) of
        Err e \<Rightarrow> (Err e, store)
      | Panic \<Rightarrow> (Panic, store)
      | Ok addr \<Rightarrow>
          (Ok (), store\<lparr>ns_chain := set_attestor \<lparr>att_address = addr, att_game_id = gat_game_id ga, att_endpoint = gat_endpoint ga,
             att_metadata = '''', att_status = AttestorActive, att_registered_at = 0\<rparr> (ns_chain store)\<rparr>))"

fun create_accounts ::
  "(string \<Rightarrow> string + bytes) \<Rightarrow> GenesisAccount list \<Rightarrow> node_store \<Rightarrow> (ValidatorError, unit) result \<times> node_store" where
  "create_accounts hex_decode [] store = (Ok (), store)"
| "create_accounts hex_decode (ga # gas) store =
     (case parse_address hex_decode (ga_address ga) of
        Err e \<Rightarrow> (Err e, store)
      | Panic \<Rightarrow> (Panic, store)
      | Ok addr \<Rightarrow>
          create_accounts hex_decode gas
            (store\<lparr>ns_chain := set_account (AccountState_with_balance addr (ga_balance ga) 0) (ns_chain store)\<rparr>))"

text \<open>The loops over the validators and attestors, the first of which collects the addresses.\<close>

fun create_validators ::
  "(string \<Rightarrow> string + bytes) \<Rightarrow> GenesisValidator list \<Rightarrow> address list \<Rightarrow> node_store \<Rightarrow>
   (ValidatorError, address list) result \<times> node_store" where
  "create_validators hex_decode [] addrs store = (Ok addrs, store)"
| "create_validators hex_decode (gv # gvs) addrs store =
     (case create_genesis_validator hex_decode gv store of
        (Err e, store1) \<Rightarrow> (Err e, store1)
      | (Panic, store1) \<Rightarrow> (Panic, store1)
      | (Ok _, store1) \<Rightarrow>
          (case parse_address hex_decode (gnv_address gv) of
             Err e \<Rightarrow> (Err e, store1)
           | Panic \<Rightarrow> (Panic, store1)
           | Ok addr \<Rightarrow> create_validators hex_decode gvs (addrs @ [addr]) store1))"

fun create_attestors ::
  "(string \<Rightarrow> string + bytes) \<Rightarrow> GenesisAttestor list \<Rightarrow> node_store \<Rightarrow> (ValidatorError, unit) result \<times> node_store" where
  "create_attestors hex_decode [] store = (Ok (), store)"
| "create_attestors hex_decode (ga # gas) store =
     (case create_genesis_attestor hex_decode ga store of
        (Ok _, store1) \<Rightarrow> create_attestors hex_decode gas store1
      | (Err e, store1) \<Rightarrow> (Err e, store1)
      | (Panic, store1) \<Rightarrow> (Panic, store1))"

fun backfill_validators ::
  "(string \<Rightarrow> string + bytes) \<Rightarrow> GenesisValidator list \<Rightarrow> address list \<Rightarrow> node_store \<Rightarrow>
   (ValidatorError, address list) result \<times> node_store" where
  "backfill_validators hex_decode [] addrs store = (Ok addrs, store)"
| "backfill_validators hex_decode (gv # gvs) addrs store =
     (case parse_address hex_decode (gnv_address gv) of
        Err e \<Rightarrow> (Err e, store)
      | Panic \<Rightarrow> (Panic, store)
      | Ok addr \<Rightarrow> backfill_validators hex_decode gvs (addrs @ [addr]) (register_in_validator_list addr store))"

definition genesis_epoch :: "ChainConfig \<Rightarrow> Genesis \<Rightarrow> address list \<Rightarrow> EpochInfo" where
  "genesis_epoch config genesis addrs =
     \<lparr>ep_epoch = 0, ep_start_height = 0, ep_end_height = saturating_sub (cfg_epoch_length config) 1,
      ep_validator_set = addrs, ep_total_staked = (\<Sum>v\<leftarrow>gen_validators genesis. gnv_stake v), ep_rewards_distributed = 0\<rparr>"

text \<open>A chain that already has blocks: the active set is filled in where an older node left it out.\<close>

definition backfill_from_genesis ::
  "(string \<Rightarrow> string + bytes) \<Rightarrow> ChainConfig \<Rightarrow> Genesis \<Rightarrow> node_store \<Rightarrow> (ValidatorError, unit) result \<times> node_store" where
  "backfill_from_genesis hex_decode config genesis store =
     (if unwrap_or (get_active_validator_set (ns_chain store)) [] = []
      then case backfill_validators hex_decode (gen_validators genesis) [] store of
             (Err e, store1) \<Rightarrow> (Err e, store1)
           | (Panic, store1) \<Rightarrow> (Panic, store1)
           | (Ok addrs, store1) \<Rightarrow>
               (Ok (), store1\<lparr>ns_chain := set_epoch_info (genesis_epoch config genesis addrs)
                  (set_active_validator_set addrs (ns_chain store1))\<rparr>)
      else (Ok (), store))"

definition genesis_supply :: "Genesis \<Rightarrow> SupplyInfo" where
  "genesis_supply genesis =
     (let total_staked = (\<Sum>v\<leftarrow>gen_validators genesis. gnv_stake v)
      in \<lparr>sup_total_supply = gen_initial_supply genesis,
          sup_circulating_supply = saturating_sub (gen_initial_supply genesis) total_staked,
          sup_total_staked = total_staked, sup_total_burned = 0, sup_treasury_balance = 0,
          sup_total_minted = 0, sup_total_fees_collected = 0\<rparr>)"

definition init_from_genesis ::
  "(string \<Rightarrow> string + bytes) \<Rightarrow> ChainConfig \<Rightarrow> Genesis \<Rightarrow> node_store \<Rightarrow> (ValidatorError, unit) result \<times> node_store" where
  "init_from_genesis hex_decode config genesis store =
     (if 0 < get_chain_height (ns_chain store) then backfill_from_genesis hex_decode config genesis store
      else case create_accounts hex_decode (gen_accounts genesis) store of
        (Err e, store1) \<Rightarrow> (Err e, store1)
      | (Panic, store1) \<Rightarrow> (Panic, store1)
      | (Ok _, store1) \<Rightarrow>
          (case create_validators hex_decode (gen_validators genesis) [] store1 of
             (Err e, store2) \<Rightarrow> (Err e, store2)
           | (Panic, store2) \<Rightarrow> (Panic, store2)
           | (Ok active_validators, store2) \<Rightarrow>
               (let store3 = store2\<lparr>ns_chain := set_epoch_info (genesis_epoch config genesis active_validators)
                      (set_active_validator_set active_validators (ns_chain store2))\<rparr>
                in case create_attestors hex_decode (gen_attestors genesis) store3 of
                     (Err e, store4) \<Rightarrow> (Err e, store4)
                   | (Panic, store4) \<Rightarrow> (Panic, store4)
                   | (Ok _, store4) \<Rightarrow>
                       (Ok (), store4\<lparr>ns_chain := set_supply_info (genesis_supply genesis)
                          (set_latest_hash ZERO (set_chain_height 0 (ns_chain store4)))\<rparr>))))"

subsection \<open>What genesis creates\<close>

text \<open>The genesis writes keep the state well-formed; only accounts count for the ledger.\<close>

lemma register_chain [simp]: "ns_chain (register_in_validator_list a store) = ns_chain store"
  by (simp add: register_in_validator_list_def Let_def)

lemma validators_of_account [simp]: "st_validators (set_account acct s) = st_validators s"
  by (simp add: set_account_def)

lemma create_accounts_total:
  assumes "create_accounts hex gas store = (Ok u, store')" "wf_state (ns_chain store)"
    and "distinct (map (\<lambda>g. parse_address hex (ga_address g)) gas)"
    and "\<forall>g \<in> set gas. \<forall>a. parse_address hex (ga_address g) = Ok a \<longrightarrow> get_account (ns_chain store) a = None"
  shows "wf_state (ns_chain store') \<and> ledger_total (ns_chain store') = ledger_total (ns_chain store) + (\<Sum>g\<leftarrow>gas. unat (ga_balance g)) \<and>
    ns_validator_list store' = ns_validator_list store \<and> st_validators (ns_chain store') = st_validators (ns_chain store)"
  using assms
proof (induction hex gas store rule: create_accounts.induct)
  case (2 hex g gas store)
  obtain a where a: "parse_address hex (ga_address g) = Ok a"
    using "2.prems"(1) by (cases "parse_address hex (ga_address g)") auto
  let ?acct = "AccountState_with_balance a (ga_balance g) 0"
  let ?store = "store\<lparr>ns_chain := set_account ?acct (ns_chain store)\<rparr>"
  have fields: "acct_address ?acct = a" "acct_balance ?acct = ga_balance g"
    by (simp_all add: AccountState_with_balance_def)
  have "get_account (ns_chain store) a = None"
    using "2.prems"(4) a by simp
  then have "ledger_total (ns_chain ?store) = ledger_total (ns_chain store) + unat (ga_balance g)"
    using accounts.total_write_eq [of ?acct "ns_chain store"] by (simp add: fields balance_of_def held_def)
  moreover have "\<forall>g' \<in> set gas. \<forall>b. parse_address hex (ga_address g') = Ok b \<longrightarrow> get_account (ns_chain ?store) b = None"
  proof (intro ballI allI impI)
    fix g' b assume g': "g' \<in> set gas" "parse_address hex (ga_address g') = Ok b"
    then have "b \<noteq> a"
      using "2.prems"(3) a by (metis (no_types, lifting) distinct.simps(2) image_eqI list.set_map list.simps(9))
    with g' "2.prems"(4) show "get_account (ns_chain ?store) b = None"
      by (simp add: get_account_def set_account_def fields)
  qed
  ultimately show ?case
    using "2.IH" [OF a] "2.prems"(1-3) a by (simp add: wf_intros)
qed simp

lemma create_validators_effect:
  assumes "create_validators hex gvs addrs store = (Ok active, store')" "wf_state (ns_chain store)"
  shows "wf_state (ns_chain store') \<and> ledger_total (ns_chain store') = ledger_total (ns_chain store) \<and>
    map Ok active = map Ok addrs @ map (\<lambda>v. parse_address hex (gnv_address v)) gvs"
  using assms
proof (induction hex gvs addrs store rule: create_validators.induct)
  case (2 hex gv gvs addrs store)
  obtain a where a: "parse_address hex (gnv_address gv) = Ok a"
    using "2.prems"(1) by (cases "parse_address hex (gnv_address gv)") (auto simp: create_genesis_validator_def)
  then show ?case
    using "2.IH" "2.prems" by (auto simp: create_genesis_validator_def Let_def wf_intros)
qed simp

lemma create_attestors_effect:
  assumes "create_attestors hex gas store = (Ok u, store')" "wf_state (ns_chain store)"
  shows "wf_state (ns_chain store') \<and> ledger_total (ns_chain store') = ledger_total (ns_chain store) \<and>
    get_active_validator_set (ns_chain store') = get_active_validator_set (ns_chain store)"
  using assms
proof (induction hex gas store rule: create_attestors.induct)
  case (2 hex ga gas store)
  obtain a where "parse_address hex (gat_address ga) = Ok a"
    using "2.prems"(1) by (cases "parse_address hex (gat_address ga)") (auto simp: create_genesis_attestor_def)
  with "2.IH" "2.prems" show ?case
    by (auto simp: create_genesis_attestor_def wf_intros) (auto simp: get_active_validator_set_def set_attestor_def)
qed simp

definition empty_store :: node_store where
  "empty_store = \<lparr>ns_chain = empty_state, ns_validator_list = None, ns_delegators = fmempty\<rparr>"


text \<open>A small genesis: addresses are single letters, decoded to 32 bytes that end in their code.\<close>

definition letter_hex :: "string \<Rightarrow> string + bytes" where
  "letter_hex s = Inr (replicate 31 0 @ [of_char (hd s)])"

definition small_genesis :: Genesis where
  "small_genesis = \<lparr>gen_chain_config = devnet, gen_genesis_time = '''',
     gen_accounts = [\<lparr>ga_address = ''a'', ga_balance = 5000000\<rparr>, \<lparr>ga_address = ''b'', ga_balance = 700\<rparr>],
     gen_validators = [\<lparr>gnv_address = ''a'', gnv_pubkey = '''', gnv_stake = 2000000, gnv_commission_bps = 500\<rparr>],
     gen_attestors = [], gen_initial_supply = 5000700\<rparr>"

lemma letter_addresses: "parse_address letter_hex ''a'' = Ok 97" "parse_address letter_hex ''b'' = Ok 98"
proof -
  have "foldl (\<lambda>acc b. acc * 256 + ucast b) 0 (replicate n (0 :: u8)) = (0 :: address)" for n
    by (induction n) simp_all
  then show "parse_address letter_hex ''a'' = Ok 97" "parse_address letter_hex ''b'' = Ok 98"
    by (simp_all add: parse_address_def letter_hex_def address_of_bytes_def)
qed


end
