(* ===== verification/Polay_Mempool.thy ===== *)
theory Polay_Mempool
  imports Polay_Crypto "HOL-Library.Multiset"
begin

section \<open>The transaction pool (\<^verbatim>\<open>polay-mempool\<close>)\<close>

text \<open>
  \<^verbatim>\<open>polay-mempool/src/{pool,error}.rs\<close>: the pool, every operation that changes it, and the queries of
  the block producer. The concurrent maps are finite maps and an operation is atomic; a \<open>DashMap\<close> is
  scanned in the order of its keys, where the source leaves the order open. \<open>now\<close> is the clock of
  \<open>evict_expired\<close>. The pools a node can hold are those reached from \<open>Mempool_new\<close> by these operations.
\<close>

definition DEFAULT_MAX_NONCE_GAP :: u64 where
  "DEFAULT_MAX_NONCE_GAP = 16"

record MempoolConfig =
  max_size :: nat
  max_per_account :: nat
  min_fee :: u64
  verify_signature :: bool
  mp_chain_id :: string
  max_nonce_gap :: u64
  tx_ttl_secs :: u64

definition MempoolConfig_default :: MempoolConfig where
  "MempoolConfig_default = \<lparr>max_size = 10000, max_per_account = 100, min_fee = 1000, verify_signature = True,
     mp_chain_id = '''', max_nonce_gap = DEFAULT_MAX_NONCE_GAP, tx_ttl_secs = 300\<rparr>"

record Mempool =
  pending :: "(hash, SignedTransaction) fmap"
  by_sender :: "(address, (u64, hash) fmap) fmap"
  recently_seen :: "hash fset"
  mp_config :: MempoolConfig

text \<open>The three messages of \<open>InvalidSignature\<close>, with the values they print.\<close>

datatype signature_message =
    pubkey_length nat
  | pubkey_invalid CryptoError
  | verification_failed CryptoError

datatype MempoolError =
    TransactionAlreadyExists
  | MempoolFull
  | InvalidTransaction string
  | NonceTooLow u64 u64
  | FeeTooLow u64 u64
  | InvalidSignature_mempool signature_message
  | NonceGapTooLarge u64 u64
  | ChainIdMismatch string string
  | DuplicateTransaction

subsection \<open>Operations\<close>

definition Mempool_new :: "MempoolConfig \<Rightarrow> Mempool" where
  "Mempool_new config = \<lparr>pending = fmempty, by_sender = fmempty, recently_seen = {||}, mp_config = config\<rparr>"

abbreviation tx_fee :: "SignedTransaction \<Rightarrow> u64" where
  "tx_fee tx \<equiv> tx_max_fee (stx_transaction tx)"

text \<open>Dropping a nonce from the queue of a sender, and the queue with its last nonce.\<close>

definition unindex :: "address \<Rightarrow> u64 \<Rightarrow> (address, (u64, hash) fmap) fmap \<Rightarrow> (address, (u64, hash) fmap) fmap" where
  "unindex sender n idx =
     (case fmlookup idx sender of
        None \<Rightarrow> idx
      | Some sender_txs \<Rightarrow>
          (let sender_txs = fmdrop n sender_txs
           in if sender_txs = fmempty then fmdrop sender idx else fmupd sender sender_txs idx))"

definition mempool_remove :: "Mempool \<Rightarrow> hash \<Rightarrow> SignedTransaction option \<times> Mempool" where
  "mempool_remove pool tx_hash =
     (case fmlookup (pending pool) tx_hash of
        None \<Rightarrow> (None, pool)
      | Some tx \<Rightarrow>
          (Some tx, pool\<lparr>pending := fmdrop tx_hash (pending pool),
                         by_sender := unindex (signer tx) (nonce tx) (by_sender pool)\<rparr>))"

definition remove_batch :: "Mempool \<Rightarrow> hash list \<Rightarrow> Mempool" where
  "remove_batch pool tx_hashes = fold (\<lambda>h p. snd (mempool_remove p h)) tx_hashes pool"

text \<open>The scan of \<open>try_evict_lowest_fee\<close>: the lowest fee below \<open>u64::MAX\<close> and the first hash that has it.\<close>

fun lowest_scan :: "(hash \<times> SignedTransaction) list \<Rightarrow> u64 \<Rightarrow> hash option \<Rightarrow> u64 \<times> hash option" where
  "lowest_scan [] lowest_fee lowest_hash = (lowest_fee, lowest_hash)"
| "lowest_scan ((h, tx) # entries) lowest_fee lowest_hash =
     (if tx_fee tx < lowest_fee then lowest_scan entries (tx_fee tx) (Some h)
      else lowest_scan entries lowest_fee lowest_hash)"

definition try_evict_lowest_fee :: "Mempool \<Rightarrow> SignedTransaction \<Rightarrow> bool \<times> Mempool" where
  "try_evict_lowest_fee pool new_tx =
     (case lowest_scan (sorted_list_of_fmap (pending pool)) (- 1) None of
        (lowest_fee, Some h) \<Rightarrow>
          (if lowest_fee < tx_fee new_tx then (True, snd (mempool_remove pool h)) else (False, pool))
      | (_, None) \<Rightarrow> (False, pool))"

definition check_nonce_gap :: "Mempool \<Rightarrow> address \<Rightarrow> u64 \<Rightarrow> (MempoolError, unit) result" where
  "check_nonce_gap pool sender n =
     (case fmlookup (by_sender pool) sender of
        None \<Rightarrow> Ok ()
      | Some sender_txs \<Rightarrow>
          (case sorted_list_of_fmap sender_txs of
             [] \<Rightarrow> Ok ()
           | (lowest_nonce, _) # _ \<Rightarrow>
               (let gap = saturating_sub n lowest_nonce
                in if max_nonce_gap (mp_config pool) < gap
                   then Err (NonceGapTooLarge (max_nonce_gap (mp_config pool)) gap) else Ok ())))"

definition check_signature :: "crypto \<Rightarrow> SignedTransaction \<Rightarrow> (MempoolError, unit) result" where
  "check_signature cx tx =
     (if length (stx_signer_pubkey tx) \<noteq> 32
      then Err (InvalidSignature_mempool (pubkey_length (length (stx_signer_pubkey tx))))
      else case PublicKey_from_bytes cx (stx_signer_pubkey tx) of
        Err e \<Rightarrow> Err (InvalidSignature_mempool (pubkey_invalid e))
      | Panic \<Rightarrow> Panic
      | Ok pubkey \<Rightarrow>
          (case verify_transaction_with_key cx tx pubkey of
             Err e \<Rightarrow> Err (InvalidSignature_mempool (verification_failed e))
           | Panic \<Rightarrow> Panic
           | Ok _ \<Rightarrow> Ok ()))"

text \<open>Checks 3 to 5 of \<open>insert\<close>, which follow the eviction.\<close>

definition admission_check :: "crypto \<Rightarrow> Mempool \<Rightarrow> SignedTransaction \<Rightarrow> (MempoolError, unit) result" where
  "admission_check cx pool tx =
     (let config = mp_config pool in
      if (case fmlookup (by_sender pool) (signer tx) of
            None \<Rightarrow> False
          | Some sender_txs \<Rightarrow> max_per_account config \<le> fcard (fmdom sender_txs))
      then Err MempoolFull
      else if tx_fee tx < min_fee config then Err (FeeTooLow (min_fee config) (tx_fee tx))
      else case check_nonce_gap pool (signer tx) (nonce tx) of
        Err e \<Rightarrow> Err e
      | Panic \<Rightarrow> Panic
      | Ok _ \<Rightarrow> (if verify_signature config then check_signature cx tx else Ok ()))"

definition add_pending :: "SignedTransaction \<Rightarrow> Mempool \<Rightarrow> Mempool" where
  "add_pending tx pool =
     pool\<lparr>pending := fmupd (stx_tx_hash tx) tx (pending pool),
          by_sender := fmupd (signer tx)
            (fmupd (nonce tx) (stx_tx_hash tx) (unwrap_or (fmlookup (by_sender pool) (signer tx)) fmempty))
            (by_sender pool)\<rparr>"

definition mempool_insert :: "crypto \<Rightarrow> Mempool \<Rightarrow> SignedTransaction \<Rightarrow> (MempoolError, unit) result \<times> Mempool" where
  "mempool_insert cx pool tx =
     (let config = mp_config pool in
      if fmlookup (pending pool) (stx_tx_hash tx) \<noteq> None then (Err TransactionAlreadyExists, pool)
      else if stx_tx_hash tx |\<in>| recently_seen pool then (Err DuplicateTransaction, pool)
      else if mp_chain_id config \<noteq> '''' \<and> tx_chain_id (stx_transaction tx) \<noteq> mp_chain_id config
        then (Err (ChainIdMismatch (mp_chain_id config) (tx_chain_id (stx_transaction tx))), pool)
      else case (if max_size config \<le> fcard (fmdom (pending pool)) then try_evict_lowest_fee pool tx else (True, pool)) of
        (False, pool') \<Rightarrow> (Err MempoolFull, pool')
      | (True, pool') \<Rightarrow>
          (case admission_check cx pool' tx of
             Err e \<Rightarrow> (Err e, pool')
           | Panic \<Rightarrow> (Panic, pool')
           | Ok _ \<Rightarrow> (Ok (), add_pending tx pool')))"

definition mempool_get :: "Mempool \<Rightarrow> hash \<Rightarrow> SignedTransaction option" where
  "mempool_get pool tx_hash = fmlookup (pending pool) tx_hash"

definition mempool_contains :: "Mempool \<Rightarrow> hash \<Rightarrow> bool" where
  "mempool_contains pool tx_hash = (fmlookup (pending pool) tx_hash \<noteq> None)"

text \<open>A stable sort by descending fee.\<close>

definition get_pending_for_block :: "Mempool \<Rightarrow> nat \<Rightarrow> SignedTransaction list" where
  "get_pending_for_block pool max_txs =
     take max_txs (sort_key (\<lambda>tx. - uint (tx_fee tx)) (map snd (sorted_list_of_fmap (pending pool))))"

definition get_account_txs :: "Mempool \<Rightarrow> address \<Rightarrow> SignedTransaction list" where
  "get_account_txs pool sender =
     (case fmlookup (by_sender pool) sender of
        None \<Rightarrow> []
      | Some sender_txs \<Rightarrow> List.map_filter (\<lambda>(_, h). fmlookup (pending pool) h) (sorted_list_of_fmap sender_txs))"

definition mempool_size :: "Mempool \<Rightarrow> nat" where
  "mempool_size pool = fcard (fmdom (pending pool))"

definition evict_expired :: "u64 \<Rightarrow> Mempool \<Rightarrow> nat \<times> Mempool" where
  "evict_expired now pool =
     (if tx_ttl_secs (mp_config pool) = 0 then (0, pool)
      else let cutoff = saturating_sub now (tx_ttl_secs (mp_config pool));
               expired = map fst (filter (\<lambda>(_, tx). tx_timestamp (stx_transaction tx) < cutoff)
                                   (sorted_list_of_fmap (pending pool)))
           in (length expired, remove_batch pool expired))"

definition mempool_clear :: "Mempool \<Rightarrow> Mempool" where
  "mempool_clear pool = pool\<lparr>pending := fmempty, by_sender := fmempty, recently_seen := {||}\<rparr>"

definition mark_seen :: "Mempool \<Rightarrow> hash \<Rightarrow> Mempool" where
  "mark_seen pool tx_hash = pool\<lparr>recently_seen := finsert tx_hash (recently_seen pool)\<rparr>"

definition mark_seen_batch :: "Mempool \<Rightarrow> hash list \<Rightarrow> Mempool" where
  "mark_seen_batch pool tx_hashes = fold (\<lambda>h p. mark_seen p h) tx_hashes pool"

definition clear_recently_seen :: "Mempool \<Rightarrow> Mempool" where
  "clear_recently_seen pool = pool\<lparr>recently_seen := {||}\<rparr>"

definition recently_seen_count :: "Mempool \<Rightarrow> nat" where
  "recently_seen_count pool = fcard (recently_seen pool)"

definition prune_below_nonce :: "Mempool \<Rightarrow> address \<Rightarrow> u64 \<Rightarrow> Mempool" where
  "prune_below_nonce pool sender min_nonce =
     (case fmlookup (by_sender pool) sender of
        None \<Rightarrow> pool
      | Some sender_txs \<Rightarrow>
          (let stale = filter (\<lambda>(n, _). n < min_nonce) (sorted_list_of_fmap sender_txs);
               kept = fold fmdrop (map fst stale) sender_txs
           in pool\<lparr>pending := fold fmdrop (map snd stale) (pending pool),
                   by_sender := if kept = fmempty then fmdrop sender (by_sender pool)
                                else fmupd sender kept (by_sender pool)\<rparr>))"

subsection \<open>What the pool keeps\<close>

definition tx_admissible :: "crypto \<Rightarrow> MempoolConfig \<Rightarrow> SignedTransaction \<Rightarrow> bool" where
  "tx_admissible cx config tx \<longleftrightarrow>
     min_fee config \<le> tx_fee tx \<and>
     (mp_chain_id config = '''' \<or> tx_chain_id (stx_transaction tx) = mp_chain_id config) \<and>
     (verify_signature config \<longrightarrow> check_signature cx tx = Ok ())"

definition queue_ok :: "Mempool \<Rightarrow> address \<Rightarrow> (u64, hash) fmap \<Rightarrow> bool" where
  "queue_ok pool sender q \<longleftrightarrow>
     q \<noteq> fmempty \<and> fcard (fmdom q) \<le> max 1 (max_per_account (mp_config pool)) \<and>
     (\<forall>n h. fmlookup q n = Some h \<longrightarrow>
        (\<exists>tx. fmlookup (pending pool) h = Some tx \<and> signer tx = sender \<and> nonce tx = n))"

definition pool_ok :: "crypto \<Rightarrow> Mempool \<Rightarrow> bool" where
  "pool_ok cx pool \<longleftrightarrow>
     (\<forall>h tx. fmlookup (pending pool) h = Some tx \<longrightarrow> stx_tx_hash tx = h \<and> tx_admissible cx (mp_config pool) tx) \<and>
     mempool_size pool \<le> max_size (mp_config pool) \<and>
     (\<forall>s q. fmlookup (by_sender pool) s = Some q \<longrightarrow> queue_ok pool s q)"

inductive reachable_pool :: "crypto \<Rightarrow> MempoolConfig \<Rightarrow> Mempool \<Rightarrow> bool" for cx config where
  created: "reachable_pool cx config (Mempool_new config)"
| inserted: "reachable_pool cx config p \<Longrightarrow> reachable_pool cx config (snd (mempool_insert cx p tx))"
| removed: "reachable_pool cx config p \<Longrightarrow> reachable_pool cx config (snd (mempool_remove p h))"
| batch_removed: "reachable_pool cx config p \<Longrightarrow> reachable_pool cx config (remove_batch p hs)"
| expired: "reachable_pool cx config p \<Longrightarrow> reachable_pool cx config (snd (evict_expired now p))"
| cleared: "reachable_pool cx config p \<Longrightarrow> reachable_pool cx config (mempool_clear p)"
| seen: "reachable_pool cx config p \<Longrightarrow> reachable_pool cx config (mark_seen p h)"
| batch_seen: "reachable_pool cx config p \<Longrightarrow> reachable_pool cx config (mark_seen_batch p hs)"
| forgotten: "reachable_pool cx config p \<Longrightarrow> reachable_pool cx config (clear_recently_seen p)"
| pruned: "reachable_pool cx config p \<Longrightarrow> reachable_pool cx config (prune_below_nonce p s n)"

lemma fmlookup_unindex:
  "fmlookup (unindex s n idx) s' =
     (if s' = s then (case fmlookup idx s of None \<Rightarrow> None | Some q \<Rightarrow> if fmdrop n q = fmempty then None else Some (fmdrop n q))
      else fmlookup idx s')"
  by (simp add: unindex_def Let_def split: option.splits)

lemma fmlookup_fold_fmdrop:
  "fmlookup (fold fmdrop ks m) k = (if k \<in> set ks then None else fmlookup m k)"
  by (induction ks arbitrary: m) auto

lemma fmupd_nonempty: "fmupd k v m \<noteq> fmempty"
proof
  assume "fmupd k v m = fmempty"
  from arg_cong [OF this, of "\<lambda>m. fmlookup m k"] show False by simp
qed

text \<open>Dropping entries from the store keeps its part of the invariant.\<close>

lemma fcard_fmdom_mono:
  assumes "\<And>k v. fmlookup m' k = Some v \<Longrightarrow> fmlookup m k \<noteq> None"
  shows "fcard (fmdom m') \<le> fcard (fmdom m)"
proof (rule fcard_mono, rule fsubsetI)
  fix k assume "k |\<in>| fmdom m'"
  then show "k |\<in>| fmdom m"
    using assms by (cases "fmlookup m' k") (auto simp: fmlookup_dom_iff)
qed

lemma queue_ok_shrink:
  assumes "queue_ok p s q" "mp_config p' = mp_config p" "q' \<noteq> fmempty"
    and "\<And>n h. fmlookup q' n = Some h \<Longrightarrow> fmlookup q n = Some h \<and> fmlookup (pending p') h = fmlookup (pending p) h"
  shows "queue_ok p' s q'"
proof -
  have "fcard (fmdom q') \<le> fcard (fmdom q)"
    by (rule fcard_fmdom_mono) (simp add: assms(4))
  with assms show ?thesis
    unfolding queue_ok_def by fastforce
qed

lemma pool_ok_shrink:
  assumes "pool_ok cx p" "mp_config p' = mp_config p"
    and "\<And>h tx. fmlookup (pending p') h = Some tx \<Longrightarrow> fmlookup (pending p) h = Some tx"
    and "\<And>s q. fmlookup (by_sender p') s = Some q \<Longrightarrow> queue_ok p' s q"
  shows "pool_ok cx p'"
proof -
  have "mempool_size p' \<le> mempool_size p"
    unfolding mempool_size_def by (rule fcard_fmdom_mono) (simp add: assms(3))
  with assms show ?thesis
    unfolding pool_ok_def by fastforce
qed

lemma pool_ok_indexed:
  assumes "pool_ok cx p" "fmlookup (by_sender p) s = Some q" "fmlookup q n = Some h"
  shows "\<exists>t. fmlookup (pending p) h = Some t \<and> signer t = s \<and> nonce t = n"
  using assms by (simp add: pool_ok_def queue_ok_def)

lemma mp_config_remove [simp]: "mp_config (snd (mempool_remove p h)) = mp_config p"
  by (simp add: mempool_remove_def split: option.splits)

lemma remove_ok: "pool_ok cx p \<Longrightarrow> pool_ok cx (snd (mempool_remove p h))"
proof (cases "fmlookup (pending p) h")
  case None
  then show "pool_ok cx p \<Longrightarrow> ?thesis" by (simp add: mempool_remove_def)
next
  case (Some tx)
  assume ok: "pool_ok cx p"
  let ?p' = "snd (mempool_remove p h)"
  have fields: "pending ?p' = fmdrop h (pending p)" "by_sender ?p' = unindex (signer tx) (nonce tx) (by_sender p)"
    using Some by (simp_all add: mempool_remove_def)
  have nonempty: "fmlookup (by_sender p) s \<noteq> Some fmempty" for s
    using ok by (auto simp: pool_ok_def queue_ok_def)
  show ?thesis
  proof (rule pool_ok_shrink [OF ok])
    fix s q' assume "fmlookup (by_sender ?p') s = Some q'"
    then obtain q where q: "fmlookup (by_sender p) s = Some q" and q': "q' \<noteq> fmempty"
      "q' = (if s = signer tx then fmdrop (nonce tx) q else q)"
      using nonempty [of s] unfolding fields fmlookup_unindex by (auto split: if_splits option.splits)
    have okq: "queue_ok p s q"
      using ok q by (simp add: pool_ok_def)
    show "queue_ok ?p' s q'"
    proof (rule queue_ok_shrink [OF okq _ q'(1)])
      fix n k assume n: "fmlookup q' n = Some k"
      then have "fmlookup q n = Some k" "s \<noteq> signer tx \<or> n \<noteq> nonce tx"
        using q'(2) by (auto split: if_splits)
      with okq Some have "fmlookup q n = Some k \<and> k \<noteq> h"
        unfolding queue_ok_def by fastforce
      then show "fmlookup q n = Some k \<and> fmlookup (pending ?p') k = fmlookup (pending p) k"
        by (simp add: fields)
    qed simp
  qed (simp_all add: fields split: if_splits)
qed

lemma remove_batch_ok: "pool_ok cx p \<Longrightarrow> pool_ok cx (remove_batch p hs)"
  unfolding remove_batch_def by (induction hs arbitrary: p) (simp_all add: remove_ok)

lemma mp_config_remove_batch [simp]: "mp_config (remove_batch p hs) = mp_config p"
  unfolding remove_batch_def by (induction hs arbitrary: p) simp_all

lemma seen_ok:
  assumes "pool_ok cx p" "pending p' = pending p" "by_sender p' = by_sender p" "mp_config p' = mp_config p"
  shows "pool_ok cx p'"
  using assms by (simp add: pool_ok_def queue_ok_def mempool_size_def)

lemma mark_seen_batch_fields:
  "pending (mark_seen_batch p hs) = pending p" "by_sender (mark_seen_batch p hs) = by_sender p"
  "mp_config (mark_seen_batch p hs) = mp_config p"
  unfolding mark_seen_batch_def by (induction hs arbitrary: p) (simp_all add: mark_seen_def)

lemma prune_ok: "pool_ok cx p \<Longrightarrow> pool_ok cx (prune_below_nonce p sender min_nonce)"
proof (cases "fmlookup (by_sender p) sender")
  case None
  then show "pool_ok cx p \<Longrightarrow> ?thesis" by (simp add: prune_below_nonce_def)
next
  case (Some txs)
  assume ok: "pool_ok cx p"
  let ?p' = "prune_below_nonce p sender min_nonce"
  define stale where "stale = filter (\<lambda>(n, _). n < min_nonce) (sorted_list_of_fmap txs)"
  define kept where "kept = fold fmdrop (map fst stale) txs"
  have fields: "pending ?p' = fold fmdrop (map snd stale) (pending p)" "mp_config ?p' = mp_config p"
    "by_sender ?p' = (if kept = fmempty then fmdrop sender (by_sender p) else fmupd sender kept (by_sender p))"
    using Some by (simp_all add: prune_below_nonce_def stale_def kept_def Let_def)
  have stale: "(n, h) \<in> set stale \<longleftrightarrow> n < min_nonce \<and> fmlookup txs n = Some h" for n h
    by (auto simp: stale_def set_scan)
  have gone: "h \<in> set (map snd stale) \<longleftrightarrow> (\<exists>n < min_nonce. fmlookup txs n = Some h)" for h
    using stale by force
  have dropped: "n \<in> set (map fst stale) \<longleftrightarrow> n < min_nonce \<and> fmlookup txs n \<noteq> None" for n
    using stale by force
  have kept: "fmlookup kept n = Some h \<longleftrightarrow> fmlookup txs n = Some h \<and> \<not> n < min_nonce" for n h
    unfolding kept_def fmlookup_fold_fmdrop dropped by auto
  have okq: "fmlookup (by_sender p) s = Some q \<Longrightarrow> queue_ok p s q" for s q
    using ok by (simp add: pool_ok_def)
  show ?thesis
  proof (rule pool_ok_shrink [OF ok fields(2)])
    show "fmlookup (pending p) h = Some tx" if "fmlookup (pending ?p') h = Some tx" for h tx
      using that unfolding fields fmlookup_fold_fmdrop by (simp split: if_splits)
    fix s q' assume "fmlookup (by_sender ?p') s = Some q'"
    then consider "s = sender" "q' = kept" "kept \<noteq> fmempty" | "s \<noteq> sender" "fmlookup (by_sender p) s = Some q'"
      unfolding fields by (auto split: if_splits)
    then obtain q where q: "fmlookup (by_sender p) s = Some q" "q' \<noteq> fmempty"
      and sub: "\<And>n h. fmlookup q' n = Some h \<Longrightarrow> fmlookup q n = Some h \<and> \<not> (s = sender \<and> n < min_nonce)"
      by cases (use Some kept okq in \<open>fastforce simp: queue_ok_def\<close>)+
    show "queue_ok ?p' s q'"
    proof (rule queue_ok_shrink [OF okq [OF q(1)] fields(2) q(2)])
      fix n h assume n: "fmlookup q' n = Some h"
      have "\<not> (\<exists>m < min_nonce. fmlookup txs m = Some h)"
        using pool_ok_indexed [OF ok Some] pool_ok_indexed [OF ok q(1)] sub [OF n] by fastforce
      then show "fmlookup q n = Some h \<and> fmlookup (pending ?p') h = fmlookup (pending p) h"
        using sub [OF n] unfolding fields fmlookup_fold_fmdrop gone by auto
    qed
  qed
qed

lemma lowest_scan_member:
  assumes "lowest_scan es f ho = (f', Some h)"
  shows "ho = Some h \<or> h \<in> fst ` set es"
  using assms by (induction es f ho rule: lowest_scan.induct) (auto split: if_splits)

lemma evict_cases:
  assumes "try_evict_lowest_fee p tx = (b, p')"
  obtains (kept) "\<not> b" "p' = p"
  | (evicted) h old where "b" "fmlookup (pending p) h = Some old" "p' = snd (mempool_remove p h)"
proof -
  obtain f ho where scan: "lowest_scan (sorted_list_of_fmap (pending p)) (- 1) None = (f, ho)"
    by fastforce
  show thesis
  proof (cases ho)
    case None
    with assms scan kept show ?thesis by (simp add: try_evict_lowest_fee_def)
  next
    case (Some h)
    then obtain old where old: "fmlookup (pending p) h = Some old"
      using lowest_scan_member [OF scan [unfolded Some]] by (auto simp: set_scan)
    have "(b, p') = (if f < tx_fee tx then (True, snd (mempool_remove p h)) else (False, p))"
      using assms scan Some by (simp add: try_evict_lowest_fee_def)
    then show ?thesis
      using kept evicted [OF _ old] by (cases "f < tx_fee tx") simp_all
  qed
qed

lemma size_remove:
  "fmlookup (pending p) h = Some tx \<Longrightarrow> mempool_size (snd (mempool_remove p h)) = mempool_size p - 1"
  by (simp add: mempool_remove_def mempool_size_def fcard_fminus_fsingleton fmdomI)

lemma admission_checkD:
  assumes "admission_check cx p tx = Ok u"
  shows "min_fee (mp_config p) \<le> tx_fee tx" "verify_signature (mp_config p) \<Longrightarrow> check_signature cx tx = Ok ()"
    "fmlookup (by_sender p) (signer tx) = Some q \<Longrightarrow> fcard (fmdom q) < max_per_account (mp_config p)"
  using assms by (auto simp: admission_check_def Let_def split: if_splits result.splits)

lemma add_pending_ok:
  assumes ok: "pool_ok cx p" and new: "fmlookup (pending p) (stx_tx_hash tx) = None"
    and room: "mempool_size p < max_size (mp_config p)" and good: "tx_admissible cx (mp_config p) tx"
    and limit: "\<And>q. fmlookup (by_sender p) (signer tx) = Some q \<Longrightarrow> fcard (fmdom q) < max_per_account (mp_config p)"
  shows "pool_ok cx (add_pending tx p)"
proof -
  let ?h = "stx_tx_hash tx" and ?p' = "add_pending tx p"
  define q0 where "q0 = unwrap_or (fmlookup (by_sender p) (signer tx)) fmempty"
  have fields: "pending ?p' = fmupd ?h tx (pending p)" "mp_config ?p' = mp_config p"
    "by_sender ?p' = fmupd (signer tx) (fmupd (nonce tx) ?h q0) (by_sender p)"
    by (simp_all add: add_pending_def q0_def)
  have old: "\<exists>t. fmlookup (pending p) h = Some t \<and> h \<noteq> ?h \<and> signer t = s \<and> nonce t = n"
    if "fmlookup (by_sender p) s = Some q" "fmlookup q n = Some h" for s q n h
    using pool_ok_indexed [OF ok that] new by auto
  have q0: "fmlookup q0 n = Some h \<Longrightarrow> \<exists>q. fmlookup (by_sender p) (signer tx) = Some q \<and> fmlookup q n = Some h" for n h
    by (cases "fmlookup (by_sender p) (signer tx)") (simp_all add: q0_def)
  have "fcard (fmdom q0) < max 1 (max_per_account (mp_config p))"
    using limit by (cases "fmlookup (by_sender p) (signer tx)") (simp_all add: q0_def less_max_iff_disj)
  then have card: "fcard (fmdom (fmupd (nonce tx) ?h q0)) \<le> max 1 (max_per_account (mp_config p))"
    using fcard_finsert_if [of "nonce tx" "fmdom q0"] by (simp split: if_splits)
  have found: "\<exists>t. fmlookup (pending ?p') h = Some t \<and> signer t = s \<and> nonce t = n"
    if "fmlookup (by_sender p) s = Some q" "fmlookup q n = Some h" for s q n h
    using old [OF that] by (auto simp: fields)
  have "queue_ok ?p' (signer tx) (fmupd (nonce tx) ?h q0)"
    unfolding queue_ok_def fields(2)
  proof (intro conjI card allI impI)
    show "fmupd (nonce tx) ?h q0 \<noteq> fmempty"
      by (rule fmupd_nonempty)
    fix n h assume "fmlookup (fmupd (nonce tx) ?h q0) n = Some h"
    then have h: "(if n = nonce tx then Some ?h else fmlookup q0 n) = Some h"
      by (simp only: fmupd_lookup split: if_split_asm) simp_all
    show "\<exists>t. fmlookup (pending ?p') h = Some t \<and> signer t = signer tx \<and> nonce t = n"
    proof (cases "n = nonce tx")
      case True
      with h have "h = ?h" by simp
      then show ?thesis by (simp add: fields(1) True)
    next
      case False
      with h have "fmlookup q0 n = Some h" by (simp only: if_False)
      from q0 [OF this] found show ?thesis by blast
    qed
  qed
  moreover have "queue_ok ?p' s q" if "fmlookup (by_sender p) s = Some q" for s q
    using ok that found [OF that] by (simp add: pool_ok_def queue_ok_def fields(2))
  moreover have "mempool_size ?p' \<le> max_size (mp_config p)"
    using room fcard_finsert_if [of ?h "fmdom (pending p)"] by (simp add: fields mempool_size_def split: if_splits)
  ultimately show ?thesis
    using ok good by (simp add: pool_ok_def fields)
qed

text \<open>What an insertion does: it may first remove a transaction from a full pool, then adds the new one or fails.\<close>

lemma insert_cases:
  assumes "mempool_insert cx p tx = (r, p')"
  obtains (unchanged) "r \<noteq> Ok ()" "p' = p"
  | (passed) q where
      "fmlookup (pending p) (stx_tx_hash tx) = None"
      "mp_chain_id (mp_config p) = '''' \<or> tx_chain_id (stx_transaction tx) = mp_chain_id (mp_config p)"
      "q = p \<and> mempool_size p < max_size (mp_config p) \<or>
       (\<exists>h old. fmlookup (pending p) h = Some old \<and> q = snd (mempool_remove p h))"
      "(r, p') = (case admission_check cx q tx of Err e \<Rightarrow> (Err e, q) | Panic \<Rightarrow> (Panic, q) | Ok _ \<Rightarrow> (Ok (), add_pending tx q))"
proof -
  let ?early = "fmlookup (pending p) (stx_tx_hash tx) \<noteq> None \<or> stx_tx_hash tx |\<in>| recently_seen p \<or>
    mp_chain_id (mp_config p) \<noteq> '''' \<and> tx_chain_id (stx_transaction tx) \<noteq> mp_chain_id (mp_config p)"
  define step where "step = (if max_size (mp_config p) \<le> fcard (fmdom (pending p)) then try_evict_lowest_fee p tx else (True, p))"
  obtain b q where bq: "step = (b, q)" by fastforce
  show thesis
  proof (cases ?early)
    case True
    with assms have "r \<noteq> Ok () \<and> p' = p"
      by (auto simp: mempool_insert_def Let_def split: if_splits)
    with unchanged show ?thesis by blast
  next
    case False
    then have fresh: "fmlookup (pending p) (stx_tx_hash tx) = None" "stx_tx_hash tx |\<notin>| recently_seen p"
      "\<not> (mp_chain_id (mp_config p) \<noteq> '''' \<and> tx_chain_id (stx_transaction tx) \<noteq> mp_chain_id (mp_config p))"
      by blast+
    have run: "(r, p') = (case (b, q) of (False, q) \<Rightarrow> (Err MempoolFull, q) | (True, q) \<Rightarrow>
        (case admission_check cx q tx of Err e \<Rightarrow> (Err e, q) | Panic \<Rightarrow> (Panic, q) | Ok _ \<Rightarrow> (Ok (), add_pending tx q)))"
      using assms unfolding mempool_insert_def Let_def if_not_P [OF fresh(2)] if_not_P [OF fresh(3)]
        step_def [symmetric] bq by (simp add: fresh(1))
    show ?thesis
    proof (cases "max_size (mp_config p) \<le> fcard (fmdom (pending p))")
      case True
      with bq have "try_evict_lowest_fee p tx = (b, q)" by (simp add: step_def)
      then show ?thesis
      proof (cases rule: evict_cases)
        case kept
        with run unchanged show ?thesis by simp
      next
        case (evicted h old)
        show ?thesis
          by (rule passed [of q]) (use False evicted run in auto)
      qed
    next
      case small: False
      with bq have "b" "q = p" by (simp_all add: step_def)
      show ?thesis
        by (rule passed [of p]) (use False small run \<open>b\<close> \<open>q = p\<close> in \<open>auto simp: mempool_size_def\<close>)
    qed
  qed
qed

lemma insert_ok:
  assumes ok: "pool_ok cx p"
  shows "pool_ok cx (snd (mempool_insert cx p tx)) \<and> mp_config (snd (mempool_insert cx p tx)) = mp_config p"
proof -
  obtain r p' where run: "mempool_insert cx p tx = (r, p')" by fastforce
  then show ?thesis
  proof (cases rule: insert_cases)
    case unchanged
    with ok run show ?thesis by simp
  next
    case (passed q)
    have q: "pool_ok cx q" "mp_config q = mp_config p" "fmlookup (pending q) (stx_tx_hash tx) = None"
      using passed(1,3) ok remove_ok by (auto simp: mempool_remove_def)
    have room: "mempool_size q < max_size (mp_config q)"
    proof (cases "mempool_size p < max_size (mp_config p)")
      case True
      then show ?thesis using passed(3) size_remove q(2) by fastforce
    next
      case False
      with passed(3) obtain h old where h: "fmlookup (pending p) h = Some old" "q = snd (mempool_remove p h)" by blast
      have "fmdom (pending p) \<noteq> {||}"
        using fmdomI [OF h(1)] by auto
      then have "0 < mempool_size p"
        by (simp add: mempool_size_def neq0_conv [symmetric] del: neq0_conv)
      moreover have "mempool_size p \<le> max_size (mp_config p)"
        using ok by (simp add: pool_ok_def)
      ultimately show ?thesis using h(2) q(2) size_remove [OF h(1)] by simp
    qed
    have "pool_ok cx (add_pending tx q)" if "admission_check cx q tx = Ok u" for u
      using q room passed(2) admission_checkD [OF that]
      by (intro add_pending_ok) (auto simp: tx_admissible_def)
    then have "pool_ok cx p' \<and> mp_config p' = mp_config p"
      using passed(4) q(1,2) by (cases "admission_check cx q tx") (simp_all add: add_pending_def)
    with run show ?thesis by simp
  qed
qed

lemma reachable_pool_ok:
  assumes "reachable_pool cx config p"
  shows "pool_ok cx p \<and> mp_config p = config"
  using assms
proof induction
  case created
  then show ?case by (simp add: Mempool_new_def pool_ok_def mempool_size_def fcard_fempty)
next
  case (inserted p tx)
  then show ?case using insert_ok by metis
next
  case (expired p now)
  then show ?case by (simp add: evict_expired_def Let_def remove_batch_ok)
next
  case (cleared p)
  then show ?case by (simp add: mempool_clear_def pool_ok_def mempool_size_def fcard_fempty)
next
  case (seen p h)
  then show ?case using seen_ok [of cx p "mark_seen p h"] by (simp add: mark_seen_def)
next
  case (batch_seen p hs)
  then show ?case using seen_ok [of cx p "mark_seen_batch p hs"] by (simp add: mark_seen_batch_fields)
next
  case (forgotten p)
  then show ?case using seen_ok [of cx p "clear_recently_seen p"] by (simp add: clear_recently_seen_def)
next
  case (pruned p s n)
  moreover have "mp_config (prune_below_nonce p s n) = mp_config p"
    by (simp add: prune_below_nonce_def Let_def split: option.splits)
  ultimately show ?case by (simp add: prune_ok)
qed (simp_all add: remove_ok remove_batch_ok)

text \<open>The scan for a victim finds the lowest fee.\<close>

lemma lowest_scan_lowest:
  assumes "lowest_scan es f ho = (f', ho')"
  shows "f' \<le> f" "(h, tx) \<in> set es \<Longrightarrow> f' \<le> tx_fee tx"
    "f' < f \<Longrightarrow> \<exists>h tx. ho' = Some h \<and> (h, tx) \<in> set es \<and> tx_fee tx = f'"
proof -
  have "f' \<le> f \<and> (\<forall>(h, tx) \<in> set es. f' \<le> tx_fee tx) \<and>
    (f' < f \<longrightarrow> (\<exists>h tx. ho' = Some h \<and> (h, tx) \<in> set es \<and> tx_fee tx = f')) \<and> (f' = f \<longrightarrow> ho' = ho)"
    using assms
  proof (induction es f ho rule: lowest_scan.induct)
    case (2 h tx es f ho)
    show ?case
    proof (cases "tx_fee tx < f")
      case True
      with 2(1,3) show ?thesis by (auto simp: le_less)
    next
      case False
      with 2(2,3) show ?thesis by auto
    qed
  qed simp
  then show "f' \<le> f" "(h, tx) \<in> set es \<Longrightarrow> f' \<le> tx_fee tx"
    "f' < f \<Longrightarrow> \<exists>h tx. ho' = Some h \<and> (h, tx) \<in> set es \<and> tx_fee tx = f'"
    by auto
qed

subsection \<open>What the pool serves\<close>

lemma candidates_of_pool:
  assumes "pool_ok cx p"
  shows "map stx_tx_hash (map snd (sorted_list_of_fmap (pending p))) = map fst (sorted_list_of_fmap (pending p))"
    "length (sorted_list_of_fmap (pending p)) = mempool_size p"
proof -
  show "map stx_tx_hash (map snd (sorted_list_of_fmap (pending p))) = map fst (sorted_list_of_fmap (pending p))"
    using assms by (auto simp: pool_ok_def set_scan)
  have "length (map fst (sorted_list_of_fmap (pending p))) = mempool_size p"
    unfolding map_fst_scan mempool_size_def fcard.rep_eq by (simp add: sorted_list_of_fset.rep_eq)
  then show "length (sorted_list_of_fmap (pending p)) = mempool_size p" by simp
qed

lemma block_candidates:
  assumes "pool_ok cx p"
  defines "txs \<equiv> sort_key (\<lambda>tx. - uint (tx_fee tx)) (map snd (sorted_list_of_fmap (pending p)))"
  shows "length txs = mempool_size p" "distinct (map stx_tx_hash txs)"
    "sorted_wrt (\<lambda>a b. tx_fee b \<le> tx_fee a) txs" "set txs = {tx. \<exists>h. fmlookup (pending p) h = Some tx}"
proof -
  have perm: "mset txs = mset (map snd (sorted_list_of_fmap (pending p)))"
    by (simp add: txs_def)
  show "length txs = mempool_size p"
    using mset_eq_length [OF perm] candidates_of_pool(2) [OF assms(1)] by simp
  have "mset (map stx_tx_hash txs) = mset (map fst (sorted_list_of_fmap (pending p)))"
    using arg_cong [OF perm, of "image_mset stx_tx_hash"] candidates_of_pool(1) [OF assms(1)]
    by (metis mset_map)
  then show "distinct (map stx_tx_hash txs)"
    using mset_eq_imp_distinct_iff distinct_keys_scan by blast
  have "sorted (map (\<lambda>tx. - uint (tx_fee tx)) txs)"
    by (simp add: txs_def)
  then show "sorted_wrt (\<lambda>a b. tx_fee b \<le> tx_fee a) txs"
    by (simp add: sorted_map word_le_def)
  show "set txs = {tx. \<exists>h. fmlookup (pending p) h = Some tx}"
    by (force simp: txs_def set_scan image_iff)
qed

lemma account_queue:
  assumes ok: "pool_ok cx p" and q: "fmlookup (by_sender p) s = Some q"
  shows "map nonce (get_account_txs p s) = map fst (sorted_list_of_fmap q)"
    "t \<in> set (get_account_txs p s) \<Longrightarrow> signer t = s"
proof -
  have found: "\<exists>t. fmlookup (pending p) h = Some t \<and> signer t = s \<and> nonce t = n"
    if "(n, h) \<in> set (sorted_list_of_fmap q)" for n h
    using pool_ok_indexed [OF ok q] that by (simp add: set_scan)
  have "map nonce (List.map_filter (\<lambda>(_, h). fmlookup (pending p) h) xs) = map fst xs \<and>
      (\<forall>t \<in> set (List.map_filter (\<lambda>(_, h). fmlookup (pending p) h) xs). signer t = s)"
    if "set xs \<subseteq> set (sorted_list_of_fmap q)" for xs
    using that
  proof (induction xs)
    case (Cons x xs)
    obtain n h where x: "x = (n, h)" by fastforce
    with Cons.prems found obtain t where "fmlookup (pending p) h = Some t" "signer t = s" "nonce t = n" by auto
    with Cons x show ?case by (simp add: map_filter_simps)
  qed (simp add: map_filter_simps)
  from this [OF order_refl] show "map nonce (get_account_txs p s) = map fst (sorted_list_of_fmap q)"
    "t \<in> set (get_account_txs p s) \<Longrightarrow> signer t = s"
    by (simp_all add: get_account_txs_def q)
qed

lemma account_txs_ok:
  assumes ok: "pool_ok cx p"
  shows "sorted_wrt (<) (map nonce (get_account_txs p s)) \<and>
      length (get_account_txs p s) \<le> max 1 (max_per_account (mp_config p)) \<and> (\<forall>tx \<in> set (get_account_txs p s). signer tx = s)"
proof (cases "fmlookup (by_sender p) s")
  case None
  then show ?thesis by (simp add: get_account_txs_def)
next
  case (Some q)
  note acct = account_queue [OF ok Some]
  have "length (map fst (sorted_list_of_fmap q)) = fcard (fmdom q)"
    unfolding map_fst_scan fcard.rep_eq by (simp add: sorted_list_of_fset.rep_eq)
  then have "length (get_account_txs p s) = fcard (fmdom q)"
    unfolding acct(1) [symmetric] by simp
  moreover have "fcard (fmdom q) \<le> max 1 (max_per_account (mp_config p))"
    using ok Some by (simp add: pool_ok_def queue_ok_def)
  ultimately have "length (get_account_txs p s) \<le> max 1 (max_per_account (mp_config p))"
    by simp
  then show ?thesis
    using acct(2) sorted_keys_scan [of q] distinct_keys_scan [of q] unfolding acct(1) strict_sorted_iff by simp
qed


text \<open>An example pool: it holds one transaction at most and verifies signatures only where asked to.\<close>

definition example_tx :: "u64 \<Rightarrow> hash \<Rightarrow> SignedTransaction" where
  "example_tx offered h = \<lparr>stx_transaction = \<lparr>tx_chain_id = ''polay'', tx_nonce = 0, tx_signer = 7,
     tx_action = Transfer 8 1, tx_max_fee = offered, tx_timestamp = 0, tx_session = None, tx_sponsor = None\<rparr>,
     stx_signature = 0, stx_tx_hash = h, stx_signer_pubkey = []\<rparr>"

definition example_config :: "bool \<Rightarrow> MempoolConfig" where
  "example_config verify = \<lparr>max_size = 1, max_per_account = 100, min_fee = 1000, verify_signature = verify,
     mp_chain_id = ''polay'', max_nonce_gap = 16, tx_ttl_secs = 300\<rparr>"

lemmas example_defs = example_tx_def example_config_def mempool_insert_def Mempool_new_def Let_def signer_def nonce_def
  admission_check_def check_nonce_gap_def add_pending_def mempool_size_def fcard_fempty

lemma example_insert:
  "mempool_insert cx (Mempool_new (example_config False)) (example_tx 2000 5) =
     (Ok (), add_pending (example_tx 2000 5) (Mempool_new (example_config False)))"
  by (simp add: example_defs)


text \<open>
  A transaction the pool rejects can still push out a valid one. When the pool is full and holds a
  transaction that offers less than the new one, a new transaction whose public key does not even have the
  right length is refused, and the cheapest pending transaction is removed all the same: the eviction
  precedes the checks on the account, the fee, the nonce and the signature.
\<close>

theorem rejected_insert_evicts:
  assumes "verify_signature (mp_config p)" "length (stx_signer_pubkey tx) \<noteq> 32"
    and fresh: "mempool_get p (stx_tx_hash tx) = None" "stx_tx_hash tx |\<notin>| recently_seen p"
      "mp_chain_id (mp_config p) = tx_chain_id (stx_transaction tx)"
    and full: "max_size (mp_config p) \<le> mempool_size p"
    and cheaper: "mempool_get p h = Some old" "tx_fee old < tx_fee tx"
  shows "\<exists>e h' old'. mempool_get p h' = Some old' \<and> tx_fee old' \<le> tx_fee old \<and>
     mempool_insert cx p tx = (Err e, snd (mempool_remove p h')) \<and>
     mempool_get (snd (mempool_insert cx p tx)) h' = None \<and>
     mempool_size (snd (mempool_insert cx p tx)) = mempool_size p - 1"
proof -
  obtain f ho where scan: "lowest_scan (sorted_list_of_fmap (pending p)) (- 1) None = (f, ho)" by fastforce
  have old: "(h, old) \<in> set (sorted_list_of_fmap (pending p))"
    using cheaper(1) by (simp add: set_scan mempool_get_def)
  then have f: "f \<le> tx_fee old" by (rule lowest_scan_lowest(2) [OF scan])
  also note cheaper(2)
  finally have less: "f < tx_fee tx" .
  also have "tx_fee tx \<le> - 1" by simp
  finally obtain h' old' where h': "ho = Some h'" "fmlookup (pending p) h' = Some old'" "tx_fee old' = f"
    using lowest_scan_lowest(3) [OF scan] by (auto simp: set_scan)
  let ?q = "snd (mempool_remove p h')"
  have evict: "try_evict_lowest_fee p tx = (True, ?q)"
    using scan h' less by (simp add: try_evict_lowest_fee_def)
  have "\<exists>e. admission_check cx ?q tx = Err e"
    using assms(1,2) by (auto simp: admission_check_def check_nonce_gap_def check_signature_def Let_def
        split: option.splits list.splits)
  then obtain e where "admission_check cx ?q tx = Err e" by blast
  with evict fresh full have run: "mempool_insert cx p tx = (Err e, ?q)"
    by (simp add: mempool_insert_def Let_def mempool_get_def mempool_size_def)
  have "mempool_get ?q h' = None"
    using h'(2) by (simp add: mempool_get_def mempool_remove_def)
  with run h' f size_remove [OF h'(2)] show ?thesis
    unfolding mempool_get_def by (metis snd_conv)
qed

theorem rejected_insert_evicts_witness:
  "\<exists>p :: Mempool. mempool_get p 5 = Some (example_tx 2000 5) \<and>
     (\<exists>cx e. fst (mempool_insert cx p (example_tx 3000 6)) = Err e \<and>
        mempool_size (snd (mempool_insert cx p (example_tx 3000 6))) = 0)"
proof -
  fix cx :: crypto
  let ?p = "add_pending (example_tx 2000 5) (Mempool_new (example_config True))"
  have get: "mempool_get ?p 5 = Some (example_tx 2000 5)" and size: "mempool_size ?p = 1"
    by (simp_all add: mempool_get_def example_defs fcard_finsert_if)
  have "\<exists>e. fst (mempool_insert cx ?p (example_tx 3000 6)) = Err e \<and>
      mempool_size (snd (mempool_insert cx ?p (example_tx 3000 6))) = 0"
    using rejected_insert_evicts [of ?p "example_tx 3000 6" 5 "example_tx 2000 5" cx] get size
    by (fastforce simp: mempool_get_def example_defs)
  with get show ?thesis by blast
qed

end
