(* ===== verification/Polay_Blocks.thy ===== *)
theory Polay_Blocks
  imports Polay_Accounting Polay_Genesis Polay_Mempool
begin

section \<open>Producing, validating and applying blocks\<close>

text \<open>
  \<^verbatim>\<open>polay-validator/src/{block_validator,block_producer,chain,error}.rs\<close>: what a validator checks before it
  votes, how it builds a block from its pool, and what a committed block writes. The libraries of the node are
  one record: those of the executor, those of \<open>crypto\<close>, and \<open>nx_raw\<close>, the key-value store that Borsh makes of
  a typed store, on which the state root is computed. \<open>nx_parallel\<close> stands for the parallel executor, which the
  producer runs in place of the sequential one where the configuration says so.
\<close>

record node_externals =
  nx_ext :: externals
  nx_crypto :: crypto
  nx_raw :: "node_store \<Rightarrow> MemoryStore"
  nx_parallel :: "SignedTransaction list \<Rightarrow> u64 \<Rightarrow> address \<Rightarrow> chain_state \<Rightarrow> TransactionReceipt list \<times> chain_state"

datatype transaction_fault =
    tx_hash_fault hash hash
  | pubkey_length_fault nat
  | pubkey_fault
  | signer_fault
  | payload_fault CryptoError
  | signature_fault CryptoError

datatype BlockValidationError =
    InvalidBlockHash hash hash
  | InvalidParentHash hash hash
  | InvalidTransactionsRoot hash hash
  | InvalidStateRoot hash hash
  | InvalidTransaction_block nat transaction_fault
  | HeightMismatch u64 u64
  | ChainIdMismatch_block string string
  | TooManyTransactions nat nat
  | BlockGasExceeded
  | ExecutionError_block CryptoError
  | StateError_block StateError

subsection \<open>Validation\<close>

definition validate_chain_id :: "ChainConfig \<Rightarrow> string \<Rightarrow> (BlockValidationError, unit) result" where
  "validate_chain_id config chain_id =
     (if chain_id \<noteq> cfg_chain_id config then Err (ChainIdMismatch_block (cfg_chain_id config) chain_id) else Ok ())"

definition validate_height :: "u64 \<Rightarrow> u64 \<Rightarrow> (BlockValidationError, unit) result" where
  "validate_height got expected = (if got \<noteq> expected then Err (HeightMismatch expected got) else Ok ())"

definition validate_parent_hash :: "hash \<Rightarrow> hash \<Rightarrow> (BlockValidationError, unit) result" where
  "validate_parent_hash got expected = (if got \<noteq> expected then Err (InvalidParentHash expected got) else Ok ())"

definition validate_tx_count :: "ChainConfig \<Rightarrow> nat \<Rightarrow> (BlockValidationError, unit) result" where
  "validate_tx_count config n =
     (let m = unat (cfg_max_block_transactions config)
      in if m < n then Err (TooManyTransactions n m) else Ok ())"

definition validate_block_hash :: "crypto \<Rightarrow> Block \<Rightarrow> (BlockValidationError, unit) result" where
  "validate_block_hash cx block =
     (case hash_block_header cx (blk_header block) of
        Err e \<Rightarrow> Err (ExecutionError_block e)
      | Panic \<Rightarrow> Panic
      | Ok computed \<Rightarrow>
          (if computed \<noteq> bh_hash (blk_header block) then Err (InvalidBlockHash computed (bh_hash (blk_header block)))
           else Ok ()))"

definition validate_transactions_root :: "crypto \<Rightarrow> Block \<Rightarrow> (BlockValidationError, unit) result" where
  "validate_transactions_root cx block =
     (let tx_hashes = map stx_tx_hash (blk_transactions block);
          computed_root = (if tx_hashes = [] then ZERO else merkle_root (cx_sha256 cx) tx_hashes)
      in if computed_root \<noteq> bh_transactions_root (blk_header block)
         then Err (InvalidTransactionsRoot computed_root (bh_transactions_root (blk_header block))) else Ok ())"

text \<open>One turn of the loop of \<open>validate_all_transactions\<close>.\<close>

definition validate_transaction_at :: "crypto \<Rightarrow> nat \<Rightarrow> SignedTransaction \<Rightarrow> (BlockValidationError, unit) result" where
  "validate_transaction_at cx i tx =
     (case cx_tx_bytes cx (stx_transaction tx) of
        Inl _ \<Rightarrow> Panic
      | Inr signing_bytes \<Rightarrow>
          (let computed_hash = cx_sha256 cx (signing_bytes @ be_bytes 64 (stx_signature tx))
           in if computed_hash \<noteq> stx_tx_hash tx
              then Err (InvalidTransaction_block i (tx_hash_fault computed_hash (stx_tx_hash tx)))
              else if length (stx_signer_pubkey tx) \<noteq> 32
              then Err (InvalidTransaction_block i (pubkey_length_fault (length (stx_signer_pubkey tx))))
              else case PublicKey_from_bytes cx (stx_signer_pubkey tx) of
                Err _ \<Rightarrow> Err (InvalidTransaction_block i pubkey_fault)
              | Panic \<Rightarrow> Panic
              | Ok pubkey \<Rightarrow>
                  (if PublicKey_address cx pubkey \<noteq> tx_signer (stx_transaction tx)
                   then Err (InvalidTransaction_block i signer_fault)
                   else case build_tx_signing_payload cx (stx_transaction tx) of
                     Err e \<Rightarrow> Err (InvalidTransaction_block i (payload_fault e))
                   | Panic \<Rightarrow> Panic
                   | Ok payload \<Rightarrow>
                       (case PublicKey_verify cx pubkey payload (stx_signature tx) of
                          Err e \<Rightarrow> Err (InvalidTransaction_block i (signature_fault e))
                        | Panic \<Rightarrow> Panic
                        | Ok _ \<Rightarrow> Ok ()))))"

fun validate_all_transactions :: "crypto \<Rightarrow> nat \<Rightarrow> SignedTransaction list \<Rightarrow> (BlockValidationError, unit) result" where
  "validate_all_transactions cx i [] = Ok ()"
| "validate_all_transactions cx i (tx # txs) =
     (case validate_transaction_at cx i tx of
        Ok _ \<Rightarrow> validate_all_transactions cx (Suc i) txs
      | Err e \<Rightarrow> Err e
      | Panic \<Rightarrow> Panic)"

definition state_root_of :: "node_externals \<Rightarrow> node_store \<Rightarrow> (StateError, hash) result" where
  "state_root_of nx store =
     (case compute_state_root (cx_sha256 (nx_crypto nx)) memory_store (nx_raw nx store) of
        Ok commitment \<Rightarrow> Ok (sc_root commitment)
      | Err e \<Rightarrow> Err e
      | Panic \<Rightarrow> Panic)"

definition validate_execution_and_state_root ::
  "node_externals \<Rightarrow> ChainConfig \<Rightarrow> Block \<Rightarrow> node_store \<Rightarrow> (BlockValidationError, unit) result \<times> node_store" where
  "validate_execution_and_state_root nx config block store =
     (case Executor_new config of
        Ok executor \<Rightarrow>
          (let (_, s) = execute_block (nx_ext nx) executor (blk_transactions block) (bh_height (blk_header block))
                 (bh_proposer (blk_header block)) (ns_chain store);
               store = store\<lparr>ns_chain := s\<rparr>
           in case state_root_of nx store of
                Err e \<Rightarrow> (Err (StateError_block e), store)
              | Panic \<Rightarrow> (Panic, store)
              | Ok root \<Rightarrow>
                  (if root \<noteq> bh_state_root (blk_header block)
                   then (Err (InvalidStateRoot (bh_state_root (blk_header block)) root), store) else (Ok (), store)))
      | _ \<Rightarrow> (Panic, store))"

text \<open>The chain of \<open>?\<close> operators: the first result that is not \<open>Ok\<close>.\<close>

fun first_failure :: "('e, unit) result list \<Rightarrow> ('e, unit) result" where
  "first_failure [] = Ok ()"
| "first_failure (Ok _ # rs) = first_failure rs"
| "first_failure (Err e # rs) = Err e"
| "first_failure (Panic # rs) = Panic"

definition validate_block_light :: "crypto \<Rightarrow> ChainConfig \<Rightarrow> Block \<Rightarrow> u64 \<Rightarrow> hash \<Rightarrow> (BlockValidationError, unit) result" where
  "validate_block_light cx config block expected_height expected_parent_hash =
     first_failure
       [validate_chain_id config (bh_chain_id (blk_header block)),
        validate_height (bh_height (blk_header block)) expected_height,
        validate_parent_hash (bh_parent_hash (blk_header block)) expected_parent_hash,
        validate_tx_count config (length (blk_transactions block)),
        validate_block_hash cx block,
        validate_transactions_root cx block]"

definition validate_proposed_block ::
  "node_externals \<Rightarrow> ChainConfig \<Rightarrow> Block \<Rightarrow> u64 \<Rightarrow> hash \<Rightarrow> node_store \<Rightarrow> (BlockValidationError, unit) result \<times> node_store" where
  "validate_proposed_block nx config block expected_height expected_parent_hash store =
     (case first_failure
        [validate_chain_id config (bh_chain_id (blk_header block)),
         validate_height (bh_height (blk_header block)) expected_height,
         validate_parent_hash (bh_parent_hash (blk_header block)) expected_parent_hash,
         validate_tx_count config (length (blk_transactions block)),
         validate_block_hash (nx_crypto nx) block,
         validate_transactions_root (nx_crypto nx) block,
         validate_all_transactions (nx_crypto nx) 0 (blk_transactions block)] of
        Err e \<Rightarrow> (Err e, store)
      | Panic \<Rightarrow> (Panic, store)
      | Ok _ \<Rightarrow> validate_execution_and_state_root nx config block store)"

subsection \<open>Production\<close>

definition produce_block ::
  "node_externals \<Rightarrow> ChainConfig \<Rightarrow> bytes \<Rightarrow> u64 \<Rightarrow> u64 \<Rightarrow> hash \<Rightarrow> hash \<Rightarrow> Mempool \<Rightarrow> string \<Rightarrow> node_store \<Rightarrow>
   (ValidatorError, Block \<times> TransactionReceipt list) result \<times> node_store" where
  "produce_block nx config secret now height parent_hash state_root pool chain_id store =
     (let pending_txs = get_pending_for_block pool (unat (cfg_max_block_transactions config));
          proposer_addr = Keypair_address (nx_crypto nx) secret;
          (receipts, s) =
            (if cfg_parallel_execution config then nx_parallel nx pending_txs height proposer_addr (ns_chain store)
             else execute_block (nx_ext nx) config pending_txs height proposer_addr (ns_chain store));
          store = store\<lparr>ns_chain := s\<rparr>
      in case propose_block (nx_crypto nx) height 0 parent_hash state_root pending_txs chain_id proposer_addr now of
           Ok block \<Rightarrow> (Ok (block, receipts), store)
         | _ \<Rightarrow> (Panic, store))"

subsection \<open>Application\<close>

fun apply_receipts :: "u64 \<Rightarrow> nat \<Rightarrow> TransactionReceipt list \<Rightarrow> chain_state \<Rightarrow> chain_state" where
  "apply_receipts height idx [] s = s"
| "apply_receipts height idx (receipt # receipts) s =
     apply_receipts height (Suc idx) receipts
       (set_tx_location (rcp_tx_hash receipt) \<lparr>loc_block_height = height, loc_tx_index = word_of_nat idx\<rparr> (set_receipt receipt s))"

definition apply_block :: "Block \<Rightarrow> TransactionReceipt list \<Rightarrow> node_store \<Rightarrow> node_store" where
  "apply_block block receipts store =
     (let s1 = apply_receipts (bh_height (blk_header block)) 0 receipts (store_block block (ns_chain store));
          all_events = concat (map rcp_events receipts);
          s2 = (if all_events \<noteq> [] then set_block_events (bh_height (blk_header block)) all_events s1 else s1)
      in store\<lparr>ns_chain := set_latest_hash (block_hash block) (set_chain_height (block_height block) s2)\<rparr>)"

subsection \<open>What validation accepts\<close>

lemma first_failure_Ok: "first_failure rs = Ok u \<longleftrightarrow> list_all (\<lambda>r. r = Ok ()) rs"
  by (induction rs rule: first_failure.induct) simp_all

text \<open>The header and body of a block that extends a given tip.\<close>

definition extends_tip :: "crypto \<Rightarrow> ChainConfig \<Rightarrow> u64 \<Rightarrow> hash \<Rightarrow> Block \<Rightarrow> bool" where
  "extends_tip cx config height parent block \<longleftrightarrow>
     bh_chain_id (blk_header block) = cfg_chain_id config \<and> bh_height (blk_header block) = height \<and>
     bh_parent_hash (blk_header block) = parent \<and>
     length (blk_transactions block) \<le> unat (cfg_max_block_transactions config) \<and>
     bh_hash (blk_header block) = cx_sha256 cx (DOMAIN_BLOCK @ hash_input_bytes cx (blk_header block)) \<and>
     bh_transactions_root (blk_header block) = merkle_root (cx_sha256 cx) (map stx_tx_hash (blk_transactions block))"

lemma validate_light_iff:
  "validate_block_light cx config block height parent = Ok u \<longleftrightarrow> extends_tip cx config height parent block"
  by (auto simp: validate_block_light_def first_failure_Ok extends_tip_def validate_chain_id_def validate_height_def
      validate_parent_hash_def validate_tx_count_def validate_block_hash_def hash_block_header_def
      validate_transactions_root_def merkle_root_def Let_def)

text \<open>What block validation asks of a transaction.\<close>

definition signed_for_block :: "crypto \<Rightarrow> SignedTransaction \<Rightarrow> bool" where
  "signed_for_block cx tx \<longleftrightarrow>
     (\<exists>bs. cx_tx_bytes cx (stx_transaction tx) = Inr bs \<and>
        stx_tx_hash tx = cx_sha256 cx (bs @ be_bytes 64 (stx_signature tx)) \<and>
        length (stx_signer_pubkey tx) = 32 \<and> cx_key_error cx (stx_signer_pubkey tx) = None \<and>
        cx_sha256 cx (stx_signer_pubkey tx) = tx_signer (stx_transaction tx) \<and>
        cx_verify_error cx (stx_signer_pubkey tx) bs (stx_signature tx) = None)"

lemma validate_transaction_iff: "validate_transaction_at cx i tx = Ok u \<longleftrightarrow> signed_for_block cx tx"
proof (cases "cx_tx_bytes cx (stx_transaction tx)")
  case (Inl e)
  then show ?thesis by (simp add: validate_transaction_at_def signed_for_block_def)
next
  case (Inr bs)
  then show ?thesis
    by (cases "cx_key_error cx (stx_signer_pubkey tx)"; cases "cx_verify_error cx (stx_signer_pubkey tx) bs (stx_signature tx)")
       (auto simp: validate_transaction_at_def signed_for_block_def PublicKey_from_bytes_def PublicKey_address_def
          build_tx_signing_payload_def PublicKey_verify_def Let_def)
qed

lemma validate_transactions_iff: "validate_all_transactions cx i txs = Ok u \<longleftrightarrow> list_all (signed_for_block cx) txs"
proof (induction cx i txs rule: validate_all_transactions.induct)
  case (2 cx i tx txs)
  then show ?case
    using validate_transaction_iff [of cx i tx] by (cases "validate_transaction_at cx i tx") auto
qed simp

text \<open>The store after the transactions of a block have run.\<close>

definition executed :: "node_externals \<Rightarrow> ChainConfig \<Rightarrow> Block \<Rightarrow> node_store \<Rightarrow> node_store" where
  "executed nx config block store =
     store\<lparr>ns_chain := snd (execute_block (nx_ext nx) config (blk_transactions block) (bh_height (blk_header block))
       (bh_proposer (blk_header block)) (ns_chain store))\<rparr>"

lemma validate_execution_iff:
  "validate_execution_and_state_root nx config block store = (Ok u, store') \<longleftrightarrow>
     fee_split_ok config \<and> store' = executed nx config block store \<and>
     state_root_of nx store' = Ok (bh_state_root (blk_header block))"
  using Executor_new_ok [of config]
  by (cases "Executor_new config"; cases "state_root_of nx (executed nx config block store)")
     (auto simp: validate_execution_and_state_root_def executed_def Executor_new_def Let_def case_prod_unfold split: if_splits)

lemma validate_proposed_iff:
  "validate_proposed_block nx config block height parent store = (Ok u, store') \<longleftrightarrow>
     extends_tip (nx_crypto nx) config height parent block \<and>
     list_all (signed_for_block (nx_crypto nx)) (blk_transactions block) \<and>
     validate_execution_and_state_root nx config block store = (Ok u, store')"
proof -
  let ?checks = "[validate_chain_id config (bh_chain_id (blk_header block)),
         validate_height (bh_height (blk_header block)) height,
         validate_parent_hash (bh_parent_hash (blk_header block)) parent,
         validate_tx_count config (length (blk_transactions block)),
         validate_block_hash (nx_crypto nx) block,
         validate_transactions_root (nx_crypto nx) block,
         validate_all_transactions (nx_crypto nx) 0 (blk_transactions block)]"
  have "first_failure ?checks = Ok u \<longleftrightarrow> validate_block_light (nx_crypto nx) config block height parent = Ok () \<and>
      validate_all_transactions (nx_crypto nx) 0 (blk_transactions block) = Ok ()" for u
    unfolding validate_block_light_def first_failure_Ok by auto
  then show ?thesis
    unfolding validate_light_iff validate_transactions_iff validate_proposed_block_def
    by (cases "first_failure ?checks") auto
qed

text \<open>
  C11: Full validation accepts a block exactly when its header extends the tip (chain, height, parent, hash,
  transaction root, size), every transaction carries the hash of its payload and signature and a valid signature
  by the key its signer address derives from, the fee split of the configuration is sound, and executing the
  block gives the state root the header claims. It leaves the executed store behind.
\<close>

theorem block_validation_exact:
  "validate_proposed_block nx config block height parent store = (Ok u, store') \<longleftrightarrow>
     extends_tip (nx_crypto nx) config height parent block \<and>
     list_all (signed_for_block (nx_crypto nx)) (blk_transactions block) \<and>
     fee_split_ok config \<and> store' = executed nx config block store \<and>
     state_root_of nx store' = Ok (bh_state_root (blk_header block))"
  unfolding validate_proposed_iff validate_execution_iff by blast

lemma produced_block:
  assumes "produce_block nx config secret now height parent root pool chain_id store = (Ok (block, receipts), store')"
  shows "blk_transactions block = get_pending_for_block pool (unat (cfg_max_block_transactions config))"
    "bh_state_root (blk_header block) = root" "bh_height (blk_header block) = height"
    "bh_proposer (blk_header block) = Keypair_address (nx_crypto nx) secret"
    "\<not> cfg_parallel_execution config \<Longrightarrow> store' = executed nx config block store"
  using assms
  by (auto simp: produce_block_def propose_block_def hash_block_header_def executed_def Let_def case_prod_unfold split: if_splits)

lemma produced_extends:
  assumes "produce_block nx config secret now height parent root pool (cfg_chain_id config) store = (Ok (block, receipts), store')"
  shows "extends_tip (nx_crypto nx) config height parent block"
  using assms
  by (auto simp: produce_block_def propose_block_def hash_block_header_def hash_input_bytes_def extends_tip_def
      get_pending_for_block_def Let_def case_prod_unfold)

text \<open>The two hash conventions: the pool wants the domain-separated hash of the payload, the block validator the
  hash of the payload followed by the signature.\<close>

lemma pool_hash:
  assumes "check_signature cx tx = Ok ()"
  shows "\<exists>bs. cx_tx_bytes cx (stx_transaction tx) = Inr bs \<and> stx_tx_hash tx = cx_sha256 cx (DOMAIN_TX @ bs)"
  using assms verified_transaction [of cx tx "stx_signer_pubkey tx"]
  by (cases "cx_key_error cx (stx_signer_pubkey tx)"; cases "verify_transaction_with_key cx tx (stx_signer_pubkey tx)")
     (auto simp: check_signature_def PublicKey_from_bytes_def split: if_splits)

definition hashes_apart :: "crypto \<Rightarrow> SignedTransaction \<Rightarrow> bool" where
  "hashes_apart cx tx \<longleftrightarrow>
     (\<forall>bs. cx_tx_bytes cx (stx_transaction tx) = Inr bs \<longrightarrow>
        cx_sha256 cx (DOMAIN_TX @ bs) \<noteq> cx_sha256 cx (bs @ be_bytes 64 (stx_signature tx)))"

text \<open>
  C32: A pool that verifies signatures fills blocks that no other validator accepts. Every transaction it serves
  carries the domain-separated hash of its payload; the block validator compares with the hash of the payload and
  the signature. Unless SHA-256 maps the two inputs of some pending transaction to the same digest, every
  non-empty block produced from the pool is refused by validation, in whatever state.
\<close>

theorem pool_blocks_refused:
  assumes reach: "reachable_pool (nx_crypto nx) mconfig pool" and "verify_signature mconfig"
    and produced: "produce_block nx config secret now height parent root pool chain_id store = (Ok (block, receipts), store')"
    and "blk_transactions block \<noteq> []"
    and apart: "\<And>h tx. mempool_get pool h = Some tx \<Longrightarrow> hashes_apart (nx_crypto nx) tx"
  shows "fst (validate_proposed_block nx config' block height' parent' other) \<noteq> Ok ()"
proof
  assume "fst (validate_proposed_block nx config' block height' parent' other) = Ok ()"
  then have good: "list_all (signed_for_block (nx_crypto nx)) (blk_transactions block)"
    using validate_proposed_iff [of nx config' block height' parent' other "()" "snd (validate_proposed_block nx config' block height' parent' other)"]
    by (simp add: prod_eq_iff)
  obtain tx where tx: "tx \<in> set (blk_transactions block)"
    using assms(4) by (meson list.set_sel(1))
  have ok: "pool_ok (nx_crypto nx) pool" "mp_config pool = mconfig"
    using reachable_pool_ok [OF reach] by simp_all
  have "tx \<in> set (map snd (sorted_list_of_fmap (pending pool)))"
    using tx set_take_subset unfolding produced_block(1) [OF produced] get_pending_for_block_def
    by (metis set_sort subsetD)
  then obtain h where h: "fmlookup (pending pool) h = Some tx"
    by (auto simp: set_scan)
  with ok assms(2) have "check_signature (nx_crypto nx) tx = Ok ()"
    by (auto simp: pool_ok_def tx_admissible_def)
  then show False
    using pool_hash apart [of h tx] h good tx
    by (fastforce simp: list_all_iff signed_for_block_def hashes_apart_def mempool_get_def)
qed

text \<open>
  C33: The producer puts the state root from before the execution of a block in its header, the validator compares
  with the root from after it. A validator that starts from the same store as the producer therefore accepts only
  blocks whose execution leaves the state root as it was.
\<close>

theorem accepted_block_keeps_root:
  assumes "\<not> cfg_parallel_execution config" "state_root_of nx store = Ok root"
    and produced: "produce_block nx config secret now height parent root pool chain_id store = (Ok (block, receipts), store1)"
    and accepted: "validate_proposed_block nx config block height parent store = (Ok (), store2)"
  shows "store2 = store1 \<and> state_root_of nx store1 = state_root_of nx store"
  using accepted produced_block(2,5) [OF produced] assms(1,2)
  unfolding validate_proposed_iff validate_execution_iff by (elim conjE) simp

subsection \<open>Examples\<close>

text \<open>Libraries for the examples: the digest of a byte string is its length, every signature is valid.\<close>

definition length_crypto :: crypto where
  "length_crypto = \<lparr>cx_sha256 = \<lambda>bs. word_of_nat (length bs), cx_tx_bytes = \<lambda>_. Inr [], cx_header_bytes = \<lambda>_. [],
     cx_public = \<lambda>_. replicate 32 0, cx_sign = \<lambda>_ _. 0, cx_key_error = \<lambda>_. None, cx_verify_error = \<lambda>_ _ _. None\<rparr>"

definition length_externals :: node_externals where
  "length_externals = \<lparr>nx_ext = \<lparr>ext_sha256 = \<lambda>bs. word_of_nat (length bs), ext_hex_encode = \<lambda>_. [],
     ext_hex_decode = \<lambda>_. None, ext_tx_size = \<lambda>_. 0\<rparr>, nx_crypto = length_crypto, nx_raw = \<lambda>_. MemoryStore_new,
     nx_parallel = \<lambda>_ _ _ s. ([], s)\<rparr>"

definition sequential_config :: ChainConfig where
  "sequential_config = devnet\<lparr>cfg_parallel_execution := False\<rparr>"

definition signed_example :: SignedTransaction where
  "signed_example = (example_tx 2000 9)\<lparr>stx_transaction := (stx_transaction (example_tx 2000 9))\<lparr>tx_signer := 32\<rparr>,
     stx_signer_pubkey := replicate 32 0\<rparr>"

lemma example_produced:
  "\<exists>block receipts store'. produce_block length_externals sequential_config [] 0 1 0 root pool ''polay-devnet-1'' store =
     (Ok (block, receipts), store')"
  by (simp add: produce_block_def propose_block_def hash_block_header_def Let_def case_prod_unfold)

lemma signed_pool:
  "mempool_insert length_crypto (Mempool_new (example_config True)) signed_example =
     (Ok (), add_pending signed_example (Mempool_new (example_config True)))"
  by (simp add: example_defs signed_example_def check_signature_def PublicKey_from_bytes_def signing_defs
      length_crypto_def DOMAIN_TX_def str_bytes_def)

theorem pool_blocks_refused_witness:
  "\<exists>block. blk_transactions block = [signed_example] \<and>
     fst (validate_proposed_block length_externals sequential_config block 1 0 empty_store) \<noteq> Ok ()"
proof -
  let ?p = "snd (mempool_insert length_crypto (Mempool_new (example_config True)) signed_example)"
  have reach: "reachable_pool (nx_crypto length_externals) (example_config True) ?p"
    unfolding length_externals_def by (simp add: inserted [OF created])
  obtain block receipts store' where produced:
    "produce_block length_externals sequential_config [] 0 1 0 0 ?p ''polay-devnet-1'' empty_store = (Ok (block, receipts), store')"
    using example_produced by blast
  have txs: "blk_transactions block = [signed_example]"
    unfolding produced_block(1) [OF produced] signed_pool
    by (simp add: get_pending_for_block_def example_defs sequential_config_def devnet_def ChainConfig_default_def
        sorted_list_of_fmap_def sorted_list_of_fset.rep_eq)
  have "hashes_apart (nx_crypto length_externals) tx" for tx
    by (simp add: hashes_apart_def length_externals_def length_crypto_def DOMAIN_TX_def str_bytes_def)
  with txs pool_blocks_refused [OF reach _ produced, of sequential_config 1 0 empty_store] show ?thesis
    by (auto simp: example_config_def)
qed

theorem accepted_block_keeps_root_witness:
  "\<exists>block store'. validate_proposed_block length_externals sequential_config block 1 0 empty_store = (Ok (), store') \<and>
     state_root_of length_externals store' = state_root_of length_externals empty_store"
proof -
  obtain root where root: "state_root_of length_externals store = Ok root" for store
    by (simp add: state_root_of_def length_externals_def compute_state_root_def STATE_PREFIXES_def memory_store_def
        memory_prefix_scan_def)
  obtain block receipts store' where produced:
    "produce_block length_externals sequential_config [] 0 1 0 root (Mempool_new (example_config True)) ''polay-devnet-1'' empty_store =
       (Ok (block, receipts), store')"
    using example_produced by blast
  have "fee_split_ok sequential_config"
    by (simp add: fee_split_ok_def sequential_config_def devnet_def ChainConfig_default_def FeeDistribution_default_def)
  moreover have "blk_transactions block = []"
    unfolding produced_block(1) [OF produced]
    by (simp add: get_pending_for_block_def Mempool_new_def sorted_list_of_fmap_def sorted_list_of_fset.rep_eq)
  moreover have "cfg_chain_id sequential_config = ''polay-devnet-1''"
    by (simp add: sequential_config_def devnet_def ChainConfig_default_def)
  ultimately have "validate_proposed_block length_externals sequential_config block 1 0 empty_store =
      (Ok (), executed length_externals sequential_config block empty_store)"
    using produced_extends [of length_externals sequential_config] produced produced_block(2) [OF produced] root
    unfolding validate_proposed_iff validate_execution_iff by simp
  with accepted_block_keeps_root [OF _ root produced] show ?thesis
    by (fastforce simp: sequential_config_def)
qed

end
