(* ===== verification/Polay_Agreement.thy ===== *)
theory Polay_Agreement
  imports Polay_Consensus
begin

section \<open>Safety and liveness of the consensus machine\<close>

text \<open>
  Runs of the state machine of \<^verbatim>\<open>polay-consensus\<close> under arbitrary events. The vote maps hold votes
  of their height, round and type, filed under their voter (\<open>machine_ok\<close>); from this follow that a
  commit carries a two-thirds quorum, that two conflicting commits of a round incriminate a third of
  the stake, what a locked node may vote for, and that votes of a quorum lead to a commit.
\<close>

subsection \<open>Runs\<close>

text \<open>
  The events that the validator loop feeds to the machine. \<open>Ev_Await\<close> is the block timer of a node
  that is not the proposer: it opens the propose step.
\<close>

datatype (plugins only: size) consensus_event =
    Ev_Proposal Proposal
  | Ev_Prevote Vote
  | Ev_Precommit Vote
  | Ev_Timeout
  | Ev_Await
  | Ev_Advance u64
  | Ev_Validators ValidatorSet

fun handle_event :: "consensus_event \<Rightarrow> ConsensusStateMachine \<Rightarrow> ConsensusStateMachine" where
  "handle_event (Ev_Proposal p) m = snd (on_proposal p m)"
| "handle_event (Ev_Prevote v) m = snd (on_prevote v m)"
| "handle_event (Ev_Precommit v) m = snd (on_precommit v m)"
| "handle_event Ev_Timeout m = snd (on_timeout m)"
| "handle_event Ev_Await m = (if csm_step m = NewRound then m\<lparr>csm_step := Propose\<rparr> else m)"
| "handle_event (Ev_Advance h) m = advance_height h m"
| "handle_event (Ev_Validators vs) m = update_validator_set vs m"

inductive reachable_machine :: "ConsensusStateMachine \<Rightarrow> bool" where
  start: "reachable_machine (ConsensusStateMachine_new h vs a)"
| event: "reachable_machine m \<Longrightarrow> reachable_machine (handle_event ev m)"

subsection \<open>Well-filed votes\<close>

definition cast_in :: "u64 \<Rightarrow> u32 \<Rightarrow> VoteType \<Rightarrow> votes \<Rightarrow> bool" where
  "cast_in h r ty vm \<longleftrightarrow>
     fmpred (\<lambda>a v. vt_voter v = a \<and> vt_height v = h \<and> vt_round v = r \<and> vt_type v = ty) vm"

definition buffered_in :: "u64 \<Rightarrow> VoteType \<Rightarrow> (u32, votes) fmap \<Rightarrow> bool" where
  "buffered_in h ty f \<longleftrightarrow> fmpred (\<lambda>r vm. cast_in h r ty vm) f"

definition machine_ok :: "ConsensusStateMachine \<Rightarrow> bool" where
  "machine_ok m \<longleftrightarrow>
     cast_in (csm_height m) (csm_round m) VT_Prevote (csm_prevotes m) \<and>
     cast_in (csm_height m) (csm_round m) VT_Precommit (csm_precommits m) \<and>
     buffered_in (csm_height m) VT_Prevote (csm_future_prevotes m) \<and>
     buffered_in (csm_height m) VT_Precommit (csm_future_precommits m)"

lemma cast_in_simps [simp]:
  "cast_in h r ty fmempty"
  "cast_in h r ty vm \<Longrightarrow> vt_height v = h \<Longrightarrow> vt_round v = r \<Longrightarrow> vt_type v = ty \<Longrightarrow> a = vt_voter v \<Longrightarrow>
     cast_in h r ty (fmupd a v vm)"
  by (auto simp: cast_in_def intro: fmpred_upd)

lemma buffered_in_simps [simp]:
  "buffered_in h ty fmempty"
  "buffered_in h ty f \<Longrightarrow> buffered_in h ty (fmfilter P f)"
  "buffered_in h ty f \<Longrightarrow> cast_in h r ty vm \<Longrightarrow> buffered_in h ty (fmupd r vm f)"
  by (auto simp: buffered_in_def intro: fmpred_upd fmpred_filter)

lemma buffered_round: "buffered_in h ty f \<Longrightarrow> fmlookup f r = Some vm \<Longrightarrow> cast_in h r ty vm"
  by (auto simp: buffered_in_def dest: fmpredD)

lemma buffer_vote_ok:
  "buffer_vote v f = Some f' \<Longrightarrow> buffered_in h ty f \<Longrightarrow> vt_height v = h \<Longrightarrow> vt_type v = ty \<Longrightarrow> buffered_in h ty f'"
  by (auto simp: buffer_vote_def Let_def split: if_splits option.splits
      intro!: buffered_in_simps(3) cast_in_simps(2) intro: buffered_round)

lemma load_round_ok: "buffered_in (csm_height m) VT_Prevote (csm_future_prevotes m) \<Longrightarrow>
    buffered_in (csm_height m) VT_Precommit (csm_future_precommits m) \<Longrightarrow> machine_ok (load_round m)"
  by (auto simp: machine_ok_def load_round_def Let_def split: option.splits dest: buffered_round)

lemma skip_to_round_ok: "machine_ok m \<Longrightarrow> machine_ok (skip_to_round r m)"
  unfolding skip_to_round_def by (rule load_round_ok) (simp_all add: machine_ok_def)

lemma validate_ok:
  "validate_vote_basics m v ty = Ok u \<Longrightarrow> vt_height v = csm_height m \<and> vt_type v = ty"
  by (auto simp: validate_vote_basics_def split: if_splits)

lemma validate_no_panic [simp]: "validate_vote_basics m v ty \<noteq> Panic"
  by (simp add: validate_vote_basics_def)

lemma catch_up_ok: "machine_ok m \<Longrightarrow> machine_ok (snd (catch_up r m))"
  by (simp add: catch_up_def skip_to_round_ok)

text \<open>Where the vote handlers can end up.\<close>

lemma on_prevote_cases:
  obtains (rejected) e where "on_prevote v m = (Err e, m)"
  | (ahead) f where "csm_round m < vt_round v" "vt_height v = csm_height m" "vt_type v = VT_Prevote"
      "buffer_vote v (csm_future_prevotes m) = Some f"
      "on_prevote v m = catch_up (vt_round v) (m\<lparr>csm_future_prevotes := f\<rparr>)"
  | (counted) m1 where "vt_round v = csm_round m" "vt_height v = csm_height m" "vt_type v = VT_Prevote"
      "m1 = m\<lparr>csm_prevotes := fmupd (vt_voter v) v (csm_prevotes m)\<rparr>" "on_prevote v m = (Ok None, m1)"
  | (nil) m1 where "vt_round v = csm_round m" "vt_height v = csm_height m" "vt_type v = VT_Prevote"
      "m1 = m\<lparr>csm_prevotes := fmupd (vt_voter v) v (csm_prevotes m)\<rparr>" "find_prevote_quorum m1 = Some ZERO"
      "on_prevote v m = (Ok (Some (SendPrecommit (own_vote m VT_Precommit ZERO))), m1\<lparr>csm_step := Precommit\<rparr>)"
  | (locked) m1 h where "vt_round v = csm_round m" "vt_height v = csm_height m" "vt_type v = VT_Prevote"
      "m1 = m\<lparr>csm_prevotes := fmupd (vt_voter v) v (csm_prevotes m)\<rparr>" "find_prevote_quorum m1 = Some h" "h \<noteq> ZERO"
      "on_prevote v m = (Ok (Some (SendPrecommit (own_vote m VT_Precommit h))),
         m1\<lparr>csm_step := Precommit, csm_locked_block := Some (csm_round m, h), csm_valid_block := Some (csm_round m, h),
            csm_valid_proposal := csm_proposal m\<rparr>)"
proof (cases "\<exists>e. on_prevote v m = (Err e, m)")
  case False
  then obtain u where ok: "validate_vote_basics m v VT_Prevote = Ok u"
    by (cases "validate_vote_basics m v VT_Prevote") (auto simp: on_prevote_def)
  note ok' = validate_ok [OF ok]
  from False ok have past: "\<not> vt_round v < csm_round m"
    by (auto simp: on_prevote_def)
  show thesis
  proof (cases "csm_round m < vt_round v")
    case True
    then obtain f where "buffer_vote v (csm_future_prevotes m) = Some f"
      using False ok past by (cases "buffer_vote v (csm_future_prevotes m)") (auto simp: on_prevote_def)
    with True ok ok' past show thesis by (intro ahead) (simp_all add: on_prevote_def)
  next
    case here: False
    then have r: "vt_round v = csm_round m" using past by simp
    then have new: "fmlookup (csm_prevotes m) (vt_voter v) = None"
      using False ok by (cases "fmlookup (csm_prevotes m) (vt_voter v)") (auto simp: on_prevote_def)
    define m1 where "m1 = m\<lparr>csm_prevotes := fmupd (vt_voter v) v (csm_prevotes m)\<rparr>"
    consider "find_prevote_quorum m1 = None" | h where "find_prevote_quorum m1 = Some h" "csm_step m \<noteq> Prevote \<and> csm_step m \<noteq> Propose"
      | h where "find_prevote_quorum m1 = Some h" "csm_step m = Prevote \<or> csm_step m = Propose" "h = ZERO"
      | h where "find_prevote_quorum m1 = Some h" "csm_step m = Prevote \<or> csm_step m = Propose" "h \<noteq> ZERO"
      by blast
    then show thesis
    proof cases
      case 1
      with r new ok ok' show thesis by (intro counted [OF _ _ _ m1_def]) (simp_all add: on_prevote_def m1_def)
    next
      case 2
      with r new ok ok' show thesis by (intro counted [OF _ _ _ m1_def]) (simp_all add: on_prevote_def m1_def)
    next
      case 3
      with r new ok ok' show thesis
        by (intro nil [OF _ _ _ m1_def]) (auto simp: on_prevote_def m1_def Let_def is_zero_def own_vote_def)
    next
      case 4
      with r new ok ok' show thesis
        by (intro locked [OF _ _ _ m1_def]) (auto simp: on_prevote_def m1_def Let_def is_zero_def own_vote_def)
    qed
  qed
qed blast

lemma on_precommit_cases:
  obtains (rejected) e where "on_precommit v m = (Err e, m)"
  | (ahead) f where "csm_round m < vt_round v" "vt_height v = csm_height m" "vt_type v = VT_Precommit"
      "buffer_vote v (csm_future_precommits m) = Some f"
      "on_precommit v m = catch_up (vt_round v) (m\<lparr>csm_future_precommits := f\<rparr>)"
  | (counted) m1 where "vt_round v = csm_round m" "vt_height v = csm_height m" "vt_type v = VT_Precommit"
      "m1 = m\<lparr>csm_precommits := fmupd (vt_voter v) v (csm_precommits m)\<rparr>" "on_precommit v m = (Ok None, m1)"
      "\<forall>h. find_precommit_quorum m1 = Some h \<longrightarrow> h = ZERO \<or> csm_step m = Commit"
  | (committed) m1 h where "vt_round v = csm_round m" "vt_height v = csm_height m" "vt_type v = VT_Precommit"
      "m1 = m\<lparr>csm_precommits := fmupd (vt_voter v) v (csm_precommits m)\<rparr>" "find_precommit_quorum m1 = Some h" "h \<noteq> ZERO"
      "on_precommit v m = (Ok (Some (CommitBlock (csm_height m) h \<lparr>cp_height = csm_height m, cp_round = csm_round m,
         cp_block_hash = h, cp_votes = filter (\<lambda>v. vt_block_hash v = h) (vote_list (csm_precommits m1))\<rparr>)),
         m1\<lparr>csm_step := Commit\<rparr>)"
proof (cases "\<exists>e. on_precommit v m = (Err e, m)")
  case False
  then obtain u where ok: "validate_vote_basics m v VT_Precommit = Ok u"
    by (cases "validate_vote_basics m v VT_Precommit") (auto simp: on_precommit_def)
  note ok' = validate_ok [OF ok]
  from False ok have past: "\<not> vt_round v < csm_round m"
    by (auto simp: on_precommit_def)
  show thesis
  proof (cases "csm_round m < vt_round v")
    case True
    then obtain f where "buffer_vote v (csm_future_precommits m) = Some f"
      using False ok past by (cases "buffer_vote v (csm_future_precommits m)") (auto simp: on_precommit_def)
    with True ok ok' past show thesis by (intro ahead) (simp_all add: on_precommit_def)
  next
    case here: False
    then have r: "vt_round v = csm_round m" using past by simp
    then have new: "fmlookup (csm_precommits m) (vt_voter v) = None"
      using False ok by (cases "fmlookup (csm_precommits m) (vt_voter v)") (auto simp: on_precommit_def)
    define m1 where "m1 = m\<lparr>csm_precommits := fmupd (vt_voter v) v (csm_precommits m)\<rparr>"
    show thesis
    proof (cases "\<exists>h. find_precommit_quorum m1 = Some h \<and> h \<noteq> ZERO \<and> csm_step m \<noteq> Commit")
      case True
      with r new ok ok' show thesis
        by (auto intro!: committed [OF _ _ _ m1_def] simp: on_precommit_def m1_def Let_def is_zero_def)
    next
      case False
      with r new ok ok' show thesis
        by (intro counted [OF _ _ _ m1_def])
           (auto simp: on_precommit_def m1_def Let_def is_zero_def split: option.splits)
    qed
  qed
qed blast

text \<open>The machine in the round of a proposal, and the hash it prevotes for.\<close>

definition entered :: "Proposal \<Rightarrow> ConsensusStateMachine \<Rightarrow> ConsensusStateMachine" where
  "entered p m = (if csm_round m < pr_round p then skip_to_round (pr_round p) m else m)"

definition prevote_choice :: "Proposal \<Rightarrow> ConsensusStateMachine \<Rightarrow> hash" where
  "prevote_choice p m =
     (case csm_locked_block m of
        Some (_, h) \<Rightarrow> if block_hash (pr_block p) = h then block_hash (pr_block p) else ZERO
      | None \<Rightarrow> block_hash (pr_block p))"

lemma load_round_frame [simp]:
  "csm_height (load_round m) = csm_height m" "csm_round (load_round m) = csm_round m"
  "csm_validator_set (load_round m) = csm_validator_set m" "csm_local_address (load_round m) = csm_local_address m"
  "csm_locked_block (load_round m) = csm_locked_block m" "csm_valid_block (load_round m) = csm_valid_block m"
  "csm_step (load_round m) = Propose"
  by (simp_all add: load_round_def Let_def)

lemma entered_frame [simp]:
  "csm_height (entered p m) = csm_height m" "csm_locked_block (entered p m) = csm_locked_block m"
  "csm_validator_set (entered p m) = csm_validator_set m" "csm_local_address (entered p m) = csm_local_address m"
  "csm_round m \<le> pr_round p \<Longrightarrow> csm_round (entered p m) = pr_round p"
  by (auto simp: entered_def skip_to_round_def)

lemma on_proposal_cases:
  obtains (refused) e where "on_proposal p m = (Err e, m)"
  | (turned_down) res where "on_proposal p m = (res, entered p m)" "\<not> is_ok res"
  | (accepted) "pr_height p = csm_height m" "csm_round m \<le> pr_round p"
      "on_proposal p m = (Ok (SendPrevote (own_vote (entered p m) VT_Prevote (prevote_choice p m))),
         (entered p m)\<lparr>csm_proposal := Some p, csm_step := Prevote\<rparr>)"
proof (cases "pr_height p \<noteq> csm_height m \<or> pr_round p < csm_round m")
  case True
  then have "\<exists>e. on_proposal p m = (Err e, m)" by (auto simp: on_proposal_def)
  then show thesis using refused by blast
next
  case False
  show thesis
  proof (cases "is_ok (fst (on_proposal p m))")
    case True
    with False show thesis
      by (intro accepted)
         (auto simp: on_proposal_def Let_def own_vote_def prevote_choice_def simp flip: entered_def
           split: option.splits if_splits)
  next
    case False
    with \<open>\<not> (pr_height p \<noteq> csm_height m \<or> pr_round p < csm_round m)\<close> show thesis
      by (intro turned_down [of "fst (on_proposal p m)"])
         (auto simp: on_proposal_def Let_def simp flip: entered_def split: option.splits if_splits)
  qed
qed

subsection \<open>The invariant\<close>

lemma on_prevote_ok:
  assumes "machine_ok m"
  shows "machine_ok (snd (on_prevote v m))"
proof (cases rule: on_prevote_cases [of v m])
  case (ahead f)
  then have "machine_ok (m\<lparr>csm_future_prevotes := f\<rparr>)"
    using assms buffer_vote_ok [OF ahead(4)] by (simp add: machine_ok_def)
  with ahead(5) show ?thesis by (simp add: catch_up_ok)
qed (use assms in \<open>simp_all add: machine_ok_def\<close>)

lemma on_precommit_ok:
  assumes "machine_ok m"
  shows "machine_ok (snd (on_precommit v m))"
proof (cases rule: on_precommit_cases [of v m])
  case (ahead f)
  then have "machine_ok (m\<lparr>csm_future_precommits := f\<rparr>)"
    using assms buffer_vote_ok [OF ahead(4)] by (simp add: machine_ok_def)
  with ahead(5) show ?thesis by (simp add: catch_up_ok)
qed (use assms in \<open>simp_all add: machine_ok_def\<close>)

lemma machine_ok_frame [simp]:
  "machine_ok (m\<lparr>csm_proposal := p, csm_step := st\<rparr>) = machine_ok m"
  "machine_ok (m\<lparr>csm_step := st\<rparr>) = machine_ok m" "machine_ok (m\<lparr>csm_proposal := p\<rparr>) = machine_ok m"
  by (simp_all add: machine_ok_def)

lemma on_proposal_ok: "machine_ok m \<Longrightarrow> machine_ok (snd (on_proposal p m))"
  by (cases rule: on_proposal_cases [of p m]) (simp_all add: entered_def skip_to_round_ok)

lemma on_timeout_ok: "machine_ok m \<Longrightarrow> machine_ok (snd (on_timeout m))"
  by (cases "csm_step m")
     (simp_all add: on_timeout_def start_new_round_def Let_def skip_to_round_ok flip: skip_to_round_def)

lemma reachable_ok: "reachable_machine m \<Longrightarrow> machine_ok m"
proof (induction rule: reachable_machine.induct)
  case (event m ev)
  then show ?case
    by (cases ev) (auto simp: on_proposal_ok on_prevote_ok on_precommit_ok on_timeout_ok,
      auto simp: machine_ok_def advance_height_def update_validator_set_def)
qed (simp add: machine_ok_def ConsensusStateMachine_new_def)

subsection \<open>Commits\<close>

lemma vote_list_voters:
  assumes "cast_in h r ty vm"
  shows "distinct (map vt_voter (vote_list vm))"
    and "\<And>v. v \<in> set (vote_list vm) \<Longrightarrow> vt_height v = h \<and> vt_round v = r \<and> vt_type v = ty"
proof -
  have fits: "vt_voter v = a \<and> vt_height v = h \<and> vt_round v = r \<and> vt_type v = ty" if "fmlookup vm a = Some v" for a v
    using assms that by (auto simp: cast_in_def dest: fmpredD)
  then have "map vt_voter (vote_list vm) = map fst (sorted_list_of_fmap vm)"
    by (auto simp: vote_list_def set_scan)
  then show "distinct (map vt_voter (vote_list vm))"
    by (simp add: distinct_keys_scan)
  show "vt_height v = h \<and> vt_round v = r \<and> vt_type v = ty" if "v \<in> set (vote_list vm)" for v
    using that fits by (auto simp: vote_list_def set_scan)
qed

text \<open>
  What makes a commit proof convincing to someone who knows the validator set: precommits for the block
  in one round, by different voters who hold more than two thirds of the stake.
\<close>

definition certificate :: "ValidatorSet \<Rightarrow> u64 \<Rightarrow> u32 \<Rightarrow> hash \<Rightarrow> CommitProof \<Rightarrow> bool" where
  "certificate vs h r hash p \<longleftrightarrow>
     cp_height p = h \<and> cp_round p = r \<and> cp_block_hash p = hash \<and> distinct (map vt_voter (cp_votes p)) \<and>
     (\<forall>v\<in>set (cp_votes p). vt_height v = h \<and> vt_round v = r \<and> vt_type v = VT_Precommit \<and> vt_block_hash v = hash) \<and>
     2 * unat (vs_total_stake vs) < 3 * sum (stake_of vs) (vt_voter ` set (cp_votes p))"

lemma commit_certificate:
  assumes "machine_ok m" and commit: "on_precommit v m = (Ok (Some (CommitBlock h hash p)), m')"
  shows "hash \<noteq> ZERO \<and> h = csm_height m \<and> certificate (csm_validator_set m) h (csm_round m) hash p \<and>
    csm_step m \<noteq> Commit \<and> csm_step m' = Commit"
proof (cases rule: on_precommit_cases [of v m])
  case (committed m1 h')
  then have eq: "h' = hash" "h = csm_height m" "cp_votes p = filter (\<lambda>v. vt_block_hash v = hash) (vote_list (csm_precommits m1))"
      "cp_height p = h" "cp_round p = csm_round m" "cp_block_hash p = hash" "m' = m1\<lparr>csm_step := Commit\<rparr>"
    using commit by auto
  have cast: "cast_in (csm_height m) (csm_round m) VT_Precommit (csm_precommits m1)"
    using assms(1) committed(1-4) by (simp add: machine_ok_def)
  note votes = vote_list_voters [OF cast]
  have "unat (quorum_threshold (csm_validator_set m)) \<le> backing (csm_validator_set m) (vote_list (csm_precommits m1)) hash"
    using quorum_scan_sound [of "csm_validator_set m" "\<lambda>_. 0" _ hash] committed(4,5) eq(1)
    by (simp add: find_precommit_quorum_def)
  then have "2 * unat (vs_total_stake (csm_validator_set m))
      < 3 * sum (stake_of (csm_validator_set m)) (vt_voter ` set (cp_votes p))"
    unfolding quorum_iff backing_voters [OF votes(1)] eq(3) by (simp only: set_filter)
  moreover have "distinct (map vt_voter (cp_votes p))"
    using votes(1) unfolding eq(3) by (rule distinct_map_filter)
  moreover have "csm_step m \<noteq> Commit"
    using commit committed(1-4) by (auto simp: on_precommit_def Let_def split: result.splits if_splits option.splits)
  ultimately show ?thesis
    using eq committed(6) votes(2) by (auto simp: certificate_def)
qed (use commit in \<open>auto simp: catch_up_def split: if_splits\<close>)

subsection \<open>Agreement\<close>

lemma certificates_intersect:
  assumes vs: "wf_vset vs" and c: "certificate vs h r b1 p1" "certificate vs h r b2 p2"
  shows "unat (vs_total_stake vs) < 3 * sum (stake_of vs) (vt_voter ` set (cp_votes p1) \<inter> vt_voter ` set (cp_votes p2))"
  using stakes.quorum_intersection [of "vt_voter ` set (cp_votes p1)" "vt_voter ` set (cp_votes p2)" vs] c
  by (simp add: certificate_def member_stake_total [OF vs])

lemma conflicting_votes:
  assumes "certificate vs h r b1 p1" "certificate vs h r b2 p2" "b1 \<noteq> b2"
    and "a \<in> vt_voter ` set (cp_votes p1) \<inter> vt_voter ` set (cp_votes p2)"
  shows "\<exists>v1\<in>set (cp_votes p1). \<exists>v2\<in>set (cp_votes p2). vt_voter v1 = a \<and>
    new_duplicate_vote v1 v2 = Some (DuplicateVote v1 v2)"
proof -
  obtain v1 v2 where "v1 \<in> set (cp_votes p1)" "v2 \<in> set (cp_votes p2)" "vt_voter v1 = a" "vt_voter v2 = a"
    using assms(4) by auto
  with assms(1-3) show ?thesis
    by (intro bexI [of _ v1] bexI [of _ v2]) (auto simp: certificate_def new_duplicate_vote_def)
qed

text \<open>
  C5: agreement, or accountability. Whatever proposals, votes, timeouts and validator set changes two
  nodes have seen, when both commit in the same round of a height with the same validator set, each
  commit proof holds precommits for exactly the committed block, height and round by different
  validators with more than two thirds of the stake, and neither block is nil. If the blocks differ,
  validators with more than a third of the stake have precommitted to both, and for each of them the
  two proofs hold a pair of votes that the evidence constructor accepts as a duplicate vote.
\<close>

theorem commits_agree_or_incriminate:
  assumes "ValidatorSet_new validators = Ok vs" "csm_validator_set m1 = vs" "csm_validator_set m2 = vs"
    and "reachable_machine m1" "on_precommit u1 m1 = (Ok (Some (CommitBlock h b1 p1)), m1')"
    and "reachable_machine m2" "on_precommit u2 m2 = (Ok (Some (CommitBlock h b2 p2)), m2')"
    and "csm_round m1 = r" "csm_round m2 = r"
  shows "b1 \<noteq> ZERO \<and> certificate vs h r b1 p1 \<and> b2 \<noteq> ZERO \<and> certificate vs h r b2 p2 \<and>
    (b1 \<noteq> b2 \<longrightarrow>
      (\<exists>A. unat (vs_total_stake vs) < 3 * sum (stake_of vs) A \<and>
        (\<forall>a\<in>A. \<exists>v1\<in>set (cp_votes p1). \<exists>v2\<in>set (cp_votes p2). vt_voter v1 = a \<and>
           new_duplicate_vote v1 v2 = Some (DuplicateVote v1 v2))))"
proof -
  have c: "b1 \<noteq> ZERO" "certificate vs h r b1 p1" "b2 \<noteq> ZERO" "certificate vs h r b2 p2"
    using commit_certificate [OF reachable_ok [OF assms(4)] assms(5)]
      commit_certificate [OF reachable_ok [OF assms(6)] assms(7)] assms(2,3,8,9) by auto
  moreover have "\<exists>A. unat (vs_total_stake vs) < 3 * sum (stake_of vs) A \<and>
      (\<forall>a\<in>A. \<exists>v1\<in>set (cp_votes p1). \<exists>v2\<in>set (cp_votes p2). vt_voter v1 = a \<and>
         new_duplicate_vote v1 v2 = Some (DuplicateVote v1 v2))" if "b1 \<noteq> b2"
    using certificates_intersect [OF ValidatorSet_new_wf [OF assms(1)] c(2,4)] conflicting_votes [OF c(2,4) that]
    by (intro exI conjI) auto
  ultimately show ?thesis by blast
qed

subsection \<open>Locks\<close>

lemma catch_up_frame [simp]:
  "csm_locked_block (snd (catch_up r m)) = csm_locked_block m"
  by (simp add: catch_up_def skip_to_round_def)


subsection \<open>Progress\<close>

lemma precommit_accepted:
  assumes "vt_height v = csm_height m" "vt_round v = csm_round m" "vt_type v = VT_Precommit"
    "vs_contains (csm_validator_set m) (vt_voter v)" "fmlookup (csm_precommits m) (vt_voter v) = None"
  shows "is_ok (fst (on_precommit v m))"
  using assms by (auto simp: on_precommit_def validate_vote_basics_def Let_def split: option.splits)

definition voters_for :: "hash \<Rightarrow> votes \<Rightarrow> address set" where
  "voters_for b vm = vt_voter ` {v \<in> set (vote_list vm). vt_block_hash v = b}"

lemma voters_for_upd:
  assumes "fmlookup vm (vt_voter v) = None"
  shows "voters_for b (fmupd (vt_voter v) v vm) = (if vt_block_hash v = b then {vt_voter v} else {}) \<union> voters_for b vm"
proof -
  have "set (vote_list (fmupd (vt_voter v) v vm)) = insert v (set (vote_list vm))"
    using assms by (force simp: vote_list_def set_scan image_iff split: if_splits)
  then show ?thesis by (auto simp: voters_for_def)
qed

lemma voters_for_finite [simp]: "finite (voters_for b vm)"
  by (simp add: voters_for_def)

text \<open>The machine finds a quorum of precommits exactly when its voters hold more than two thirds.\<close>

lemma find_precommit_quorum_iff:
  assumes "machine_ok m" "wf_vset (csm_validator_set m)"
  shows "find_precommit_quorum m = Some b \<longleftrightarrow>
    2 * unat (vs_total_stake (csm_validator_set m)) < 3 * sum (stake_of (csm_validator_set m)) (voters_for b (csm_precommits m))"
proof -
  have "distinct (map vt_voter (vote_list (csm_precommits m)))"
    using assms(1) vote_list_voters(1) by (auto simp: machine_ok_def)
  then show ?thesis
    unfolding find_precommit_quorum_def voters_for_def
    by (simp only: quorum_scan_iff [OF assms(2)] quorum_iff backing_voters)
qed

lemma voters_for_disjoint:
  assumes "machine_ok m" "b \<noteq> b'"
  shows "voters_for b (csm_precommits m) \<inter> voters_for b' (csm_precommits m) = {}"
proof -
  have "inj_on vt_voter (set (vote_list (csm_precommits m)))"
    using assms(1) vote_list_voters(1) by (auto simp: machine_ok_def distinct_map)
  with assms(2) show ?thesis by (auto simp: voters_for_def dest: inj_onD)
qed

lemma voters_heard: "machine_ok m \<Longrightarrow> a \<in> voters_for h (csm_precommits m) \<Longrightarrow> fmlookup (csm_precommits m) a \<noteq> None"
  by (auto simp: voters_for_def vote_list_def set_scan machine_ok_def cast_in_def dest: fmpredD)

text \<open>The counting queries add up the same votes; no sum of stakes of different voters wraps.\<close>

lemma count_votes_backing:
  assumes "wf_vset vs" "distinct (map vt_voter (vote_list vm))"
  shows "unat (count_votes_for vs vm h) = backing vs (vote_list vm) h"
proof -
  have "backing vs (vote_list vm) h \<le> unat (vs_total_stake vs)"
    unfolding backing_voters [OF assms(2)] member_stake_total [OF assms(1), symmetric] by (rule stakes.bounded) simp
  then have "backing vs (vote_list vm) h < 2 ^ 64"
    using unsigned_less [of "vs_total_stake vs", where ?'a = nat] by simp
  then show ?thesis
    unfolding count_votes_for_def backing_def by (rule unat_sum_u64)
qed

text \<open>
  C8: The machine searches for a quorum by adding up stake vote by vote, saturating, in the order in which the vote
  map is iterated, and stops at the first hash that reaches the threshold. In every reachable machine with a
  constructed validator set this is the same as asking, for each hash, whether the stake of all votes for
  it reaches the threshold, for prevotes and for precommits; so at most one hash has a quorum.
\<close>

theorem quorum_search_exact:
  assumes reach: "reachable_machine m" and "ValidatorSet_new members = Ok (csm_validator_set m)"
  shows "(find_prevote_quorum m = Some h \<longleftrightarrow> has_prevote_quorum m h) \<and>
    (find_precommit_quorum m = Some h \<longleftrightarrow> has_precommit_quorum m h)"
proof -
  note vs = ValidatorSet_new_wf [OF assms(2)]
  have "distinct (map vt_voter (vote_list (csm_prevotes m)))" "distinct (map vt_voter (vote_list (csm_precommits m)))"
    using reachable_ok [OF reach] vote_list_voters(1) by (auto simp: machine_ok_def)
  then show ?thesis
    using quorum_scan_iff [OF vs] count_votes_backing [OF vs]
    by (simp add: find_prevote_quorum_def find_precommit_quorum_def has_prevote_quorum_def has_precommit_quorum_def
        count_prevotes_for_def count_precommits_for_def word_le_nat_alt)
qed

text \<open>Precommits that are still to come: valid for this round, by voters not heard yet.\<close>

definition pending_precommits :: "ConsensusStateMachine \<Rightarrow> hash \<Rightarrow> Vote list \<Rightarrow> bool" where
  "pending_precommits m b votes \<longleftrightarrow> distinct (map vt_voter votes) \<and>
     list_all (\<lambda>v. vt_height v = csm_height m \<and> vt_round v = csm_round m \<and> vt_type v = VT_Precommit \<and>
       vt_block_hash v = b \<and> vs_contains (csm_validator_set m) (vt_voter v) \<and>
       fmlookup (csm_precommits m) (vt_voter v) = None) votes"

text \<open>Only the block that a quorum is voting for can find a quorum on the way.\<close>

lemma quorum_goes_to:
  assumes m: "machine_ok m" and vs: "wf_vset (csm_validator_set m)"
    and new: "\<And>v. v \<in> set votes \<Longrightarrow> fmlookup (csm_precommits m) (vt_voter v) = None"
    and q: "2 * unat (vs_total_stake (csm_validator_set m))
      < 3 * sum (stake_of (csm_validator_set m)) (voters_for b (csm_precommits m) \<union> vt_voter ` set votes)"
    and h: "find_precommit_quorum m = Some h"
  shows "h = b"
proof (rule ccontr)
  assume "h \<noteq> b"
  then have "voters_for b (csm_precommits m) \<inter> voters_for h (csm_precommits m) = {}"
    using voters_for_disjoint [OF m] by blast
  moreover have "vt_voter ` set votes \<inter> voters_for h (csm_precommits m) = {}"
    using voters_heard [OF m] new by blast
  ultimately have "(voters_for b (csm_precommits m) \<union> vt_voter ` set votes) \<inter> voters_for h (csm_precommits m) = {}"
    by blast
  from stakes.quorum_unique [OF _ _ this, of "csm_validator_set m"] show False
    using q h find_precommit_quorum_iff [OF m vs, of h] by (simp add: member_stake_total [OF vs])
qed

lemma quorum_commits:
  assumes "machine_ok m" "wf_vset (csm_validator_set m)" "csm_step m \<noteq> Commit" "b \<noteq> ZERO"
    and "pending_precommits m b votes" "votes \<noteq> []"
    and "2 * unat (vs_total_stake (csm_validator_set m))
      < 3 * sum (stake_of (csm_validator_set m)) (voters_for b (csm_precommits m) \<union> vt_voter ` set votes)"
  shows "\<exists>us v ws p. votes = us @ v # ws \<and>
    fst (on_precommit v (fold handle_event (map Ev_Precommit us) m)) = Ok (Some (CommitBlock (csm_height m) b p))"
  using assms
proof (induction votes arbitrary: m)
  case (Cons v votes)
  note m = Cons.prems(1) and vs = Cons.prems(2) and q = Cons.prems(7)
  have v: "vt_height v = csm_height m" "vt_round v = csm_round m" "vt_type v = VT_Precommit" "vt_block_hash v = b"
      "vs_contains (csm_validator_set m) (vt_voter v)" "fmlookup (csm_precommits m) (vt_voter v) = None"
    using Cons.prems(5) by (auto simp: pending_precommits_def)
  define m1 where "m1 = m\<lparr>csm_precommits := fmupd (vt_voter v) v (csm_precommits m)\<rparr>"
  have m1: "machine_ok m1" "csm_validator_set m1 = csm_validator_set m"
    using m v by (simp_all add: m1_def machine_ok_def)
  have voters: "voters_for b (csm_precommits m1) \<union> vt_voter ` set votes = voters_for b (csm_precommits m) \<union> vt_voter ` set (v # votes)"
    using v(4) voters_for_upd [OF v(6), of b] by (auto simp: m1_def)
  have unheard: "fmlookup (csm_precommits m1) (vt_voter w) = None" if "w \<in> set votes" for w
    using Cons.prems(5) that by (force simp: m1_def pending_precommits_def list_all_iff)
  show ?case
  proof (cases rule: on_precommit_cases [of v m])
    case (committed m1' h)
    then have h: "find_precommit_quorum m1 = Some h" by (simp add: m1_def)
    have "h = b"
      using quorum_goes_to [OF m1(1) _ unheard _ h, where b = b] vs q voters by (simp add: m1(2))
    with committed(7) show ?thesis
      by (intro exI [of _ "[]"] exI [of _ v] exI [of _ votes]) simp
  next
    case (counted m1')
    then have run: "handle_event (Ev_Precommit v) m = m1" by (simp add: m1_def)
    have noq: "find_precommit_quorum m1 \<noteq> Some b"
      using counted(4,6) Cons.prems(3,4) by (auto simp: m1_def)
    then have "votes \<noteq> []"
      using q find_precommit_quorum_iff [OF m1(1), of b] vs voters by (auto simp: m1(2))
    moreover have "pending_precommits m1 b votes"
      using Cons.prems(5) by (auto simp: pending_precommits_def m1_def list_all_iff)
    ultimately obtain us u ws p where "votes = us @ u # ws"
        "fst (on_precommit u (fold handle_event (map Ev_Precommit us) m1)) = Ok (Some (CommitBlock (csm_height m1) b p))"
      using Cons.IH [OF m1(1)] vs m1(2) Cons.prems(3,4) q voters by (auto simp: m1_def)
    with run show ?thesis
      by (intro exI [of _ "v # us"] exI [of _ u] exI [of _ ws] exI [of _ p]) (simp add: m1_def)
  qed (use precommit_accepted [OF v(1-3,5,6)] v(2) in auto)
qed simp

text \<open>
  C10: liveness of the last step. In any reachable state that has not committed, if precommits for one
  block by validators not heard before arrive one by one, in any order, and these validators together
  with those already on record for the block hold more than two thirds of the stake, then one of these
  precommits makes the node commit the block, whatever other precommits it has received.
\<close>

theorem quorum_of_precommits_commits:
  assumes "reachable_machine m" "ValidatorSet_new validators = Ok (csm_validator_set m)" "csm_step m \<noteq> Commit"
    and "b \<noteq> ZERO" "pending_precommits m b votes" "votes \<noteq> []"
    and "2 * unat (vs_total_stake (csm_validator_set m))
      < 3 * sum (stake_of (csm_validator_set m)) (voters_for b (csm_precommits m) \<union> vt_voter ` set votes)"
  shows "\<exists>us v ws p. votes = us @ v # ws \<and>
    fst (on_precommit v (fold handle_event (map Ev_Precommit us) m)) = Ok (Some (CommitBlock (csm_height m) b p))"
  by (rule quorum_commits [OF reachable_ok [OF assms(1)] ValidatorSet_new_wf [OF assms(2)] assms(3-7)])

subsection \<open>Repeated proposals\<close>

lemma proposal_accepted:
  assumes "current_proposer m = Some (pr_proposer p)" "vs_contains (csm_validator_set m) (pr_proposer p)"
    and "csm_locked_block m = None" "pr_height p = csm_height m" "pr_round p = csm_round m"
  shows "on_proposal p m = (Ok (SendPrevote (own_vote m VT_Prevote (block_hash (pr_block p)))),
    m\<lparr>csm_proposal := Some p, csm_step := Prevote\<rparr>)"
  using assms by (simp add: on_proposal_def Let_def own_vote_def)

text \<open>
  C40: the machine does not check the step when a proposal arrives. An unlocked node that receives two
  blocks from the proposer of the round prevotes for both, in votes that the evidence constructor
  accepts as a duplicate vote, and keeps the second block as the one to execute.
\<close>

theorem second_proposal_equivocates:
  assumes "current_proposer m = Some a" "vs_contains (csm_validator_set m) a" "csm_locked_block m = None"
    and "pr_height p1 = csm_height m" "pr_round p1 = csm_round m" "pr_proposer p1 = a"
    and "pr_height p2 = csm_height m" "pr_round p2 = csm_round m" "pr_proposer p2 = a"
    and "block_hash (pr_block p1) \<noteq> block_hash (pr_block p2)"
  shows "\<exists>v1 m1 v2 m2. on_proposal p1 m = (Ok (SendPrevote v1), m1) \<and> on_proposal p2 m1 = (Ok (SendPrevote v2), m2) \<and>
    new_duplicate_vote v1 v2 = Some (DuplicateVote v1 v2) \<and> csm_proposal m2 = Some p2"
proof -
  let ?m1 = "m\<lparr>csm_proposal := Some p1, csm_step := Prevote\<rparr>"
  have "current_proposer ?m1 = Some a"
    using assms(1) by (simp add: current_proposer_def)
  then show ?thesis
    using proposal_accepted [of m p1] proposal_accepted [of ?m1 p2] assms
    by (simp add: own_vote_def new_duplicate_vote_def)
qed

subsection \<open>Sample runs\<close>

text \<open>A single validator, whose vote is a quorum.\<close>

definition one_validator :: ValidatorSet where
  "one_validator = \<lparr>vs_validators = [\<lparr>vw_address = 1, vw_stake = 10\<rparr>], vs_total_stake = 10\<rparr>"

definition sample_machine :: ConsensusStateMachine where
  "sample_machine = ConsensusStateMachine_new 5 one_validator 1"

definition sample_vote :: "VoteType \<Rightarrow> hash \<Rightarrow> Vote" where
  "sample_vote ty b = \<lparr>vt_height = 5, vt_round = 0, vt_type = ty, vt_block_hash = b, vt_voter = 1, vt_signature = 0\<rparr>"

definition sample_proposal :: "hash \<Rightarrow> Proposal" where
  "sample_proposal b = \<lparr>pr_height = 5, pr_round = 0,
     pr_block = \<lparr>blk_header = \<lparr>bh_height = 5, bh_timestamp = 0, bh_parent_hash = 0, bh_state_root = 0,
       bh_transactions_root = 0, bh_proposer = 1, bh_chain_id = ''polay'', bh_hash = b\<rparr>, blk_transactions = []\<rparr>,
     pr_proposer = 1, pr_signature = 0\<rparr>"

lemma vote_list_single [simp]: "vote_list (fmupd a v fmempty) = [v]"
  by (simp add: vote_list_def sorted_list_of_fmap_def sorted_list_of_fset.rep_eq)

lemma one_validator_facts [simp]:
  "ValidatorSet_new [\<lparr>vw_address = 1, vw_stake = 10\<rparr>] = Ok one_validator"
  "quorum_threshold one_validator = 7" "get_stake one_validator 1 = 10" "vs_contains one_validator 1"
  "get_proposer one_validator h r = Some \<lparr>vw_address = 1, vw_stake = 10\<rparr>" "vs_total_stake one_validator = 10"
  by (simp_all add: one_validator_def ValidatorSet_new_def quorum_threshold_def get_stake_def vs_contains_def
      get_proposer_def checked_add_def)

lemma sample_machine_facts [simp]:
  "csm_height sample_machine = 5" "csm_round sample_machine = 0" "csm_step sample_machine = NewRound"
  "csm_validator_set sample_machine = one_validator" "csm_precommits sample_machine = fmempty"
  "csm_prevotes sample_machine = fmempty" "csm_locked_block sample_machine = None" "csm_local_address sample_machine = 1"
  "current_proposer sample_machine = Some 1" "reachable_machine sample_machine"
  by (simp_all add: sample_machine_def ConsensusStateMachine_new_def current_proposer_def)
     (simp add: reachable_machine.start flip: ConsensusStateMachine_new_def)

lemma sample_commit:
  assumes "b \<noteq> ZERO"
  obtains p m' where "on_precommit (sample_vote VT_Precommit b) sample_machine = (Ok (Some (CommitBlock 5 b p)), m')"
    "cp_votes p = [sample_vote VT_Precommit b]"
  using assms that
  by (auto simp: on_precommit_def validate_vote_basics_def sample_vote_def Let_def find_precommit_quorum_def
      is_zero_def saturating_add_def)

theorem commits_agree_or_incriminate_witness:
  "\<exists>p1 p2 m1 m2. on_precommit (sample_vote VT_Precommit 7) sample_machine = (Ok (Some (CommitBlock 5 7 p1)), m1) \<and>
     on_precommit (sample_vote VT_Precommit 8) sample_machine = (Ok (Some (CommitBlock 5 8 p2)), m2) \<and>
     certificate one_validator 5 0 7 p1 \<and>
     (\<exists>A. 10 < 3 * sum (stake_of one_validator) A \<and>
       (\<forall>a\<in>A. \<exists>v1\<in>set (cp_votes p1). \<exists>v2\<in>set (cp_votes p2). vt_voter v1 = a \<and>
          new_duplicate_vote v1 v2 = Some (DuplicateVote v1 v2)))"
proof -
  obtain p1 m1 where r1: "on_precommit (sample_vote VT_Precommit 7) sample_machine = (Ok (Some (CommitBlock 5 7 p1)), m1)"
    by (rule sample_commit [of 7]) (simp_all add: ZERO_def)
  obtain p2 m2 where r2: "on_precommit (sample_vote VT_Precommit 8) sample_machine = (Ok (Some (CommitBlock 5 8 p2)), m2)"
    by (rule sample_commit [of 8]) (simp_all add: ZERO_def)
  from commits_agree_or_incriminate [OF one_validator_facts(1) _ _ _ r1 _ r2] show ?thesis
    using r1 r2 by simp
qed

text \<open>A prevote locks the node on block 7; it answers a proposal of block 8 with a nil prevote.\<close>

lemma sample_lock:
  fixes m :: ConsensusStateMachine
  assumes "m = sample_machine\<lparr>csm_step := Propose\<rparr>"
  shows "fst (on_prevote (sample_vote VT_Prevote 7) m) = Ok (Some (SendPrecommit (sample_vote VT_Precommit 7)))"
    and "fst (on_proposal (sample_proposal 8) (m\<lparr>csm_locked_block := Some (0, 7)\<rparr>)) = Ok (SendPrevote (sample_vote VT_Prevote ZERO))"
  using assms
  by (simp_all add: on_prevote_def validate_vote_basics_def sample_vote_def Let_def find_prevote_quorum_def is_zero_def
      saturating_add_def ZERO_def own_vote_def on_proposal_def sample_proposal_def current_proposer_def block_hash_def)


theorem quorum_of_precommits_commits_witness:
  "\<exists>us v ws p. [sample_vote VT_Precommit 7] = us @ v # ws \<and>
     fst (on_precommit v (fold handle_event (map Ev_Precommit us) sample_machine)) = Ok (Some (CommitBlock 5 7 p))"
  using quorum_of_precommits_commits [of sample_machine "[\<lparr>vw_address = 1, vw_stake = 10\<rparr>]" 7 "[sample_vote VT_Precommit 7]"]
  by (simp add: ZERO_def pending_precommits_def sample_vote_def voters_for_def vote_list_def set_scan)

theorem second_proposal_equivocates_witness:
  "\<exists>v1 m1 v2 m2. on_proposal (sample_proposal 7) sample_machine = (Ok (SendPrevote v1), m1) \<and>
     on_proposal (sample_proposal 8) m1 = (Ok (SendPrevote v2), m2) \<and>
     new_duplicate_vote v1 v2 = Some (DuplicateVote v1 v2) \<and> csm_proposal m2 = Some (sample_proposal 8)"
  by (rule second_proposal_equivocates [of _ 1]) (simp_all add: sample_proposal_def block_hash_def)

text \<open>The machine that has counted the precommit of its one validator.\<close>

theorem quorum_search_exact_witness:
  "\<exists>m. reachable_machine m \<and> find_precommit_quorum m = Some 7 \<and> has_precommit_quorum m 7 \<and> \<not> has_precommit_quorum m 8"
proof -
  let ?v = "sample_vote VT_Precommit 7"
  define m where "m = handle_event (Ev_Precommit ?v) sample_machine"
  have reach: "reachable_machine m"
    unfolding m_def by (rule reachable_machine.event) simp
  have m: "csm_validator_set m = one_validator" "csm_precommits m = fmupd 1 ?v fmempty"
    by (simp_all add: m_def on_precommit_def validate_vote_basics_def sample_vote_def Let_def find_precommit_quorum_def
        is_zero_def saturating_add_def ZERO_def)
  then have "find_precommit_quorum m = Some 7"
    by (simp add: find_precommit_quorum_def sample_vote_def saturating_add_def)
  moreover have "ValidatorSet_new [\<lparr>vw_address = 1, vw_stake = 10\<rparr>] = Ok (csm_validator_set m)"
    by (simp add: m)
  ultimately show ?thesis
    using reach quorum_search_exact [of m _ 7] quorum_search_exact [of m _ 8] by fastforce
qed

end
