(* ===== verification/Polay_Node.thy ===== *)
theory Polay_Node
  imports Polay_Blocks Polay_Agreement
begin

section \<open>The validator node\<close>

text \<open>
  \<^verbatim>\<open>polay-validator/src/validator_loop.rs\<close>: the node that joins store, pool, executor, epoch manager and
  consensus machine, one definition per handler of its event loop. Messages for the network and events for the
  event bus are appended to an outbox in the order in which the handlers hand them over; whether delivery
  succeeds is only logged by the source. A handler logs the errors of the operations it calls and goes on, so it
  ends with \<open>Ok\<close> or, where the source panics, with \<open>Panic\<close>, and leaves the node as it is then.
\<close>

record ConsensusVoteMsg =
  cvm_height :: u64
  cvm_round :: u32
  cvm_vote_type :: string
  cvm_block_hash :: hash
  cvm_voter :: address
  cvm_voter_signature :: signature

datatype (plugins only: size) ChainEvent =
    NewBlock u64 string usize u64 string
  | NewTransaction string string string u64
  | TransactionConfirmed string u64 bool u64
  | ValidatorUpdate string string
  | ListingUpdate string string string
  | MatchResultSubmitted string string usize
  | ProposalCreated string string string
  | VoteCast string string string
  | ProposalFinalized string string
  | EpochTransition u64 usize u64 u64

datatype (plugins only: size) P2PEvent =
    TransactionReceived SignedTransaction
  | BlockReceived Block u32 address
  | ConsensusMessageReceived ConsensusVoteMsg
  | PeerConnected string
  | PeerDisconnected string
  | PeerCount usize

datatype (plugins only: size) node_output =
    Block_sent Block u32 address
  | Vote_sent ConsensusVoteMsg
  | Published ChainEvent

text \<open>
  Executor, block producer, block validator and epoch manager hold nothing but the configuration and the key;
  \<open>vn_network\<close> and \<open>vn_event_bus\<close> tell whether the node has a network service and an event bus.
\<close>

record ValidatorNode =
  vn_store :: node_store
  vn_mempool :: Mempool
  vn_keypair :: bytes
  vn_config :: ChainConfig
  vn_consensus :: "ConsensusStateMachine option"
  vn_validator_set :: "ValidatorSet option"
  vn_network :: bool
  vn_event_bus :: bool
  vn_peer_count :: u32
  vn_outbox :: "node_output list"

type_synonym 'a node_result = "(ValidatorError, 'a) result \<times> ValidatorNode"

definition node_height :: "ValidatorNode \<Rightarrow> u64" where
  "node_height n = get_chain_height (ns_chain (vn_store n))"

definition node_latest_hash :: "ValidatorNode \<Rightarrow> hash" where
  "node_latest_hash n = get_latest_hash (ns_chain (vn_store n))"

definition node_address :: "node_externals \<Rightarrow> ValidatorNode \<Rightarrow> address" where
  "node_address nx n = Keypair_address (nx_crypto nx) (vn_keypair n)"

subsection \<open>Construction\<close>

definition ValidatorNode_new ::
  "(string \<Rightarrow> string + bytes) \<Rightarrow> node_store \<Rightarrow> Genesis \<Rightarrow> bytes \<Rightarrow> ChainConfig \<Rightarrow> (ValidatorError, ValidatorNode) result" where
  "ValidatorNode_new hex_decode store genesis keypair chain_config =
     (case init_from_genesis hex_decode chain_config genesis store of
        (Err e, _) \<Rightarrow> Err e
      | (Panic, _) \<Rightarrow> Panic
      | (Ok _, store) \<Rightarrow>
          (case Executor_new chain_config of
             Ok _ \<Rightarrow>
               Ok \<lparr>vn_store = store, vn_mempool = Mempool_new MempoolConfig_default, vn_keypair = keypair,
                   vn_config = chain_config, vn_consensus = None, vn_validator_set = None, vn_network = False,
                   vn_event_bus = False, vn_peer_count = 0, vn_outbox = []\<rparr>
           | _ \<Rightarrow> Panic))"

definition set_event_bus :: "ValidatorNode \<Rightarrow> ValidatorNode" where
  "set_event_bus n = n\<lparr>vn_event_bus := True\<rparr>"

definition set_network :: "ValidatorNode \<Rightarrow> ValidatorNode" where
  "set_network n = n\<lparr>vn_network := True\<rparr>"

definition init_consensus :: "node_externals \<Rightarrow> ValidatorSet \<Rightarrow> ValidatorNode \<Rightarrow> ValidatorNode" where
  "init_consensus nx validator_set n =
     n\<lparr>vn_consensus := Some (ConsensusStateMachine_new (node_height n + 1) validator_set (node_address nx n)),
       vn_validator_set := Some validator_set\<rparr>"

definition genesis_weight :: "(string \<Rightarrow> string + bytes) \<Rightarrow> GenesisValidator \<Rightarrow> ValidatorWeight option" where
  "genesis_weight hex_decode gv =
     (case parse_address hex_decode (gnv_address gv) of
        Ok a \<Rightarrow> Some \<lparr>vw_address = a, vw_stake = gnv_stake gv\<rparr>
      | _ \<Rightarrow> None)"

definition validator_set_from_genesis :: "(string \<Rightarrow> string + bytes) \<Rightarrow> Genesis \<Rightarrow> (unit, ValidatorSet) result" where
  "validator_set_from_genesis hex_decode genesis =
     ValidatorSet_new (List.map_filter (genesis_weight hex_decode) (gen_validators genesis))"

subsection \<open>Outputs\<close>

definition broadcast_block :: "Block \<Rightarrow> u32 \<Rightarrow> address \<Rightarrow> ValidatorNode \<Rightarrow> ValidatorNode" where
  "broadcast_block block rnd proposer n =
     (if vn_network n then n\<lparr>vn_outbox := vn_outbox n @ [Block_sent block rnd proposer]\<rparr> else n)"

definition vote_message :: "Vote \<Rightarrow> ConsensusVoteMsg" where
  "vote_message vote =
     \<lparr>cvm_height = vt_height vote, cvm_round = vt_round vote,
      cvm_vote_type = (case vt_type vote of VT_Prevote \<Rightarrow> ''prevote'' | VT_Precommit \<Rightarrow> ''precommit''),
      cvm_block_hash = vt_block_hash vote, cvm_voter = vt_voter vote, cvm_voter_signature = vt_signature vote\<rparr>"

definition broadcast_vote :: "Vote \<Rightarrow> ValidatorNode \<Rightarrow> ValidatorNode" where
  "broadcast_vote vote n =
     (if vn_network n then n\<lparr>vn_outbox := vn_outbox n @ [Vote_sent (vote_message vote)]\<rparr> else n)"

definition publish :: "ChainEvent list \<Rightarrow> ValidatorNode \<Rightarrow> ValidatorNode" where
  "publish events n = (if vn_event_bus n then n\<lparr>vn_outbox := vn_outbox n @ map Published events\<rparr> else n)"

definition to_hex :: "node_externals \<Rightarrow> 256 word \<Rightarrow> string" where
  "to_hex nx w = ext_hex_encode (nx_ext nx) (be_bytes 32 w)"

definition transaction_events :: "node_externals \<Rightarrow> Block \<Rightarrow> SignedTransaction \<times> TransactionReceipt \<Rightarrow> ChainEvent list" where
  "transaction_events nx block = (\<lambda>(tx, receipt).
     [NewTransaction (to_hex nx (stx_tx_hash tx)) (to_hex nx (tx_signer (stx_transaction tx)))
        (action_label (tx_action (stx_transaction tx))) (bh_height (blk_header block)),
      TransactionConfirmed (to_hex nx (stx_tx_hash tx)) (rcp_block_height receipt) (rcp_success receipt) (rcp_gas_used receipt)])"

definition publish_block_events :: "node_externals \<Rightarrow> Block \<Rightarrow> TransactionReceipt list \<Rightarrow> ValidatorNode \<Rightarrow> ValidatorNode" where
  "publish_block_events nx block receipts =
     publish (NewBlock (bh_height (blk_header block)) (to_hex nx (bh_hash (blk_header block)))
         (word_of_nat (length (blk_transactions block))) (bh_timestamp (blk_header block)) (to_hex nx (bh_proposer (blk_header block)))
       # concat (map (transaction_events nx block) (zip (blk_transactions block) receipts)))"

subsection \<open>Epochs\<close>

text \<open>
  The two numbers of the epoch event are read back from the attributes of the event of the epoch manager, which
  printed them as decimal numbers.
\<close>

definition attribute_u64 :: "Event \<Rightarrow> string \<Rightarrow> u64" where
  "attribute_u64 evt key =
     (case get_attribute evt key of Some (Dec k) \<Rightarrow> if k < 2 ^ 64 then word_of_nat k else 0 | _ \<Rightarrow> 0)"

definition maybe_process_epoch :: "u64 \<Rightarrow> ValidatorNode \<Rightarrow> unit node_result" where
  "maybe_process_epoch height n =
     (if \<not> is_epoch_boundary (vn_config n) height then (Ok (), n)
      else case process_epoch_transition (vn_config n) height (vn_store n) of
        (Ok (new_set, epoch_events), store) \<Rightarrow>
          (case (epoch_for_height (vn_config n) height :: (unit, u64) result) of
             Ok epoch \<Rightarrow>
               (let n = n\<lparr>vn_store := store, vn_consensus := map_option (update_validator_set new_set) (vn_consensus n),
                      vn_validator_set := Some new_set\<rparr>
                in case find (\<lambda>e. ev_action e = ''epoch_transition'') epoch_events of
                     Some evt \<Rightarrow>
                       (Ok (), publish [EpochTransition epoch (word_of_nat (length (vs_validators new_set)))
                          (attribute_u64 evt ''total_staked'') (attribute_u64 evt ''rewards_distributed'')] n)
                   | None \<Rightarrow> (Ok (), n))
           | _ \<Rightarrow> (Panic, n\<lparr>vn_store := store\<rparr>))
      | (Err _, store) \<Rightarrow> (Ok (), n\<lparr>vn_store := store\<rparr>)
      | (Panic, store) \<Rightarrow> (Panic, n\<lparr>vn_store := store\<rparr>))"

definition maybe_process_epoch_readonly :: "u64 \<Rightarrow> ValidatorNode \<Rightarrow> unit node_result" where
  "maybe_process_epoch_readonly height n =
     (if \<not> is_epoch_boundary (vn_config n) height then (Ok (), n)
      else case process_epoch_transition (vn_config n) height (vn_store n) of
        (Panic, store) \<Rightarrow> (Panic, n\<lparr>vn_store := store\<rparr>)
      | (_, store) \<Rightarrow> (Ok (), n\<lparr>vn_store := store\<rparr>))"

subsection \<open>Producing and committing\<close>

text \<open>What both producers do: a block on the tip, with the state root of the store as it is.\<close>

definition next_block ::
  "node_externals \<Rightarrow> u64 \<Rightarrow> ValidatorNode \<Rightarrow> (Block \<times> TransactionReceipt list) node_result" where
  "next_block nx now n =
     (case state_root_of nx (vn_store n) of
        Err e \<Rightarrow> (Err (StateError_validator e), n)
      | Panic \<Rightarrow> (Panic, n)
      | Ok state_root \<Rightarrow>
          (case produce_block nx (vn_config n) (vn_keypair n) now (node_height n + 1) (node_latest_hash n) state_root
                  (vn_mempool n) (cfg_chain_id (vn_config n)) (vn_store n) of
             (r, store) \<Rightarrow> (r, n\<lparr>vn_store := store\<rparr>)))"

definition produce_proposal :: "node_externals \<Rightarrow> u64 \<Rightarrow> ValidatorNode \<Rightarrow> (Proposal \<times> Vote) node_result" where
  "produce_proposal nx now n =
     (let next_height = node_height n + 1;
          rnd = (case vn_consensus n of Some c \<Rightarrow> csm_round c | None \<Rightarrow> 0)
      in case next_block nx now n of
           (Err e, n) \<Rightarrow> (Err e, n)
         | (Panic, n) \<Rightarrow> (Panic, n)
         | (Ok (block, _), n) \<Rightarrow>
             (Ok (\<lparr>pr_height = next_height, pr_round = rnd, pr_block = block, pr_proposer = node_address nx n, pr_signature = 0\<rparr>,
                  \<lparr>vt_height = next_height, vt_round = rnd, vt_type = VT_Prevote, vt_block_hash = block_hash block,
                   vt_voter = node_address nx n, vt_signature = 0\<rparr>), n))"

definition prune_pool :: "Block \<Rightarrow> ValidatorNode \<Rightarrow> ValidatorNode" where
  "prune_pool block n = n\<lparr>vn_mempool := remove_batch (vn_mempool n) (map stx_tx_hash (blk_transactions block))\<rparr>"

definition produce_and_apply_block :: "node_externals \<Rightarrow> u64 \<Rightarrow> ValidatorNode \<Rightarrow> unit node_result" where
  "produce_and_apply_block nx now n =
     (let next_height = node_height n + 1
      in case next_block nx now n of
           (Err e, n) \<Rightarrow> (Err e, n)
         | (Panic, n) \<Rightarrow> (Panic, n)
         | (Ok (block, receipts), n) \<Rightarrow>
             maybe_process_epoch_readonly next_height
               (publish_block_events nx block receipts
                 (prune_pool block (n\<lparr>vn_store := apply_block block receipts (vn_store n)\<rparr>))))"

text \<open>The block is the one of the proposal the machine holds; the committed hash is only logged.\<close>

definition handle_commit :: "node_externals \<Rightarrow> u64 \<Rightarrow> hash \<Rightarrow> CommitProof \<Rightarrow> ValidatorNode \<Rightarrow> unit node_result" where
  "handle_commit nx height committed_hash commit_proof n =
     (case vn_consensus n of
        None \<Rightarrow> (Panic, n)
      | Some consensus \<Rightarrow>
          (case csm_proposal consensus of
             None \<Rightarrow> (Ok (), n)
           | Some proposal \<Rightarrow>
               (let block = pr_block proposal; store = vn_store n in
                case validate_block_light (nx_crypto nx) (vn_config n) block height (node_latest_hash n) of
                  Err _ \<Rightarrow> (Ok (), n)
                | Panic \<Rightarrow> (Panic, n)
                | Ok _ \<Rightarrow>
                    (let (receipts, s) = execute_block (nx_ext nx) (vn_config n) (blk_transactions block) height
                           (bh_proposer (blk_header block)) (ns_chain store);
                         store = apply_block block receipts (store\<lparr>ns_chain := s\<rparr>);
                         store = store\<lparr>ns_chain := apply_block_reward (vn_config n) (bh_proposer (blk_header block)) (ns_chain store)\<rparr>;
                         n = publish_block_events nx block receipts (prune_pool block (n\<lparr>vn_store := store\<rparr>))
                     in case maybe_process_epoch height n of
                          (Ok _, n) \<Rightarrow> (Ok (), n\<lparr>vn_consensus := map_option (advance_height (height + 1)) (vn_consensus n)\<rparr>)
                        | (Err e, n) \<Rightarrow> (Err e, n)
                        | (Panic, n) \<Rightarrow> (Panic, n)))))"

subsection \<open>Consensus actions\<close>

text \<open>A call of the machine, where the node has one.\<close>

definition feed ::
  "(ConsensusStateMachine \<Rightarrow> (ConsensusError, 'a) result \<times> ConsensusStateMachine) \<Rightarrow> ValidatorNode \<Rightarrow>
   (ConsensusError, 'a) result option \<times> ValidatorNode" where
  "feed f n =
     (case vn_consensus n of
        None \<Rightarrow> (None, n)
      | Some m \<Rightarrow> (let (r, m') = f m in (Some r, n\<lparr>vn_consensus := Some m'\<rparr>)))"

definition send_precommit :: "node_externals \<Rightarrow> Vote \<Rightarrow> ValidatorNode \<Rightarrow> unit node_result" where
  "send_precommit nx vote n =
     (case feed (on_precommit vote) (broadcast_vote vote n) of
        (Some (Ok (Some (CommitBlock height h commit_proof))), n) \<Rightarrow> handle_commit nx height h commit_proof n
      | (Some Panic, n) \<Rightarrow> (Panic, n)
      | (_, n) \<Rightarrow> (Ok (), n))"

definition send_prevote :: "node_externals \<Rightarrow> Vote \<Rightarrow> ValidatorNode \<Rightarrow> unit node_result" where
  "send_prevote nx vote n =
     (case feed (on_prevote vote) (broadcast_vote vote n) of
        (Some (Ok (Some (SendPrecommit pc_vote))), n) \<Rightarrow> send_precommit nx pc_vote n
      | (Some Panic, n) \<Rightarrow> (Panic, n)
      | (_, n) \<Rightarrow> (Ok (), n))"

fun handle_consensus_action :: "node_externals \<Rightarrow> ConsensusAction \<Rightarrow> ValidatorNode \<Rightarrow> unit node_result" where
  "handle_consensus_action nx (SendProposal p) n = (Ok (), broadcast_block (pr_block p) (pr_round p) (pr_proposer p) n)"
| "handle_consensus_action nx (SendPrevote vote) n = send_prevote nx vote n"
| "handle_consensus_action nx (SendPrecommit vote) n = send_precommit nx vote n"
| "handle_consensus_action nx (CommitBlock height h commit_proof) n = handle_commit nx height h commit_proof n"
| "handle_consensus_action nx (ScheduleTimeout step duration_ms) n = (Ok (), n)"

subsection \<open>Events\<close>

definition handle_optional_action :: "node_externals \<Rightarrow> ConsensusAction option \<Rightarrow> ValidatorNode \<Rightarrow> unit node_result" where
  "handle_optional_action nx action n =
     (case action of None \<Rightarrow> (Ok (), n) | Some a \<Rightarrow> handle_consensus_action nx a n)"

text \<open>A proposer that holds a block with a quorum of prevotes proposes it again under its own name.\<close>

definition timer_proposal :: "node_externals \<Rightarrow> u64 \<Rightarrow> ConsensusStateMachine \<Rightarrow> ValidatorNode \<Rightarrow> (Proposal \<times> Vote) node_result" where
  "timer_proposal nx now c n =
     (case csm_valid_proposal c of
        Some valid_prop \<Rightarrow>
          (Ok (valid_prop\<lparr>pr_round := csm_round c, pr_proposer := node_address nx n\<rparr>,
               \<lparr>vt_height = pr_height valid_prop, vt_round = csm_round c, vt_type = VT_Prevote,
                vt_block_hash = block_hash (pr_block valid_prop), vt_voter = node_address nx n, vt_signature = 0\<rparr>), n)
      | None \<Rightarrow> produce_proposal nx now n)"

definition submit_proposal :: "node_externals \<Rightarrow> Proposal \<Rightarrow> ValidatorNode \<Rightarrow> unit node_result" where
  "submit_proposal nx proposal n =
     (case feed (on_proposal proposal) n of
        (Some Panic, n) \<Rightarrow> (Panic, n)
      | (Some (Ok action), n) \<Rightarrow>
          (case handle_consensus_action nx action n of
             (Ok _, n) \<Rightarrow> (Ok (), broadcast_block (pr_block proposal) (pr_round proposal) (pr_proposer proposal) n)
           | (Err e, n) \<Rightarrow> (Err e, n)
           | (Panic, n) \<Rightarrow> (Panic, n))
      | (_, n) \<Rightarrow> (Ok (), broadcast_block (pr_block proposal) (pr_round proposal) (pr_proposer proposal) n))"

definition on_block_timer_inner :: "node_externals \<Rightarrow> u64 \<Rightarrow> ValidatorNode \<Rightarrow> unit node_result" where
  "on_block_timer_inner nx now n =
     (case vn_consensus n of
        None \<Rightarrow> (case produce_and_apply_block nx now n of (Panic, n) \<Rightarrow> (Panic, n) | (_, n) \<Rightarrow> (Ok (), n))
      | Some c \<Rightarrow>
          (case is_proposer c of
             None \<Rightarrow> (Panic, n)
           | Some proposing \<Rightarrow>
               (if proposing \<and> (csm_step c = NewRound \<or> csm_step c = Propose)
                then case timer_proposal nx now c n of
                       (Ok (proposal, _), n) \<Rightarrow> submit_proposal nx proposal n
                     | (Err _, n) \<Rightarrow> (Ok (), n)
                     | (Panic, n) \<Rightarrow> (Panic, n)
                else (Ok (), n\<lparr>vn_consensus := Some (if csm_step c = NewRound then c\<lparr>csm_step := Propose\<rparr> else c)\<rparr>))))"

definition on_received_transaction :: "node_externals \<Rightarrow> SignedTransaction \<Rightarrow> ValidatorNode \<Rightarrow> unit node_result" where
  "on_received_transaction nx tx n =
     (case mempool_insert (nx_crypto nx) (vn_mempool n) tx of
        (Panic, pool) \<Rightarrow> (Panic, n\<lparr>vn_mempool := pool\<rparr>)
      | (_, pool) \<Rightarrow> (Ok (), n\<lparr>vn_mempool := pool\<rparr>))"

definition on_received_block :: "node_externals \<Rightarrow> Block \<Rightarrow> u32 \<Rightarrow> address \<Rightarrow> ValidatorNode \<Rightarrow> unit node_result" where
  "on_received_block nx block msg_round msg_proposer n =
     (if vn_consensus n = None then (Ok (), n)
      else case validate_proposed_block nx (vn_config n) block (node_height n + 1) (node_latest_hash n) (vn_store n) of
        (Err _, store) \<Rightarrow> (Ok (), n\<lparr>vn_store := store\<rparr>)
      | (Panic, store) \<Rightarrow> (Panic, n\<lparr>vn_store := store\<rparr>)
      | (Ok _, store) \<Rightarrow>
          (case feed (on_proposal \<lparr>pr_height = block_height block, pr_round = msg_round, pr_block = block,
                  pr_proposer = msg_proposer, pr_signature = 0\<rparr>) (n\<lparr>vn_store := store\<rparr>) of
             (Some (Ok action), n) \<Rightarrow> handle_consensus_action nx action n
           | (Some Panic, n) \<Rightarrow> (Panic, n)
           | (_, n) \<Rightarrow> (Ok (), n)))"

definition message_vote :: "ConsensusVoteMsg \<Rightarrow> Vote" where
  "message_vote msg =
     \<lparr>vt_height = cvm_height msg, vt_round = cvm_round msg,
      vt_type = (if cvm_vote_type msg = ''prevote'' then VT_Prevote else VT_Precommit),
      vt_block_hash = cvm_block_hash msg, vt_voter = cvm_voter msg, vt_signature = cvm_voter_signature msg\<rparr>"

definition on_consensus_message :: "node_externals \<Rightarrow> ConsensusVoteMsg \<Rightarrow> ValidatorNode \<Rightarrow> unit node_result" where
  "on_consensus_message nx msg n =
     (let vote = message_vote msg
      in case feed (case vt_type vote of VT_Prevote \<Rightarrow> on_prevote vote | VT_Precommit \<Rightarrow> on_precommit vote) n of
           (Some (Ok action), n) \<Rightarrow> handle_optional_action nx action n
         | (Some Panic, n) \<Rightarrow> (Panic, n)
         | (_, n) \<Rightarrow> (Ok (), n))"

definition on_consensus_timeout :: "node_externals \<Rightarrow> ValidatorNode \<Rightarrow> unit node_result" where
  "on_consensus_timeout nx n =
     (case vn_consensus n of
        None \<Rightarrow> (Ok (), n)
      | Some c \<Rightarrow> (let (action, c') = on_timeout c in handle_consensus_action nx action (n\<lparr>vn_consensus := Some c'\<rparr>)))"

definition current_step_timeout_ms :: "ValidatorNode \<Rightarrow> u64" where
  "current_step_timeout_ms n =
     (case vn_consensus n of
        Some c \<Rightarrow>
          (case csm_step c of
             NewRound \<Rightarrow> 3000 | Propose \<Rightarrow> 3000 | Prevote \<Rightarrow> 2000 | Precommit \<Rightarrow> 2000 | Commit \<Rightarrow> 3000)
      | None \<Rightarrow> 3000)"

text \<open>
  The loop of \<open>run\<close>. Its state is the node and the consensus timeout: the duration it was last set to, where it is
  active. An event is a tick of the block timer (with the clock the producer reads), the expiry of an active
  timeout, or an event of the network service.
\<close>

datatype (plugins only: size) run_event =
    Block_tick u64
  | Timeout_fired
  | Network P2PEvent

record run_state =
  rs_node :: ValidatorNode
  rs_timeout :: "u64 option"

definition with_timeout :: "unit node_result \<Rightarrow> (ValidatorNode \<Rightarrow> u64 option) \<Rightarrow> (ValidatorError, unit) result \<times> run_state" where
  "with_timeout r f = (case r of (res, n) \<Rightarrow> (res, \<lparr>rs_node = n, rs_timeout = f n\<rparr>))"

definition run_start :: "node_externals \<Rightarrow> u64 \<Rightarrow> ValidatorNode \<Rightarrow> (ValidatorError, unit) result \<times> run_state" where
  "run_start nx now n =
     (if vn_consensus n \<noteq> None then with_timeout (on_block_timer_inner nx now n) (\<lambda>_. Some 3000)
      else (Ok (), \<lparr>rs_node = n, rs_timeout = None\<rparr>))"

fun on_network :: "node_externals \<Rightarrow> P2PEvent \<Rightarrow> ValidatorNode \<Rightarrow> unit node_result" where
  "on_network nx (TransactionReceived tx) n = on_received_transaction nx tx n"
| "on_network nx (BlockReceived block rnd proposer) n = on_received_block nx block rnd proposer n"
| "on_network nx (ConsensusMessageReceived msg) n = on_consensus_message nx msg n"
| "on_network nx (PeerConnected peer) n = (Ok (), n\<lparr>vn_peer_count := vn_peer_count n + 1\<rparr>)"
| "on_network nx (PeerDisconnected peer) n = (Ok (), n\<lparr>vn_peer_count := saturating_sub (vn_peer_count n) 1\<rparr>)"
| "on_network nx (PeerCount c) n = (Ok (), n\<lparr>vn_peer_count := ucast c\<rparr>)"

fun resets_timeout :: "P2PEvent \<Rightarrow> bool" where
  "resets_timeout (BlockReceived _ _ _) = True"
| "resets_timeout (ConsensusMessageReceived _) = True"
| "resets_timeout _ = False"

fun run_step :: "node_externals \<Rightarrow> run_event \<Rightarrow> run_state \<Rightarrow> (ValidatorError, unit) result \<times> run_state" where
  "run_step nx (Block_tick now) r =
     with_timeout (on_block_timer_inner nx now (rs_node r))
       (\<lambda>n. if vn_network (rs_node r) \<and> rs_timeout r = None then Some (current_step_timeout_ms n) else rs_timeout r)"
| "run_step nx Timeout_fired r =
     (if vn_network (rs_node r) \<and> rs_timeout r \<noteq> None
      then with_timeout (on_consensus_timeout nx (rs_node r)) (\<lambda>_. None) else (Ok (), r))"
| "run_step nx (Network ev) r =
     (if vn_network (rs_node r)
      then with_timeout (on_network nx ev (rs_node r))
             (\<lambda>n. if resets_timeout ev then Some (current_step_timeout_ms n) else rs_timeout r)
      else (Ok (), r))"

subsection \<open>Only committed blocks move the chain\<close>

text \<open>The part of the chain state that names the tip and the blocks below it.\<close>

definition chain_index :: "chain_state \<Rightarrow> u64 option \<times> hash option \<times> (u64, Block) fmap" where
  "chain_index s = (st_chain_height s, st_latest_hash s, st_blocks s)"

lemma chain_index_writes [simp]:
  "chain_index (set_account acct s) = chain_index s" "chain_index (set_supply_info si s) = chain_index s"
  "chain_index (set_validator v s) = chain_index s" "chain_index (set_session g s) = chain_index s"
  "chain_index (set_active_validator_set as s) = chain_index s" "chain_index (set_epoch_info e s) = chain_index s"
  "chain_index (set_receipt r s) = chain_index s" "chain_index (set_tx_location h l s) = chain_index s"
  "chain_index (set_block_events k es s) = chain_index s" "chain_index (set_attestor a s) = chain_index s"
  by (simp_all add: chain_index_def state_defs)

lemma chain_index_views:
  assumes "chain_index s' = chain_index s"
  shows "get_chain_height s' = get_chain_height s" "get_latest_hash s' = get_latest_hash s" "get_block s' k = get_block s k"
  using assms by (simp_all add: chain_index_def get_chain_height_def get_latest_hash_def get_block_def)

lemma module_writes_index: "module_writes s s' \<Longrightarrow> chain_index s' = chain_index s"
  using module_writes_frame [of s s'] by (simp add: chain_index_def chain_records_def)

lemma charged_index: "chain_index (charged_state ext config tx proposer s) = chain_index s"
  by (cases rule: deduct_fee_cases [of "signer tx" "tx_payer tx" "Polay_Executor.tx_fee ext config tx" s])
     (simp_all add: charged_state_def distribute_fee_def Let_def)

lemma execute_transaction_index:
  assumes "wf_state s"
  shows "chain_index (snd (execute_transaction ext config tx h proposer s)) = chain_index s"
proof -
  let ?s = "charged_state ext config tx proposer s"
  have "chain_index (snd (run_action ext config tx h ?s)) = chain_index s"
    using module_writes_index [OF dispatch_writes [OF charged_state_wf [OF assms]]] charged_index
    by (simp add: run_action_def)
  then show ?thesis
    using module_writes_index [OF session_spending_writes]
    by (cases rule: execute_transaction_cases [of ext config tx h proposer s]) simp_all
qed

lemma execute_transactions_index:
  "wf_state s \<Longrightarrow> chain_index (snd (execute_transactions ext config h proposer g txs s)) = chain_index s"
proof (induction txs arbitrary: g s)
  case (Cons tx txs)
  obtain r s1 where run: "execute_transaction ext config tx h proposer s = (r, s1)"
    by (cases "execute_transaction ext config tx h proposer s")
  then have "wf_state s1" "chain_index s1 = chain_index s"
    using execute_transaction_wf [OF Cons.prems] execute_transaction_index [OF Cons.prems] by (metis snd_conv)+
  with Cons run show ?case
    by (cases r) (simp_all add: execute_transaction_safe_def Let_def case_prod_unfold)
qed simp

lemma execute_block_index:
  "wf_state s \<Longrightarrow> chain_index (snd (execute_block ext config txs h proposer s)) = chain_index s"
  using module_writes_index [OF staking_writes(4)]
  by (simp add: execute_block_def execute_transactions_index mature_unbondings_wf)

lemma apply_block_reward_index: "chain_index (apply_block_reward config proposer s) = chain_index s"
  by (simp add: apply_block_reward_def Let_def split: option.splits)

text \<open>The writes of an epoch.\<close>

lemma pay_delegations_frame:
  "wf_state s \<Longrightarrow> wf_state (snd (pay_delegations pool whole ds ps s)) \<and>
     chain_index (snd (pay_delegations pool whole ds ps s)) = chain_index s"
  by (induction pool whole ds ps s rule: pay_delegations.induct) (simp_all add: wf_intros Let_def split: option.splits)

lemma pay_validators_frame:
  "wf_state s \<Longrightarrow> wf_state (snd (pay_validators store e reward stake vs ps s)) \<and>
     chain_index (snd (pay_validators store e reward stake vs ps s)) = chain_index s"
proof (induction store e reward stake vs ps s rule: pay_validators.induct)
  case (2 store e reward stake v vs ps s)
  have "wf_state (snd (pay_validator store e reward stake v ps s)) \<and>
      chain_index (snd (pay_validator store e reward stake v ps s)) = chain_index s"
    using "2.prems" pay_delegations_frame
    by (simp add: pay_validator_def Let_def wf_intros split: option.splits)
  with "2.IH" show ?case
    by (cases "pay_validator store e reward stake v ps s"; cases "fst (pay_validator store e reward stake v ps s)") auto
qed simp

lemma unjail_frame:
  "wf_state s \<Longrightarrow> wf_state (snd (unjail_validators h vs es s)) \<and> chain_index (snd (unjail_validators h vs es s)) = chain_index s"
  by (induction h vs es s rule: unjail_validators.induct) (simp_all add: wf_intros)

lemma process_epoch_frame:
  assumes "wf_state (ns_chain store)"
  shows "wf_state (ns_chain (snd (process_epoch_transition config h store))) \<and>
    chain_index (ns_chain (snd (process_epoch_transition config h store))) = chain_index (ns_chain store)"
proof (cases "epoch_for_height config h :: (EpochError, u64) result")
  case (Ok epoch)
  obtain es s1 where unjail: "unjail_validators h (get_validator_set store) [] (ns_chain store) = (es, s1)"
    by (cases "unjail_validators h (get_validator_set store) [] (ns_chain store)")
  then have s1: "wf_state s1" "chain_index s1 = chain_index (ns_chain store)"
    using unjail_frame [OF assms, of h "get_validator_set store" "[]"] by simp_all
  have "wf_state (ns_chain (snd (distribute_epoch_rewards vs epoch config st))) \<and>
      chain_index (ns_chain (snd (distribute_epoch_rewards vs epoch config st))) = chain_index (ns_chain st)"
    if "wf_state (ns_chain st)" for vs st
    using pay_validators_frame [OF that] that
    by (simp add: distribute_epoch_rewards_def Let_def wf_intros case_prod_unfold split: result.split option.split)
  with s1 show ?thesis
    unfolding process_epoch_transition_def Ok unjail
    by (simp add: Let_def wf_intros case_prod_unfold split: result.split)
qed (use assms in \<open>simp_all add: process_epoch_transition_def\<close>)

text \<open>A committed block is the new tip.\<close>

lemma apply_receipts_frame:
  "wf_state s \<Longrightarrow> wf_state (apply_receipts h i rs s) \<and> chain_index (apply_receipts h i rs s) = chain_index s"
  by (induction h i rs s rule: apply_receipts.induct) (simp_all add: wf_intros)

lemma apply_block_effect:
  assumes "wf_state (ns_chain store)"
  shows "wf_state (ns_chain (apply_block block rs store))"
    "chain_index (ns_chain (apply_block block rs store)) =
       (Some (block_height block), Some (block_hash block), fmupd (block_height block) block (st_blocks (ns_chain store)))"
proof -
  have stored: "wf_state (store_block block (ns_chain store))"
    by (rule wf_intros [OF assms])
  note rs = apply_receipts_frame [OF stored, of "bh_height (blk_header block)" 0 rs]
  show "wf_state (ns_chain (apply_block block rs store))"
    using rs by (simp add: apply_block_def Let_def wf_intros)
  have "st_blocks (store_block block (ns_chain store)) = fmupd (block_height block) block (st_blocks (ns_chain store))"
    by (simp add: store_block_def)
  with rs show "chain_index (ns_chain (apply_block block rs store)) =
      (Some (block_height block), Some (block_hash block), fmupd (block_height block) block (st_blocks (ns_chain store)))"
    by (simp add: apply_block_def Let_def chain_index_def set_latest_hash_def set_chain_height_def set_block_events_def)
qed

subsection \<open>The invariant of the node\<close>

text \<open>The hash the next block has to name as its parent, and the chain below it.\<close>

definition tip_hash :: "chain_state \<Rightarrow> u64 \<Rightarrow> hash" where
  "tip_hash s h = (if h = 0 then ZERO else case get_block s h of Some b \<Rightarrow> block_hash b | None \<Rightarrow> ZERO)"

definition chain_linked :: "crypto \<Rightarrow> ChainConfig \<Rightarrow> chain_state \<Rightarrow> bool" where
  "chain_linked cx config s \<longleftrightarrow>
     get_latest_hash s = tip_hash s (get_chain_height s) \<and>
     (\<forall>h. 0 < h \<and> h \<le> get_chain_height s \<longrightarrow>
        (\<exists>b. get_block s h = Some b \<and> extends_tip cx config h (tip_hash s (h - 1)) b))"

definition node_ok :: "node_externals \<Rightarrow> ChainConfig \<Rightarrow> ValidatorNode \<Rightarrow> bool" where
  "node_ok nx config n \<longleftrightarrow>
     vn_config n = config \<and> wf_state (ns_chain (vn_store n)) \<and> chain_linked (nx_crypto nx) config (ns_chain (vn_store n)) \<and>
     pool_ok (nx_crypto nx) (vn_mempool n) \<and> mp_config (vn_mempool n) = MempoolConfig_default \<and>
     (case vn_consensus n of None \<Rightarrow> True | Some m \<Rightarrow> machine_ok m \<and> csm_height m = node_height n + 1)"

lemma chain_linked_frame:
  assumes "chain_index s' = chain_index s"
  shows "chain_linked cx config s' = chain_linked cx config s"
  by (simp add: chain_linked_def tip_hash_def chain_index_views [OF assms])

lemma chain_linked_extend:
  assumes linked: "chain_linked cx config s" and tip: "extends_tip cx config (get_chain_height s + 1) (get_latest_hash s) b"
    and index: "chain_index s' = (Some (block_height b), Some (block_hash b), fmupd (block_height b) b (st_blocks s))"
    and room: "get_chain_height s \<noteq> - 1"
  shows "chain_linked cx config s'" "get_chain_height s' = get_chain_height s + 1"
proof -
  let ?h = "get_chain_height s + 1"
  have h: "block_height b = ?h" using tip by (simp add: extends_tip_def block_height_def)
  have views: "get_chain_height s' = ?h" "get_latest_hash s' = block_hash b"
    "get_block s' k = (if k = ?h then Some b else get_block s k)" for k
    using index h by (simp_all add: chain_index_def get_chain_height_def get_latest_hash_def get_block_def unwrap_or_def)
  show "get_chain_height s' = ?h" by (fact views(1))
  have pos: "?h \<noteq> 0" using room by (metis add_eq_0_iff2)
  have "unat ?h = unat (get_chain_height s) + 1"
    using unatSuc [of "get_chain_height s"] pos by (simp add: add.commute)
  then have below: "k \<le> get_chain_height s \<longleftrightarrow> k < ?h" for k
    by (simp add: word_le_nat_alt word_less_nat_alt less_Suc_eq_le)
  have tips: "tip_hash s' k = tip_hash s k" if "k < ?h" for k
    using that by (auto simp: tip_hash_def views(3))
  have top: "tip_hash s (get_chain_height s) = get_latest_hash s" "get_chain_height s < ?h"
    using linked below by (auto simp: chain_linked_def)
  have "\<exists>c. get_block s' k = Some c \<and> extends_tip cx config k (tip_hash s' (k - 1)) c" if k: "0 < k" "k \<le> ?h" for k
  proof (cases "k = ?h")
    case True
    with tip tips [OF top(2)] top(1) show ?thesis by (simp add: views(3))
  next
    case False
    with k have "k < ?h" by simp
    moreover then have "k - 1 < ?h"
      using k(1) by (metis word_le_less_eq measure_unat order.strict_trans word_less_nat_alt word_neq_0_conv)
    ultimately show ?thesis
      using linked k below False by (simp add: chain_linked_def views(3) tips)
  qed
  then show "chain_linked cx config s'"
    using pos by (simp add: chain_linked_def views tip_hash_def)
qed

text \<open>The machine stays at its height, and commits at its height only.\<close>

fun action_fits :: "u64 \<Rightarrow> ConsensusAction \<Rightarrow> bool" where
  "action_fits h (CommitBlock h' _ _) \<longleftrightarrow> h' = h"
| "action_fits h _ \<longleftrightarrow> True"

definition fitting :: "u64 \<Rightarrow> (ConsensusError, ConsensusAction option) result \<Rightarrow> bool" where
  "fitting h r \<longleftrightarrow> (case r of Ok (Some a) \<Rightarrow> action_fits h a | _ \<Rightarrow> True)"

lemma fittingD: "fitting h r \<Longrightarrow> r = Ok (Some a) \<Longrightarrow> action_fits h a"
  by (simp add: fitting_def)

lemma catch_up_height: "csm_height (snd (catch_up r m)) = csm_height m" "fitting h (fst (catch_up r m))"
  by (simp_all add: catch_up_def skip_to_round_def fitting_def)

lemma machine_heights:
  "csm_height (snd (on_prevote v m)) = csm_height m" "fitting (csm_height m) (fst (on_prevote v m))"
  "csm_height (snd (on_precommit v m)) = csm_height m" "fitting (csm_height m) (fst (on_precommit v m))"
  "csm_height (snd (on_proposal p m)) = csm_height m" "fst (on_proposal p m) = Ok a \<Longrightarrow> action_fits (csm_height m) a"
  "csm_height (snd (on_timeout m)) = csm_height m" "action_fits (csm_height m) (fst (on_timeout m))"
  subgoal by (cases rule: on_prevote_cases [of v m]) (simp_all add: catch_up_height)
  subgoal by (cases rule: on_prevote_cases [of v m]) (simp_all add: catch_up_height, simp_all add: fitting_def)
  subgoal by (cases rule: on_precommit_cases [of v m]) (simp_all add: catch_up_height)
  subgoal by (cases rule: on_precommit_cases [of v m]) (simp_all add: catch_up_height, simp_all add: fitting_def)
  subgoal by (cases rule: on_proposal_cases [of p m]) simp_all
  subgoal by (cases rule: on_proposal_cases [of p m]) auto
  subgoal by (cases "csm_step m") (simp_all add: on_timeout_def start_new_round_def Let_def)
  subgoal by (cases "csm_step m") (simp_all add: on_timeout_def start_new_round_def Let_def)
  done

text \<open>What a node hands out does not matter to the invariant; a call of the machine keeps it.\<close>

lemma node_ok_outputs [simp]:
  "node_ok nx config (broadcast_block b r p n) = node_ok nx config n"
  "node_ok nx config (broadcast_vote v n) = node_ok nx config n"
  "node_ok nx config (publish es n) = node_ok nx config n"
  "vn_consensus (broadcast_block b r p n) = vn_consensus n" "vn_store (broadcast_block b r p n) = vn_store n"
  "vn_consensus (broadcast_vote v n) = vn_consensus n" "vn_store (broadcast_vote v n) = vn_store n"
  "vn_consensus (publish es n) = vn_consensus n" "vn_store (publish es n) = vn_store n"
  "vn_config (publish es n) = vn_config n" "vn_mempool (publish es n) = vn_mempool n"
  by (simp_all add: node_ok_def broadcast_block_def broadcast_vote_def publish_def node_height_def cong: option.case_cong)

lemma feed_ok:
  assumes "node_ok nx config n" "feed f n = (res, n')"
    and "\<And>m. machine_ok m \<Longrightarrow> machine_ok (snd (f m)) \<and> csm_height (snd (f m)) = csm_height m"
  shows "node_ok nx config n' \<and> node_height n' = node_height n"
  using assms(1,2) assms(3)
  by (cases "vn_consensus n") (auto simp: feed_def node_ok_def node_height_def Let_def case_prod_unfold)

lemma feed_result:
  assumes "feed f n = (Some res, n')"
  obtains m where "vn_consensus n = Some m" "res = fst (f m)" "vn_consensus n' = Some (snd (f m))"
  using assms by (cases "vn_consensus n") (auto simp: feed_def Let_def case_prod_unfold)

lemma maybe_epoch_frame:
  assumes "wf_state (ns_chain (vn_store n))" "maybe_process_epoch h n = (Ok u, n')"
  shows "wf_state (ns_chain (vn_store n'))" "chain_index (ns_chain (vn_store n')) = chain_index (ns_chain (vn_store n))"
    "vn_config n' = vn_config n" "vn_mempool n' = vn_mempool n"
proof -
  obtain r store where epoch: "process_epoch_transition (vn_config n) h (vn_store n) = (r, store)"
    by (cases "process_epoch_transition (vn_config n) h (vn_store n)")
  have "wf_state (ns_chain store)" "chain_index (ns_chain store) = chain_index (ns_chain (vn_store n))"
    using process_epoch_frame [OF assms(1), of "vn_config n" h] unfolding epoch by simp_all
  with assms epoch show "wf_state (ns_chain (vn_store n'))" "chain_index (ns_chain (vn_store n')) = chain_index (ns_chain (vn_store n))"
    "vn_config n' = vn_config n" "vn_mempool n' = vn_mempool n"
    by (auto simp: maybe_process_epoch_def Let_def split: if_splits result.splits option.splits)
qed

lemma maybe_epoch_readonly_frame:
  assumes "wf_state (ns_chain (vn_store n))" "maybe_process_epoch_readonly h n = (Ok u, n')"
  shows "\<exists>store. n' = n\<lparr>vn_store := store\<rparr> \<and> wf_state (ns_chain store) \<and> chain_index (ns_chain store) = chain_index (ns_chain (vn_store n))"
proof -
  obtain r store where epoch: "process_epoch_transition (vn_config n) h (vn_store n) = (r, store)"
    by (cases "process_epoch_transition (vn_config n) h (vn_store n)")
  have "wf_state (ns_chain store)" "chain_index (ns_chain store) = chain_index (ns_chain (vn_store n))"
    using process_epoch_frame [OF assms(1), of "vn_config n" h] unfolding epoch by simp_all
  with assms epoch show ?thesis
    by (cases r) (auto simp: maybe_process_epoch_readonly_def split: if_splits intro: exI [of _ "vn_store n"])
qed

text \<open>A block that extends the tip, applied to a store whose index is that of the node.\<close>

lemma committed_chain:
  assumes ok: "node_ok nx config n" and room: "node_height n \<noteq> - 1"
    and tip: "extends_tip (nx_crypto nx) config (node_height n + 1) (node_latest_hash n) block"
    and s: "wf_state (ns_chain store)" "chain_index (ns_chain store) = chain_index (ns_chain (vn_store n))"
    and s': "chain_index s' = chain_index (ns_chain (apply_block block receipts store))"
  shows "chain_linked (nx_crypto nx) config s'" "get_chain_height s' = node_height n + 1"
proof -
  have linked: "chain_linked (nx_crypto nx) config (ns_chain store)"
    using ok chain_linked_frame [OF s(2)] by (simp add: node_ok_def)
  have ext: "extends_tip (nx_crypto nx) config (get_chain_height (ns_chain store) + 1) (get_latest_hash (ns_chain store)) block"
    using tip by (simp add: chain_index_views [OF s(2)] node_height_def node_latest_hash_def)
  have below: "get_chain_height (ns_chain store) \<noteq> - 1"
    using room by (simp add: chain_index_views [OF s(2)] node_height_def)
  note new = chain_linked_extend [OF linked ext s' [unfolded apply_block_effect(2) [OF s(1)]] below]
  show "chain_linked (nx_crypto nx) config s'" by (fact new(1))
  show "get_chain_height s' = node_height n + 1"
    unfolding new(2) node_height_def chain_index_views(1) [OF s(2)] ..
qed

lemma handle_commit_ok:
  assumes ok: "node_ok nx config n" and room: "node_height n \<noteq> - 1"
    and m: "vn_consensus n = Some m" and run: "handle_commit nx (csm_height m) h pf n = (Ok u, n')"
  shows "node_ok nx config n'"
proof (cases "csm_proposal m")
  case None
  with m run ok show ?thesis by (simp add: handle_commit_def)
next
  case (Some p)
  let ?block = "pr_block p" and ?height = "csm_height m"
  have cfg: "vn_config n = config" and height: "?height = node_height n + 1" and wf: "wf_state (ns_chain (vn_store n))"
    using ok m by (simp_all add: node_ok_def)
  show ?thesis
  proof (cases "validate_block_light (nx_crypto nx) config ?block ?height (node_latest_hash n)")
    case (Ok w)
    obtain receipts s where exec: "execute_block (nx_ext nx) config (blk_transactions ?block) ?height
        (bh_proposer (blk_header ?block)) (ns_chain (vn_store n)) = (receipts, s)"
      by (metis surj_pair)
    have s: "wf_state s" "chain_index s = chain_index (ns_chain (vn_store n))"
      using execute_block_wf [OF wf, of "nx_ext nx" config "blk_transactions ?block" ?height]
        execute_block_index [OF wf, of "nx_ext nx" config "blk_transactions ?block" ?height] exec by (metis snd_conv)+
    define store where "store = apply_block ?block receipts (vn_store n\<lparr>ns_chain := s\<rparr>)"
    define s1 where "s1 = apply_block_reward config (bh_proposer (blk_header ?block)) (ns_chain store)"
    define n1 where "n1 = publish_block_events nx ?block receipts (prune_pool ?block (n\<lparr>vn_store := store\<lparr>ns_chain := s1\<rparr>\<rparr>))"
    have s1: "wf_state s1" "chain_index s1 = chain_index (ns_chain store)"
      using apply_block_effect(1) [of "vn_store n\<lparr>ns_chain := s\<rparr>" ?block receipts] s(1)
      by (simp_all add: s1_def store_def apply_block_reward_wf apply_block_reward_index)
    have n1: "ns_chain (vn_store n1) = s1" "vn_config n1 = config" "vn_mempool n1 = remove_batch (vn_mempool n) (map stx_tx_hash (blk_transactions ?block))"
      using cfg by (simp_all add: n1_def publish_block_events_def prune_pool_def)
    obtain n2 where n2: "maybe_process_epoch ?height n1 = (Ok (), n2)"
      "n' = n2\<lparr>vn_consensus := map_option (advance_height (?height + 1)) (vn_consensus n2)\<rparr>"
      using run m Some Ok exec cfg
      by (auto simp: handle_commit_def Let_def store_def s1_def n1_def split: result.splits prod.splits)
    have wf1: "wf_state (ns_chain (vn_store n1))" using s1(1) n1(1) by simp
    note f = maybe_epoch_frame [OF wf1 n2(1)]
    have "chain_index (ns_chain (vn_store n2)) = chain_index (ns_chain store)"
      using f(2) s1(2) n1(1) by simp
    moreover have "extends_tip (nx_crypto nx) config (node_height n + 1) (node_latest_hash n) ?block"
      using Ok unfolding validate_light_iff height .
    ultimately have "chain_linked (nx_crypto nx) config (ns_chain (vn_store n2))" "get_chain_height (ns_chain (vn_store n2)) = ?height"
      using committed_chain [OF ok room, of ?block "vn_store n\<lparr>ns_chain := s\<rparr>" _ receipts] s height unfolding store_def by simp_all
    then show ?thesis
      using n2(2) f n1(2,3) ok by (auto simp: node_ok_def node_height_def remove_batch_ok machine_ok_def advance_height_def split: option.split)
  qed (use m Some run ok cfg in \<open>auto simp: handle_commit_def Let_def\<close>)
qed

subsection \<open>Every handler keeps the invariant\<close>

lemma send_precommit_ok:
  assumes ok: "node_ok nx config n" and room: "node_height n \<noteq> - 1" and run: "send_precommit nx v n = (Ok u, n')"
  shows "node_ok nx config n'"
proof -
  obtain r n1 where f: "feed (on_precommit v) (broadcast_vote v n) = (r, n1)"
    by (metis surj_pair)
  have n1: "node_ok nx config n1" "node_height n1 = node_height (broadcast_vote v n)"
    using feed_ok [OF _ f, of nx config] ok by (simp_all add: on_precommit_ok machine_heights)
  then have room1: "node_height n1 \<noteq> - 1" using room by (simp add: node_height_def)
  show ?thesis
  proof (cases "\<exists>h bh pf. r = Some (Ok (Some (CommitBlock h bh pf)))")
    case True
    then obtain h bh pf where r: "r = Some (Ok (Some (CommitBlock h bh pf)))" by blast
    then obtain m where "vn_consensus n1 = Some m" "h = csm_height m"
      using f machine_heights(3,4) [where v = v] by (auto elim!: feed_result simp: fitting_def) (metis action_fits.simps(1) option.case(2) result.case(1))
    with run f r handle_commit_ok [OF n1(1) room1] show ?thesis by (simp add: send_precommit_def)
  next
    case False
    with run f n1 show ?thesis
      by (auto simp: send_precommit_def split: option.splits result.splits ConsensusAction.splits)
  qed
qed

lemma send_prevote_ok:
  assumes ok: "node_ok nx config n" and room: "node_height n \<noteq> - 1" and run: "send_prevote nx v n = (Ok u, n')"
  shows "node_ok nx config n'"
proof -
  obtain r n1 where f: "feed (on_prevote v) (broadcast_vote v n) = (r, n1)"
    by (metis surj_pair)
  have n1: "node_ok nx config n1" "node_height n1 = node_height (broadcast_vote v n)"
    using feed_ok [OF _ f, of nx config] ok by (simp_all add: on_prevote_ok machine_heights)
  then have "node_height n1 \<noteq> - 1" using room by (simp add: node_height_def)
  with run f n1 send_precommit_ok [OF n1(1)] show ?thesis
    by (auto simp: send_prevote_def split: option.splits result.splits ConsensusAction.splits)
qed

lemma handle_action_ok:
  assumes ok: "node_ok nx config n" and room: "node_height n \<noteq> - 1"
    and "\<forall>m. vn_consensus n = Some m \<longrightarrow> action_fits (csm_height m) a"
    and run: "handle_consensus_action nx a n = (Ok u, n')"
  shows "node_ok nx config n'"
proof (cases a)
  case (CommitBlock h bh pf)
  then obtain m where "vn_consensus n = Some m" "h = csm_height m"
    using assms(3) run by (cases "vn_consensus n") (simp_all add: handle_commit_def)
  with CommitBlock run handle_commit_ok [OF ok room] show ?thesis by simp
qed (use ok run send_precommit_ok [OF ok room] send_prevote_ok [OF ok room] in auto)

lemma submit_proposal_ok:
  assumes ok: "node_ok nx config n" and room: "node_height n \<noteq> - 1" and run: "submit_proposal nx p n = (Ok u, n')"
  shows "node_ok nx config n'"
proof -
  obtain r n1 where f: "feed (on_proposal p) n = (r, n1)"
    by (metis surj_pair)
  have n1: "node_ok nx config n1" "node_height n1 = node_height n"
    using feed_ok [OF ok f] by (simp_all add: on_proposal_ok machine_heights)
  have fits: "action_fits (csm_height m) a" if "r = Some (Ok a)" "vn_consensus n1 = Some m" for a m
    using f that machine_heights(5,6) [where p = p] by (auto elim!: feed_result)
  have acted: "node_ok nx config n2" if "r = Some (Ok a)" "handle_consensus_action nx a n1 = (Ok (), n2)" for a n2
    using handle_action_ok [OF n1(1)] fits that room n1(2) by metis
  show ?thesis
    using run f n1 acted
    by (auto simp: submit_proposal_def split: option.splits result.splits prod.splits)
qed

text \<open>Execution without a commit.\<close>

lemma node_ok_store:
  assumes "node_ok nx config n" "wf_state (ns_chain store)" "chain_index (ns_chain store) = chain_index (ns_chain (vn_store n))"
  shows "node_ok nx config (n\<lparr>vn_store := store\<rparr>)"
  using assms(1,2)
  by (cases "vn_consensus n") (simp_all add: node_ok_def node_height_def chain_linked_frame [OF assms(3)] chain_index_views(1) [OF assms(3)])

lemma next_block_ok:
  assumes ok: "node_ok nx config n" and seq: "\<not> cfg_parallel_execution config"
    and run: "next_block nx now n = (r, n')"
  shows "node_ok nx config n' \<and> chain_index (ns_chain (vn_store n')) = chain_index (ns_chain (vn_store n)) \<and>
    (\<forall>block receipts. r = Ok (block, receipts) \<longrightarrow>
       extends_tip (nx_crypto nx) config (node_height n + 1) (node_latest_hash n) block)"
proof (cases "state_root_of nx (vn_store n)")
  case (Ok root)
  let ?txs = "get_pending_for_block (vn_mempool n) (unat (cfg_max_block_transactions config))"
  have cfg: "vn_config n = config" and wf: "wf_state (ns_chain (vn_store n))"
    using ok by (simp_all add: node_ok_def)
  obtain store where store: "produce_block nx config (vn_keypair n) now (node_height n + 1) (node_latest_hash n) root (vn_mempool n)
      (cfg_chain_id config) (vn_store n) = (r, store)" "n' = n\<lparr>vn_store := store\<rparr>"
    using run Ok cfg by (auto simp: next_block_def split: prod.splits)
  then have chain: "ns_chain store = snd (execute_block (nx_ext nx) config ?txs (node_height n + 1) (Keypair_address (nx_crypto nx) (vn_keypair n))
      (ns_chain (vn_store n)))"
    using seq by (auto simp: produce_block_def propose_block_def hash_block_header_def Let_def case_prod_unfold)
  have wf': "wf_state (ns_chain store)" and index: "chain_index (ns_chain store) = chain_index (ns_chain (vn_store n))"
    unfolding chain by (simp_all add: execute_block_wf execute_block_index wf)
  show ?thesis
    using store index produced_extends node_ok_store [OF ok wf' index] by auto
qed (use ok run in \<open>auto simp: next_block_def\<close>)

lemma produce_and_apply_ok:
  assumes ok: "node_ok nx config n" and seq: "\<not> cfg_parallel_execution config" and room: "node_height n \<noteq> - 1"
    and alone: "vn_consensus n = None" and run: "produce_and_apply_block nx now n = (r, n')" "r \<noteq> Panic"
  shows "node_ok nx config n'"
proof -
  obtain r1 n1 where nb: "next_block nx now n = (r1, n1)"
    by (metis surj_pair)
  note b = next_block_ok [OF ok seq nb]
  show ?thesis
  proof (cases r1)
    case (Ok br)
    obtain block receipts where br: "br = (block, receipts)" by (cases br)
    define n2 where "n2 = publish_block_events nx block receipts (prune_pool block (n1\<lparr>vn_store := apply_block block receipts (vn_store n1)\<rparr>))"
    have epoch: "maybe_process_epoch_readonly (node_height n + 1) n2 = (r, n')"
      using run(1) nb Ok br by (simp add: produce_and_apply_block_def n2_def)
    have n1: "wf_state (ns_chain (vn_store n1))" "vn_consensus n1 = None"
      using b alone nb by (auto simp: node_ok_def next_block_def split: result.splits prod.splits)
    have n2: "wf_state (ns_chain (vn_store n2))" "vn_store n2 = apply_block block receipts (vn_store n1)" "vn_config n2 = config"
      "vn_consensus n2 = None" "pool_ok (nx_crypto nx) (vn_mempool n2)" "mp_config (vn_mempool n2) = MempoolConfig_default"
      using b n1 apply_block_effect(1) [OF n1(1), of block receipts]
      by (simp_all add: n2_def publish_block_events_def prune_pool_def node_ok_def remove_batch_ok)
    obtain u where "r = Ok u"
      using epoch run(2) by (auto simp: maybe_process_epoch_readonly_def split: if_splits result.splits prod.splits)
    then obtain store where store: "n' = n2\<lparr>vn_store := store\<rparr>" "wf_state (ns_chain store)"
      "chain_index (ns_chain store) = chain_index (ns_chain (vn_store n2))"
      using maybe_epoch_readonly_frame [OF n2(1)] epoch by blast
    have "chain_linked (nx_crypto nx) config (ns_chain store)"
      using committed_chain(1) [OF ok room _ n1(1)] b Ok br store(3) unfolding n2(2) by blast
    with store n2 show ?thesis by (simp add: node_ok_def)
  qed (use b nb run in \<open>auto simp: produce_and_apply_block_def\<close>)
qed

lemma validate_leaves:
  "snd (validate_proposed_block nx config block h parent store) \<in> {store, executed nx config block store}"
  by (simp add: validate_proposed_block_def validate_execution_and_state_root_def executed_def Executor_new_def Let_def case_prod_unfold
      split: result.split)

lemma executed_frame:
  "wf_state (ns_chain store) \<Longrightarrow> wf_state (ns_chain (executed nx config block store)) \<and>
     chain_index (ns_chain (executed nx config block store)) = chain_index (ns_chain store)"
  by (simp add: executed_def execute_block_wf execute_block_index)

lemma on_received_block_ok:
  assumes ok: "node_ok nx config n" and room: "node_height n \<noteq> - 1"
    and run: "on_received_block nx block rnd proposer n = (Ok u, n')"
  shows "node_ok nx config n'"
proof -
  let ?p = "\<lparr>pr_height = block_height block, pr_round = rnd, pr_block = block, pr_proposer = proposer, pr_signature = 0\<rparr>"
  obtain r store where v: "validate_proposed_block nx (vn_config n) block (node_height n + 1) (node_latest_hash n) (vn_store n) = (r, store)"
    by (metis surj_pair)
  then have "store \<in> {vn_store n, executed nx (vn_config n) block (vn_store n)}"
    using validate_leaves by (metis snd_conv)
  moreover have "wf_state (ns_chain (vn_store n))"
    using ok by (simp add: node_ok_def)
  ultimately have store: "wf_state (ns_chain store)" "chain_index (ns_chain store) = chain_index (ns_chain (vn_store n))"
    using executed_frame by auto
  note ok' = node_ok_store [OF ok store]
  have height: "node_height (n\<lparr>vn_store := store\<rparr>) = node_height n"
    by (simp add: node_height_def chain_index_views(1) [OF store(2)])
  obtain s n1 where f: "feed (on_proposal ?p) (n\<lparr>vn_store := store\<rparr>) = (s, n1)"
    by (metis surj_pair)
  have n1: "node_ok nx config n1" "node_height n1 = node_height n"
    using feed_ok [OF ok' f] height by (simp_all add: on_proposal_ok machine_heights)
  have fits: "action_fits (csm_height m) a" if "s = Some (Ok a)" "vn_consensus n1 = Some m" for a m
    using f that machine_heights(5,6) [where p = ?p] by (auto elim!: feed_result)
  have acted: "node_ok nx config n2" if "s = Some (Ok a)" "handle_consensus_action nx a n1 = (Ok (), n2)" for a n2
    using handle_action_ok [OF n1(1)] fits that room n1(2) by metis
  show ?thesis
    using run ok ok' v f n1 acted
    by (auto simp: on_received_block_def split: if_splits option.splits result.splits prod.splits)
qed

lemma on_consensus_message_ok:
  assumes ok: "node_ok nx config n" and room: "node_height n \<noteq> - 1"
    and run: "on_consensus_message nx msg n = (Ok u, n')"
  shows "node_ok nx config n'"
proof -
  define f where "f = (case vt_type (message_vote msg) of VT_Prevote \<Rightarrow> on_prevote (message_vote msg)
    | VT_Precommit \<Rightarrow> on_precommit (message_vote msg))"
  have f: "machine_ok m \<Longrightarrow> machine_ok (snd (f m))" "csm_height (snd (f m)) = csm_height m" "fitting (csm_height m) (fst (f m))" for m
    by (simp_all add: f_def on_prevote_ok on_precommit_ok machine_heights split: VoteType.split)
  obtain r n1 where fd: "feed f n = (r, n1)"
    by (metis surj_pair)
  have n1: "node_ok nx config n1" "node_height n1 = node_height n"
    using feed_ok [OF ok fd] f by simp_all
  have fits: "action_fits (csm_height m) a" if r: "r = Some (Ok (Some a))" and m: "vn_consensus n1 = Some m" for a m
  proof -
    obtain m0 where "Ok (Some a) = fst (f m0)" "m = snd (f m0)"
      using fd r m by (auto elim!: feed_result)
    with f(2,3) [of m0] show ?thesis by (metis fittingD)
  qed
  have acted: "node_ok nx config n2" if "r = Some (Ok (Some a))" "handle_consensus_action nx a n1 = (Ok (), n2)" for a n2
    using handle_action_ok [OF n1(1)] fits that room n1(2) by metis
  have "(case feed f n of (Some (Ok action), n) \<Rightarrow> handle_optional_action nx action n
         | (Some Panic, n) \<Rightarrow> (Panic, n) | (_, n) \<Rightarrow> (Ok (), n)) = (Ok (), n')"
    using run by (simp add: on_consensus_message_def f_def Let_def)
  with fd n1 acted show ?thesis
    by (auto simp: handle_optional_action_def split: option.splits result.splits)
qed

lemma on_consensus_timeout_ok:
  assumes ok: "node_ok nx config n" and room: "node_height n \<noteq> - 1"
    and run: "on_consensus_timeout nx n = (Ok u, n')"
  shows "node_ok nx config n'"
proof (cases "vn_consensus n")
  case (Some m)
  obtain a m' where t: "on_timeout m = (a, m')" by (metis surj_pair)
  then have m': "machine_ok m'" "csm_height m' = csm_height m" "action_fits (csm_height m) a"
    using ok Some on_timeout_ok [of m] machine_heights(7,8) [of m] by (simp_all add: node_ok_def)
  let ?n = "n\<lparr>vn_consensus := Some m'\<rparr>"
  have "node_ok nx config ?n" "node_height ?n \<noteq> - 1"
    using ok room Some m' by (simp_all add: node_ok_def node_height_def)
  then show ?thesis
    using handle_action_ok [of nx config ?n a] run Some t m' by (simp add: on_consensus_timeout_def)
qed (use ok run in \<open>simp add: on_consensus_timeout_def\<close>)

lemma on_block_timer_ok:
  assumes ok: "node_ok nx config n" and seq: "\<not> cfg_parallel_execution config" and room: "node_height n \<noteq> - 1"
    and run: "on_block_timer_inner nx now n = (Ok u, n')"
  shows "node_ok nx config n'"
proof (cases "vn_consensus n")
  case None
  then show ?thesis
    using produce_and_apply_ok [OF ok seq room None] run
    by (auto simp: on_block_timer_inner_def split: result.splits prod.splits)
next
  case (Some c)
  then have "machine_ok c" "csm_height c = node_height n + 1"
    using ok by (simp_all add: node_ok_def)
  then have waiting: "node_ok nx config (n\<lparr>vn_consensus := Some (c\<lparr>csm_step := st\<rparr>)\<rparr>)" for st
    using ok by (simp add: node_ok_def node_height_def)
  have proposed: "node_ok nx config n1 \<and> node_height n1 = node_height n" if tp: "timer_proposal nx now c n = (r, n1)" for r n1
  proof (cases "csm_valid_proposal c")
    case None
    obtain r1 n2 where nb: "next_block nx now n = (r1, n2)" by (metis surj_pair)
    then have n1: "n1 = n2"
      using tp None by (auto simp: timer_proposal_def produce_proposal_def Let_def split: result.splits)
    have b: "node_ok nx config n2" "chain_index (ns_chain (vn_store n2)) = chain_index (ns_chain (vn_store n))"
      using next_block_ok [OF ok seq nb] by simp_all
    then show ?thesis
      unfolding n1 node_height_def chain_index_views(1) [OF b(2)] by simp
  qed (use tp ok in \<open>auto simp: timer_proposal_def\<close>)
  show ?thesis
  proof (cases "is_proposer c = Some True \<and> (csm_step c = NewRound \<or> csm_step c = Propose)")
    case True
    obtain r n1 where tp: "timer_proposal nx now c n = (r, n1)" by (metis surj_pair)
    have n1: "node_ok nx config n1" "node_height n1 \<noteq> - 1" using proposed [OF tp] room by simp_all
    show ?thesis
      using run Some True tp n1(1) submit_proposal_ok [OF n1]
      by (auto simp: on_block_timer_inner_def split: result.splits)
  next
    case False
    with run Some have "n' = n\<lparr>vn_consensus := Some (c\<lparr>csm_step := if csm_step c = NewRound then Propose else csm_step c\<rparr>)\<rparr>"
      by (auto simp: on_block_timer_inner_def split: option.splits if_splits)
    with waiting show ?thesis by simp
  qed
qed

lemma on_received_transaction_ok:
  "node_ok nx config n \<Longrightarrow> node_ok nx config (snd (on_received_transaction nx tx n))"
  using insert_ok [of "nx_crypto nx" "vn_mempool n" tx]
  by (auto simp: on_received_transaction_def node_ok_def node_height_def split: result.splits prod.splits option.splits)

lemma node_ok_peers [simp]: "node_ok nx config (n\<lparr>vn_peer_count := c\<rparr>) = node_ok nx config n"
  by (simp add: node_ok_def node_height_def cong: option.case_cong)

lemma run_step_ok:
  assumes ok: "node_ok nx config (rs_node r)" and seq: "\<not> cfg_parallel_execution config" and room: "node_height (rs_node r) \<noteq> - 1"
    and run: "run_step nx ev r = (Ok u, r')"
  shows "node_ok nx config (rs_node r')"
proof (cases ev)
  case (Block_tick now)
  then show ?thesis
    using run on_block_timer_ok [OF ok seq room] by (auto simp: with_timeout_def split: prod.splits)
next
  case Timeout_fired
  then show ?thesis
    using run ok on_consensus_timeout_ok [OF ok room] by (auto simp: with_timeout_def split: prod.splits if_splits)
next
  case (Network pe)
  have kept: "node_ok nx config n'" if on: "on_network nx pe (rs_node r) = (Ok (), n')" for n'
  proof (cases pe)
    case (TransactionReceived tx)
    then show ?thesis using on on_received_transaction_ok [OF ok, of tx] by simp
  qed (use on ok on_received_block_ok [OF ok room] on_consensus_message_ok [OF ok room] in auto)
  show ?thesis
  proof (cases "vn_network (rs_node r)")
    case True
    obtain res n' where on: "on_network nx pe (rs_node r) = (res, n')" by (metis surj_pair)
    with True Network run have "res = Ok ()" "rs_node r' = n'"
      by (auto simp: with_timeout_def)
    with kept on show ?thesis by simp
  qed (use Network run ok in auto)
qed

text \<open>Genesis puts the chain at height zero; on a store with blocks it leaves the chain alone.\<close>

lemma genesis_frames:
  "wf_state (ns_chain store) \<Longrightarrow> wf_state (ns_chain (snd (create_accounts hex gas store))) \<and>
     chain_index (ns_chain (snd (create_accounts hex gas store))) = chain_index (ns_chain store)"
  "wf_state (ns_chain store) \<Longrightarrow> wf_state (ns_chain (snd (create_validators hex gvs addrs store))) \<and>
     chain_index (ns_chain (snd (create_validators hex gvs addrs store))) = chain_index (ns_chain store)"
  "wf_state (ns_chain store) \<Longrightarrow> wf_state (ns_chain (snd (create_attestors hex gats store))) \<and>
     chain_index (ns_chain (snd (create_attestors hex gats store))) = chain_index (ns_chain store)"
  "wf_state (ns_chain store) \<Longrightarrow> wf_state (ns_chain (snd (backfill_validators hex gvs addrs store))) \<and>
     chain_index (ns_chain (snd (backfill_validators hex gvs addrs store))) = chain_index (ns_chain store)"
  subgoal by (induction hex gas store rule: create_accounts.induct) (simp_all add: wf_intros split: result.split)
  subgoal by (induction hex gvs addrs store rule: create_validators.induct)
    (auto simp: create_genesis_validator_def Let_def wf_intros split: result.split)
  subgoal by (induction hex gats store rule: create_attestors.induct)
    (auto simp: create_genesis_attestor_def Let_def wf_intros split: result.split)
  subgoal by (induction hex gvs addrs store rule: backfill_validators.induct) (simp_all split: result.split)
  done

lemma init_chain_ok:
  assumes "init_from_genesis hex config genesis store = (Ok u, store')" "wf_state (ns_chain store)"
    and "chain_linked cx cfg (ns_chain store)"
  shows "wf_state (ns_chain store') \<and> chain_linked cx cfg (ns_chain store')"
proof (cases "0 < get_chain_height (ns_chain store)")
  case True
  then have run: "backfill_from_genesis hex config genesis store = (Ok u, store')"
    using assms(1) by (simp add: init_from_genesis_def)
  have "wf_state (ns_chain store')" and index: "chain_index (ns_chain store') = chain_index (ns_chain store)"
    using run genesis_frames(4) [OF assms(2), of hex "gen_validators genesis" "[]"] assms(2)
    by (auto simp: backfill_from_genesis_def wf_intros split: if_splits result.splits prod.splits)
  with assms(3) show ?thesis by (simp add: chain_linked_frame [OF index])
next
  case False
  obtain r1 st1 where c1: "create_accounts hex (gen_accounts genesis) store = (r1, st1)" by (metis surj_pair)
  obtain r2 st2 where c2: "create_validators hex (gen_validators genesis) [] st1 = (r2, st2)" by (metis surj_pair)
  have wf2: "wf_state (ns_chain st2)"
    using genesis_frames(1,2) assms(2) c1 c2 by (metis snd_conv)
  have "get_chain_height (ns_chain store') = 0 \<and> get_latest_hash (ns_chain store') = ZERO \<and> wf_state (ns_chain store')"
  proof -
    obtain active where r2: "r1 = Ok ()" "r2 = Ok active"
      using assms(1) False c1 c2 by (auto simp: init_from_genesis_def split: result.splits)
    define st3 where "st3 = st2\<lparr>ns_chain := set_epoch_info (genesis_epoch config genesis active) (set_active_validator_set active (ns_chain st2))\<rparr>"
    obtain r4 st4 where c4: "create_attestors hex (gen_attestors genesis) st3 = (r4, st4)" by (metis surj_pair)
    have "wf_state (ns_chain st4)"
      using genesis_frames(3) [of st3 hex "gen_attestors genesis"] wf2 c4 by (simp add: st3_def wf_intros)
    moreover have "store' = st4\<lparr>ns_chain := set_supply_info (genesis_supply genesis) (set_latest_hash ZERO (set_chain_height 0 (ns_chain st4)))\<rparr>"
      using assms(1) False c1 c2 r2 c4 by (auto simp: init_from_genesis_def st3_def Let_def split: result.splits)
    ultimately show ?thesis
      by (simp add: wf_intros) (simp add: state_defs unwrap_or_def)
  qed
  then show ?thesis by (simp add: chain_linked_def tip_hash_def)
qed

text \<open>
  The nodes an operator can have: created on an empty store, or on the store another node has left behind; given
  an event bus, a network or a validator set; then driven by the events of the loop. The height stays below the
  largest 64-bit number.
\<close>

inductive reachable_node :: "node_externals \<Rightarrow> ChainConfig \<Rightarrow> ValidatorNode \<Rightarrow> bool" for nx config where
  created: "ValidatorNode_new hex empty_store genesis keypair config = Ok n \<Longrightarrow> reachable_node nx config n"
| restarted: "reachable_node nx config n \<Longrightarrow> ValidatorNode_new hex (vn_store n) genesis keypair config = Ok n' \<Longrightarrow>
    reachable_node nx config n'"
| subscribed: "reachable_node nx config n \<Longrightarrow> reachable_node nx config (set_event_bus n)"
| connected: "reachable_node nx config n \<Longrightarrow> reachable_node nx config (set_network n)"
| consenting: "reachable_node nx config n \<Longrightarrow> reachable_node nx config (init_consensus nx vs n)"
| stepped: "reachable_node nx config (rs_node r) \<Longrightarrow> node_height (rs_node r) \<noteq> - 1 \<Longrightarrow> run_step nx ev r = (Ok (), r') \<Longrightarrow>
    reachable_node nx config (rs_node r')"

lemma ValidatorNode_new_ok:
  assumes "ValidatorNode_new hex store genesis keypair config = Ok n" "wf_state (ns_chain store)"
    and "chain_linked (nx_crypto nx) config (ns_chain store)"
  shows "node_ok nx config n"
proof -
  obtain u where init: "init_from_genesis hex config genesis store = (Ok u, vn_store n)"
    and "vn_config n = config" "vn_mempool n = Mempool_new MempoolConfig_default" "vn_consensus n = None"
    using assms(1) by (auto simp: ValidatorNode_new_def split: result.splits prod.splits)
  then show ?thesis
    using init_chain_ok [OF init assms(2,3)] reachable_pool_ok [OF Polay_Mempool.created]
    by (simp add: node_ok_def)
qed

lemma reachable_node_ok:
  assumes "reachable_node nx config n" "\<not> cfg_parallel_execution config"
  shows "node_ok nx config n"
  using assms(1)
proof induction
  case (created hex genesis keypair n)
  have "wf_state (ns_chain empty_store)" "chain_linked (nx_crypto nx) config (ns_chain empty_store)"
    by (simp_all add: empty_store_def wf_empty_state)
      (simp add: chain_linked_def tip_hash_def empty_state_def get_chain_height_def get_latest_hash_def unwrap_or_def)
  with created show ?case by (rule ValidatorNode_new_ok)
next
  case (restarted n hex genesis keypair n')
  then have "wf_state (ns_chain (vn_store n))" "chain_linked (nx_crypto nx) config (ns_chain (vn_store n))"
    by (simp_all add: node_ok_def)
  with restarted.hyps(2) show ?case by (rule ValidatorNode_new_ok)
next
  case (stepped r ev r')
  then show ?case using run_step_ok assms(2) by blast
next
  case (consenting n vs)
  then show ?case
    by (simp add: node_ok_def init_consensus_def node_height_def machine_ok_def ConsensusStateMachine_new_def)
qed (simp_all add: node_ok_def set_event_bus_def set_network_def node_height_def cong: option.case_cong)

text \<open>
  C4: The stored chain of a node that executes sequentially is linked. After any events, each height from one to
  the height of the node holds a block of this chain identifier whose hash is that of its header, whose
  transaction root is that of its body, and whose parent is the block one below; the latest hash is the hash of
  the block at the top (zero on an empty chain).
\<close>

theorem stored_chain_linked:
  assumes "reachable_node nx config n" "\<not> cfg_parallel_execution config"
  shows "node_latest_hash n = tip_hash (ns_chain (vn_store n)) (node_height n) \<and>
    (\<forall>h. 0 < h \<and> h \<le> node_height n \<longrightarrow>
       (\<exists>b. get_block (ns_chain (vn_store n)) h = Some b \<and>
          extends_tip (nx_crypto nx) config h (tip_hash (ns_chain (vn_store n)) (h - 1)) b))"
  using reachable_node_ok [OF assms]
  by (simp add: node_ok_def chain_linked_def node_height_def node_latest_hash_def)

text \<open>
  C7: The parts of a node fit together in every reachable state: the records of the chain state are filed under
  their own keys and its indexes mirror them, the pool is consistent and within its limits, the votes of the
  consensus machine are filed under their height, round and voter, and the machine works on the block after
  the one at the top of the store.
\<close>

theorem node_well_formed:
  assumes "reachable_node nx config n" "\<not> cfg_parallel_execution config"
  shows "vn_config n = config \<and> wf_state (ns_chain (vn_store n)) \<and>
    pool_ok (nx_crypto nx) (vn_mempool n) \<and> mp_config (vn_mempool n) = MempoolConfig_default \<and>
    (\<forall>m. vn_consensus n = Some m \<longrightarrow> machine_ok m \<and> csm_height m = node_height n + 1)"
  using reachable_node_ok [OF assms] by (cases "vn_consensus n") (simp_all add: node_ok_def)

subsection \<open>Executions outside a commit\<close>

lemma validate_proposed_run:
  assumes "extends_tip (nx_crypto nx) config height parent block" "list_all (signed_for_block (nx_crypto nx)) (blk_transactions block)"
  shows "validate_proposed_block nx config block height parent store = validate_execution_and_state_root nx config block store"
proof -
  have "validate_block_light (nx_crypto nx) config block height parent = Ok ()"
    "validate_all_transactions (nx_crypto nx) 0 (blk_transactions block) = Ok ()"
    using assms by (simp_all add: validate_light_iff validate_transactions_iff)
  then show ?thesis
    unfolding validate_block_light_def validate_proposed_block_def first_failure_Ok
    by (simp add: validate_chain_id_def validate_height_def)
qed

text \<open>
  A proposal that fails validation at the state root has been executed all the same. The node ignores the
  block and votes for nothing, but its store is the one after the transactions of the block: balances, nonces
  and fees have moved although the height has not.
\<close>

theorem refused_proposal_was_executed:
  assumes "vn_consensus n \<noteq> None"
    and "extends_tip (nx_crypto nx) (vn_config n) (node_height n + 1) (node_latest_hash n) block"
    and "list_all (signed_for_block (nx_crypto nx)) (blk_transactions block)" "fee_split_ok (vn_config n)"
    and "state_root_of nx (executed nx (vn_config n) block (vn_store n)) = Ok root" "root \<noteq> bh_state_root (blk_header block)"
  shows "on_received_block nx block rnd proposer n = (Ok (), n\<lparr>vn_store := executed nx (vn_config n) block (vn_store n)\<rparr>)"
proof -
  have "validate_execution_and_state_root nx (vn_config n) block (vn_store n) =
      (Err (InvalidStateRoot (bh_state_root (blk_header block)) root), executed nx (vn_config n) block (vn_store n))"
    using Executor_new_ok [of "vn_config n"] assms(4-6)
    by (simp add: validate_execution_and_state_root_def executed_def Let_def case_prod_unfold)
  with validate_proposed_run [OF assms(2,3)] assms(1) show ?thesis
    by (auto simp: on_received_block_def)
qed

text \<open>A set of one validator, whose own votes are a quorum.\<close>

definition lone_set :: "address \<Rightarrow> u64 \<Rightarrow> ValidatorSet" where
  "lone_set a stake = \<lparr>vs_validators = [\<lparr>vw_address = a, vw_stake = stake\<rparr>], vs_total_stake = stake\<rparr>"

lemma lone_set_facts [simp]:
  "get_proposer (lone_set a stake) h r = Some \<lparr>vw_address = a, vw_stake = stake\<rparr>"
  "vs_contains (lone_set a stake) a" "get_stake (lone_set a stake) a = stake"
  "stake \<noteq> 0 \<Longrightarrow> quorum_threshold (lone_set a stake) \<le> stake"
proof -
  show "quorum_threshold (lone_set a stake) \<le> stake" if "stake \<noteq> 0"
    using that unat_gt_0 [of stake] unat_quorum_threshold [of "lone_set a stake"]
    by (simp add: word_le_nat_alt lone_set_def)
qed (simp_all add: lone_set_def get_proposer_def vs_contains_def get_stake_def)

lemma lone_round:
  assumes "stake \<noteq> 0" "block_hash (pr_block p) \<noteq> ZERO" "pr_height p = h" "pr_round p = 0" "pr_proposer p = a"
    and m: "m = ConsensusStateMachine_new h (lone_set a stake) a"
  obtains v1 v2 m1 m2 m3 pf where "on_proposal p m = (Ok (SendPrevote v1), m1)"
    "on_prevote v1 m1 = (Ok (Some (SendPrecommit v2)), m2)"
    "on_precommit v2 m2 = (Ok (Some (CommitBlock h (block_hash (pr_block p)) pf)), m3)" "csm_proposal m3 = Some p"
proof -
  let ?b = "block_hash (pr_block p)"
  define m1 where "m1 = m\<lparr>csm_proposal := Some p, csm_step := Prevote\<rparr>"
  define v1 where "v1 = own_vote m1 VT_Prevote ?b"
  have 1: "on_proposal p m = (Ok (SendPrevote v1), m1)"
    using assms(3-5) by (simp add: on_proposal_def m ConsensusStateMachine_new_def current_proposer_def Let_def m1_def v1_def)
  have quorum: "saturating_add 0 stake = stake"
    using unsigned_less [of stake, where ?'a = nat] by (simp add: saturating_add_def)
  obtain m2 where 2: "on_prevote v1 m1 = (Ok (Some (SendPrecommit (own_vote m1 VT_Precommit ?b))), m2)"
    and m2: "csm_height m2 = h" "csm_round m2 = 0" "csm_step m2 = Precommit" "csm_validator_set m2 = lone_set a stake"
      "csm_precommits m2 = fmempty" "csm_proposal m2 = Some p"
    using assms(1,2)
    by (simp add: on_prevote_def validate_vote_basics_def find_prevote_quorum_def v1_def m1_def m own_vote_def
        ConsensusStateMachine_new_def Let_def is_zero_def quorum)
  have "own_vote m1 VT_Precommit ?b = \<lparr>vt_height = h, vt_round = 0, vt_type = VT_Precommit, vt_block_hash = ?b, vt_voter = a, vt_signature = 0\<rparr>"
    by (simp add: own_vote_def m1_def m ConsensusStateMachine_new_def)
  with m2 assms(1,2) obtain pf m3 where "on_precommit (own_vote m1 VT_Precommit ?b) m2 = (Ok (Some (CommitBlock h ?b pf)), m3)"
      "csm_proposal m3 = Some p"
    by (simp add: on_precommit_def validate_vote_basics_def find_precommit_quorum_def Let_def is_zero_def quorum)
  with 1 2 that show thesis by blast
qed

text \<open>What a commit away from an epoch boundary does to the store.\<close>

definition committed_store :: "node_externals \<Rightarrow> ChainConfig \<Rightarrow> Block \<Rightarrow> node_store \<Rightarrow> node_store" where
  "committed_store nx config block store =
     (let rs = fst (execute_block (nx_ext nx) config (blk_transactions block) (bh_height (blk_header block))
            (bh_proposer (blk_header block)) (ns_chain store));
          store' = apply_block block rs (executed nx config block store)
      in store'\<lparr>ns_chain := apply_block_reward config (bh_proposer (blk_header block)) (ns_chain store')\<rparr>)"

lemma handle_commit_run:
  assumes "vn_consensus n = Some m" "csm_proposal m = Some p" "\<not> is_epoch_boundary (vn_config n) h"
    and tip: "extends_tip (nx_crypto nx) (vn_config n) h (node_latest_hash n) (pr_block p)"
  shows "\<exists>n'. handle_commit nx h bh pf n = (Ok (), n') \<and> vn_store n' = committed_store nx (vn_config n) (pr_block p) (vn_store n)"
proof -
  have "validate_block_light (nx_crypto nx) (vn_config n) (pr_block p) h (node_latest_hash n) = Ok ()"
    "bh_height (blk_header (pr_block p)) = h"
    using tip by (simp_all add: validate_light_iff) (simp add: extends_tip_def)
  with assms(1-3) show ?thesis
    by (simp add: handle_commit_def committed_store_def executed_def maybe_process_epoch_def publish_block_events_def prune_pool_def
        publish_def Let_def case_prod_unfold)
qed

lemma broadcast_frame [simp]:
  "vn_config (broadcast_vote v n) = vn_config n" "vn_config (broadcast_block b r a n) = vn_config n"
  "node_latest_hash (broadcast_vote v n) = node_latest_hash n"
  "node_latest_hash (n\<lparr>vn_consensus := c\<rparr>) = node_latest_hash n"
  by (simp_all add: broadcast_vote_def broadcast_block_def node_latest_hash_def)

text \<open>
  C31: A validator that is alone in its set, at the start of a height that is no epoch boundary, commits a block
  on the tick of the block timer, and every transaction of the block is executed twice: once on the live store when the block is produced, and again,
  on the state this leaves, when the block is committed.
\<close>

theorem lone_validator_executes_twice:
  assumes reach: "reachable_node nx config n" and seq: "\<not> cfg_parallel_execution config"
    and "\<not> is_epoch_boundary config (node_height n + 1)" "stake \<noteq> 0"
    and c: "vn_consensus n = Some (ConsensusStateMachine_new (node_height n + 1) (lone_set (node_address nx n) stake) (node_address nx n))"
    and block: "next_block nx now n = (Ok (block, receipts), n1)" "block_hash block \<noteq> ZERO"
  shows "\<exists>n'. on_block_timer_inner nx now n = (Ok (), n') \<and>
    vn_store n' = committed_store nx config block (executed nx config block (vn_store n))"
proof -
  let ?h = "node_height n + 1" and ?a = "node_address nx n"
  define p where "p = \<lparr>pr_height = ?h, pr_round = 0, pr_block = block, pr_proposer = ?a, pr_signature = 0\<rparr>"
  define m where "m = ConsensusStateMachine_new ?h (lone_set ?a stake) ?a"
  note ok = reachable_node_ok [OF reach seq]
  note nb = next_block_ok [OF ok seq block(1)]
  have cfg: "vn_config n = config" "vn_config n1 = config" using ok nb by (simp_all add: node_ok_def)
  have n1: "vn_consensus n1 = Some m" "node_address nx n1 = ?a" "vn_store n1 = executed nx config block (vn_store n)"
    using block(1) c cfg seq produced_block(5)
    by (auto simp: next_block_def m_def node_address_def split: result.splits prod.splits)
  have index: "chain_index (ns_chain (vn_store n1)) = chain_index (ns_chain (vn_store n))" using nb by simp
  have latest: "node_latest_hash n1 = node_latest_hash n"
    by (simp add: node_latest_hash_def chain_index_views(2) [OF index])
  have p: "block_hash (pr_block p) \<noteq> ZERO" "pr_height p = ?h" "pr_round p = 0" "pr_proposer p = ?a"
    using block(2) by (simp_all add: p_def)
  obtain v1 v2 m1 m2 m3 pf where lone: "on_proposal p m = (Ok (SendPrevote v1), m1)"
    "on_prevote v1 m1 = (Ok (Some (SendPrecommit v2)), m2)"
    "on_precommit v2 m2 = (Ok (Some (CommitBlock ?h (block_hash (pr_block p)) pf)), m3)" "csm_proposal m3 = Some p"
    by (rule lone_round [OF assms(4) p m_def])
  define n2 where "n2 = (broadcast_vote v2 ((broadcast_vote v1 (n1\<lparr>vn_consensus := Some m1\<rparr>))\<lparr>vn_consensus := Some m2\<rparr>))\<lparr>vn_consensus := Some m3\<rparr>"
  have n2: "vn_consensus n2 = Some m3" "vn_store n2 = vn_store n1" "vn_config n2 = config" "node_latest_hash n2 = node_latest_hash n"
    using cfg latest by (simp_all add: n2_def)
  have "extends_tip (nx_crypto nx) (vn_config n2) ?h (node_latest_hash n2) (pr_block p)"
    using nb by (simp add: n2 p_def)
  then obtain n3 where n3: "handle_commit nx ?h (block_hash (pr_block p)) pf n2 = (Ok (), n3)"
    "vn_store n3 = committed_store nx config block (executed nx config block (vn_store n))"
    using handle_commit_run [OF n2(1) lone(4), of ?h nx] assms(3) n2 n1(3) by (auto simp: p_def)
  have "submit_proposal nx p n1 = (Ok (), broadcast_block block 0 ?a n3)"
    using lone n3(1) n1(1)
    by (simp add: submit_proposal_def feed_def send_prevote_def send_precommit_def n2_def) (simp add: p_def)
  moreover have "timer_proposal nx now m n = (Ok (p, \<lparr>vt_height = ?h, vt_round = 0, vt_type = VT_Prevote, vt_block_hash = block_hash block,
      vt_voter = ?a, vt_signature = 0\<rparr>), n1)"
    using block(1) c n1(2) by (simp add: timer_proposal_def produce_proposal_def m_def ConsensusStateMachine_new_def p_def Let_def)
  ultimately show ?thesis
    using c n3(2)
    by (simp add: on_block_timer_inner_def is_proposer_def current_proposer_def flip: m_def)
       (simp add: m_def ConsensusStateMachine_new_def)
qed

subsection \<open>Examples\<close>

text \<open>A node on the devnet with one genesis validator, after one tick of the block timer.\<close>

lemma lone_tick:
  assumes ok: "node_ok nx config n" and seq: "\<not> cfg_parallel_execution config" and room: "node_height n \<noteq> - 1"
    and "vn_consensus n = None" "state_root_of nx (vn_store n) = Ok root" "\<not> is_epoch_boundary config (node_height n + 1)"
  shows "\<exists>n'. on_block_timer_inner nx now n = (Ok (), n') \<and> node_height n' = node_height n + 1"
proof -
  obtain r n1 where nb: "next_block nx now n = (r, n1)" by (metis surj_pair)
  note b = next_block_ok [OF ok seq nb]
  have cfg: "vn_config n = config" "vn_config n1 = config" using ok b by (simp_all add: node_ok_def)
  obtain block receipts where r: "r = Ok (block, receipts)"
    using nb assms(5) by (auto simp: next_block_def produce_block_def propose_block_def hash_block_header_def Let_def case_prod_unfold split: prod.splits)
  have wf: "wf_state (ns_chain (vn_store n1))" using b by (simp add: node_ok_def)
  have "get_chain_height (ns_chain (apply_block block receipts (vn_store n1))) = node_height n + 1"
    using committed_chain(2) [OF ok room _ wf] b r by blast
  then show ?thesis
    using assms(4,6) nb r cfg
    by (simp add: on_block_timer_inner_def produce_and_apply_block_def maybe_process_epoch_readonly_def publish_block_events_def
        prune_pool_def node_height_def)
qed

lemma length_root: "\<exists>root. state_root_of length_externals store = Ok root"
  by (simp add: state_root_of_def length_externals_def compute_state_root_def STATE_PREFIXES_def memory_store_def
      memory_prefix_scan_def)

lemma example_node:
  "\<exists>n. reachable_node length_externals devnet n \<and> node_height n = 0 \<and> vn_consensus n = None"
proof -
  have "get_chain_height (ns_chain empty_store) = 0"
    by (simp add: empty_store_def empty_state_def state_defs)
  then obtain store where init: "init_from_genesis letter_hex devnet small_genesis empty_store = (Ok (), store)" "get_chain_height (ns_chain store) = 0"
    by (simp add: init_from_genesis_def small_genesis_def letter_addresses create_genesis_validator_def Let_def)
       (simp add: state_defs unwrap_or_def)
  have "Executor_new devnet = Ok devnet"
    by (simp add: Executor_new_ok fee_split_ok_def devnet_def ChainConfig_default_def FeeDistribution_default_def)
  with init obtain n where "ValidatorNode_new letter_hex empty_store small_genesis [] devnet = Ok n" "vn_store n = store" "vn_consensus n = None"
    by (simp add: ValidatorNode_new_def)
  with init(2) created show ?thesis by (metis node_height_def)
qed

lemma example_tick: "\<exists>n. reachable_node length_externals devnet n \<and> node_height n = 1"
proof -
  obtain n where n: "reachable_node length_externals devnet n" "node_height n = 0" "vn_consensus n = None"
    using example_node by blast
  have seq: "\<not> cfg_parallel_execution devnet" and len: "\<not> is_epoch_boundary devnet 1"
    by (simp_all add: devnet_def ChainConfig_default_def is_epoch_boundary_def)
  obtain n' where "on_block_timer_inner length_externals 0 n = (Ok (), n')" "node_height n' = 1"
    using lone_tick [OF reachable_node_ok [OF n(1) seq] seq] n(2,3) length_root len by fastforce
  with stepped [of length_externals devnet "\<lparr>rs_node = n, rs_timeout = None\<rparr>" "Block_tick 0"] n show ?thesis
    by (auto simp: with_timeout_def)
qed

theorem stored_chain_linked_witness:
  "\<exists>n b. reachable_node length_externals devnet n \<and> node_height n = 1 \<and> get_block (ns_chain (vn_store n)) 1 = Some b \<and>
     bh_parent_hash (blk_header b) = ZERO"
proof -
  obtain n where n: "reachable_node length_externals devnet n" "node_height n = 1" using example_tick by blast
  moreover have "\<not> cfg_parallel_execution devnet" by (simp add: devnet_def ChainConfig_default_def)
  ultimately have "\<forall>h. 0 < h \<and> h \<le> 1 \<longrightarrow> (\<exists>b. get_block (ns_chain (vn_store n)) h = Some b \<and>
      extends_tip (nx_crypto length_externals) devnet h (tip_hash (ns_chain (vn_store n)) (h - 1)) b)"
    using stored_chain_linked [of length_externals devnet n] by simp
  from spec [OF this, of 1] n show ?thesis by (auto simp: extends_tip_def tip_hash_def)
qed

theorem node_well_formed_witness:
  "\<exists>n. reachable_node length_externals devnet n \<and> node_height n = 1 \<and> wf_state (ns_chain (vn_store n)) \<and>
     pool_ok (nx_crypto length_externals) (vn_mempool n)"
proof -
  obtain n where n: "reachable_node length_externals devnet n" "node_height n = 1" using example_tick by blast
  moreover have "\<not> cfg_parallel_execution devnet" by (simp add: devnet_def ChainConfig_default_def)
  ultimately show ?thesis using node_well_formed [of length_externals devnet n] by blast
qed

theorem lone_validator_executes_twice_witness:
  "\<exists>n n' block. node_height n = 0 \<and> on_block_timer_inner length_externals 0 n = (Ok (), n') \<and>
     vn_store n' = committed_store length_externals devnet block (executed length_externals devnet block (vn_store n))"
proof -
  obtain n0 where n0: "reachable_node length_externals devnet n0" "node_height n0 = 0" using example_node by blast
  let ?n = "init_consensus length_externals (lone_set (node_address length_externals n0) 10) n0"
  have n: "reachable_node length_externals devnet ?n" "node_height ?n = 0"
    using consenting [OF n0(1)] n0(2) by (auto simp: init_consensus_def node_height_def)
  obtain root where root: "state_root_of length_externals (vn_store ?n) = Ok root" using length_root by blast
  obtain block receipts n1 where nb: "next_block length_externals 0 ?n = (Ok (block, receipts), n1)"
    using root by (auto simp: next_block_def produce_block_def propose_block_def hash_block_header_def Let_def case_prod_unfold split: prod.splits)
  have seq: "\<not> cfg_parallel_execution devnet" and len: "\<not> is_epoch_boundary devnet 1"
    by (simp_all add: devnet_def ChainConfig_default_def is_epoch_boundary_def)
  have "extends_tip (nx_crypto length_externals) devnet 1 (node_latest_hash ?n) block"
    using next_block_ok [OF reachable_node_ok [OF n(1) seq] seq nb] n(2) by simp
  then have "block_hash block \<noteq> ZERO"
    by (simp add: extends_tip_def block_hash_def length_externals_def length_crypto_def hash_input_bytes_def DOMAIN_BLOCK_def
        str_bytes_def ZERO_def)
  then have "\<exists>n'. on_block_timer_inner length_externals 0 ?n = (Ok (), n') \<and>
      vn_store n' = committed_store length_externals devnet block (executed length_externals devnet block (vn_store ?n))"
    by (intro lone_validator_executes_twice [OF n(1) seq _ _ _ nb, of 10])
       (use len n0(2) in \<open>simp_all add: init_consensus_def node_height_def node_address_def\<close>)
  with n(2) show ?thesis by blast
qed

text \<open>A proposal without transactions, with a state root that the validator does not compute.\<close>

theorem refused_proposal_was_executed_witness:
  "\<exists>n block. on_received_block length_externals block 0 0 n = (Ok (), n\<lparr>vn_store := executed length_externals devnet block (vn_store n)\<rparr>) \<and>
     blk_transactions block = [] \<and> vn_consensus n \<noteq> None"
proof -
  obtain n0 where n0: "reachable_node length_externals devnet n0" "node_height n0 = 0" using example_node by blast
  let ?n = "init_consensus length_externals one_validator n0"
  have seq: "\<not> cfg_parallel_execution devnet"
    by (simp add: devnet_def ChainConfig_default_def)
  have cfg: "vn_config ?n = devnet"
    using reachable_node_ok [OF n0(1) seq] by (simp add: node_ok_def init_consensus_def)
  have same: "state_root_of length_externals s = state_root_of length_externals s'" for s s'
    by (simp add: state_root_of_def length_externals_def)
  obtain root where root: "state_root_of length_externals s = Ok root" for s
    using length_root same by metis
  define block where "block = \<lparr>blk_header = \<lparr>bh_height = node_height ?n + 1, bh_timestamp = 0, bh_parent_hash = node_latest_hash ?n,
     bh_state_root = root + 1, bh_transactions_root = merkle_root (cx_sha256 length_crypto) [], bh_proposer = 0,
     bh_chain_id = cfg_chain_id devnet, bh_hash = cx_sha256 length_crypto DOMAIN_BLOCK\<rparr>, blk_transactions = []\<rparr>"
  have "on_received_block length_externals block 0 0 ?n =
      (Ok (), ?n\<lparr>vn_store := executed length_externals (vn_config ?n) block (vn_store ?n)\<rparr>)"
    by (rule refused_proposal_was_executed [OF _ _ _ _ root])
       (simp_all add: cfg, simp_all add: block_def extends_tip_def init_consensus_def length_externals_def length_crypto_def
         hash_input_bytes_def fee_split_ok_def devnet_def ChainConfig_default_def FeeDistribution_default_def)
  moreover have "blk_transactions block = []" "vn_consensus ?n \<noteq> None"
    by (simp_all add: block_def init_consensus_def)
  ultimately show ?thesis unfolding cfg by blast
qed

end
