(* ===== verification/Polay_Scheduler.thy ===== *)
theory Polay_Scheduler
  imports Polay_Keys "HOL-Library.Multiset"
begin

section \<open>Parallel scheduling (\<^verbatim>\<open>polay-execution/src/{access_set,scheduler}.rs\<close>)\<close>

text \<open>
  Predicted access sets, the conflict test and the greedy first-fit scheduler. A hash set is a finite
  set of keys. The schedule is a partition of the block into conflict-free batches, in block order
  inside each batch; across batches the block order of conflicting transactions is not kept.
\<close>

subsection \<open>Access sets\<close>

record AccessSet =
  as_reads :: "u8 list fset"
  as_writes :: "u8 list fset"

definition AccessSet_new :: AccessSet where
  "AccessSet_new = \<lparr>as_reads = {||}, as_writes = {||}\<rparr>"

definition conflicts_with :: "AccessSet \<Rightarrow> AccessSet \<Rightarrow> bool" where
  "conflicts_with a b \<longleftrightarrow>
     fBex (as_writes a) (\<lambda>k. k |\<in>| as_writes b) \<or>
     fBex (as_reads a) (\<lambda>k. k |\<in>| as_writes b) \<or>
     fBex (as_writes a) (\<lambda>k. k |\<in>| as_reads b)"

text \<open>The keys that an action reads and those that it writes, beyond the accounts of its payers.\<close>

fun action_access :: "(u8 list \<Rightarrow> hash) \<Rightarrow> address \<Rightarrow> TransactionAction \<Rightarrow> u8 list list \<times> u8 list list" where
  "action_access _ _ (Transfer to _) =
     ([account_key to, balance_key to], [account_key to, balance_key to])"
| "action_access _ _ (CreateAssetClass _ _ _ _ _) =
     ([], [])"
| "action_access _ _ (MintAsset asset_class_id to _ _) =
     ([asset_class_key asset_class_id, asset_balance_key asset_class_id to],
      [asset_class_key asset_class_id, asset_balance_key asset_class_id to])"
| "action_access _ sgnr (TransferAsset asset_class_id to _) =
     ([asset_balance_key asset_class_id sgnr, asset_balance_key asset_class_id to],
      [asset_balance_key asset_class_id sgnr, asset_balance_key asset_class_id to])"
| "action_access _ sgnr (BurnAsset asset_class_id _) =
     ([asset_class_key asset_class_id, asset_balance_key asset_class_id sgnr],
      [asset_class_key asset_class_id, asset_balance_key asset_class_id sgnr])"
| "action_access _ sgnr (CreateListing asset_class_id _ _ _) =
     ([asset_balance_key asset_class_id sgnr], [asset_balance_key asset_class_id sgnr])"
| "action_access _ _ (CancelListing listing_id) =
     ([listing_key listing_id], [listing_key listing_id])"
| "action_access _ _ (BuyListing listing_id) =
     ([listing_key listing_id], [listing_key listing_id])"
| "action_access _ sgnr (CreateProfile _ _ _) =
     ([], [profile_key sgnr])"
| "action_access _ _ (AddAchievement player achievement_id _ _) =
     ([], [achievement_key player achievement_id])"
| "action_access _ _ (UpdateReputation player _ _) =
     ([profile_key player], [profile_key player])"
| "action_access _ sgnr (DelegateStake validator _) =
     ([validator_key validator, delegation_key sgnr validator],
      [validator_key validator, delegation_key sgnr validator])"
| "action_access _ sgnr (UndelegateStake validator _) =
     ([validator_key validator, delegation_key sgnr validator],
      [validator_key validator, delegation_key sgnr validator])"
| "action_access _ sgnr (RegisterValidator _) =
     ([], [validator_key sgnr])"
| "action_access _ sgnr (RegisterAttestor _ _ _) =
     ([], [attestor_key sgnr])"
| "action_access _ _ (SubmitMatchResult match_result) =
     ([],
      [match_result_key (mr_match_id match_result), match_settlement_key (mr_match_id match_result)])"
| "action_access _ _ (DistributeReward match_id rewards) =
     ([match_settlement_key match_id] @ map (\<lambda>(addr, _). balance_key addr) rewards,
      [match_settlement_key match_id] @ map (\<lambda>(addr, _). balance_key addr) rewards)"
| "action_access _ _ (SubmitProposal _ _ _ _) =
     ([], [])"
| "action_access _ sgnr (VoteProposal proposal_id _) =
     ([proposal_key proposal_id], [proposal_key proposal_id, vote_key proposal_id sgnr])"
| "action_access _ _ (ExecuteProposal proposal_id) =
     ([proposal_key proposal_id], [proposal_key proposal_id])"
| "action_access sha256 sgnr (CreateSession session_pubkey _ _ _) =
     ([session_key sgnr (sha256 session_pubkey)], [session_key sgnr (sha256 session_pubkey)])"
| "action_access _ sgnr (RevokeSession session_address) =
     ([session_key sgnr session_address], [session_key sgnr session_address])"
| "action_access _ sgnr (ListForRent asset_class_id _ _ _ _ _) =
     ([asset_balance_key asset_class_id sgnr], [asset_balance_key asset_class_id sgnr])"
| "action_access _ _ (RentAsset rental_id _) =
     ([rental_key rental_id], [rental_key rental_id])"
| "action_access _ _ (ReturnRental rental_id) =
     ([rental_key rental_id], [rental_key rental_id])"
| "action_access _ _ (ClaimExpiredRental rental_id) =
     ([rental_key rental_id], [rental_key rental_id])"
| "action_access _ _ (CancelRentalListing rental_id) =
     ([rental_key rental_id], [rental_key rental_id])"
| "action_access _ _ (CreateGuild _ _ _) =
     ([], [])"
| "action_access _ sgnr (JoinGuild guild_id) =
     ([guild_key guild_id],
      [guild_key guild_id, guild_member_key guild_id sgnr, member_guilds_key sgnr guild_id])"
| "action_access _ sgnr (LeaveGuild guild_id) =
     ([guild_key guild_id, guild_member_key guild_id sgnr],
      [guild_key guild_id, guild_member_key guild_id sgnr, member_guilds_key sgnr guild_id])"
| "action_access _ sgnr (GuildDeposit guild_id _) =
     ([guild_key guild_id, guild_member_key guild_id sgnr], [guild_key guild_id])"
| "action_access _ sgnr (GuildWithdraw guild_id _) =
     ([guild_key guild_id, guild_member_key guild_id sgnr], [guild_key guild_id])"
| "action_access _ sgnr (GuildPromote guild_id member _) =
     ([guild_key guild_id, guild_member_key guild_id sgnr, guild_member_key guild_id member],
      [guild_member_key guild_id member])"
| "action_access _ sgnr (GuildKick guild_id member) =
     ([guild_key guild_id, guild_member_key guild_id sgnr, guild_member_key guild_id member],
      [guild_key guild_id, guild_member_key guild_id member, member_guilds_key member guild_id])"
| "action_access _ _ (CreateTournament _ _ _ _ _ _ _) =
     ([], [])"
| "action_access _ sgnr (JoinTournament tournament_id) =
     ([tournament_key tournament_id],
      [tournament_key tournament_id, tournament_participant_key tournament_id sgnr])"
| "action_access _ _ (StartTournament tournament_id) =
     ([tournament_key tournament_id], [tournament_key tournament_id])"
| "action_access _ _ (ReportTournamentResults tournament_id _) =
     ([tournament_key tournament_id], [tournament_key tournament_id])"
| "action_access _ _ (ClaimTournamentPrize tournament_id) =
     ([tournament_key tournament_id], [tournament_key tournament_id])"
| "action_access _ _ (CancelTournament tournament_id) =
     ([tournament_key tournament_id], [tournament_key tournament_id])"

definition account_access :: "address \<Rightarrow> u8 list list" where
  "account_access a = [account_key a, balance_key a]"

definition predict_access_set :: "(u8 list \<Rightarrow> hash) \<Rightarrow> SignedTransaction \<Rightarrow> AccessSet" where
  "predict_access_set sha256 tx =
     (let t = stx_transaction tx;
          sgnr = tx_signer t;
          payers = account_access sgnr @ (case tx_sponsor t of None \<Rightarrow> [] | Some sponsor \<Rightarrow> account_access sponsor);
          (reads, writes) = action_access sha256 sgnr (tx_action t)
      in \<lparr>as_reads = fset_of_list (payers @ reads), as_writes = fset_of_list (payers @ writes)\<rparr>)"

subsection \<open>Batches\<close>

record ExecutionBatch =
  eb_transactions :: "(nat \<times> SignedTransaction) list"

text \<open>The inner loop: the first batch without a conflict takes the transaction.\<close>

fun place :: "nat \<Rightarrow> SignedTransaction \<Rightarrow> AccessSet \<Rightarrow> (ExecutionBatch \<times> AccessSet list) list \<Rightarrow>
    (ExecutionBatch \<times> AccessSet list) list option" where
  "place idx tx tx_access [] = None"
| "place idx tx tx_access ((batch, sets) # batches) =
     (if list_ex (\<lambda>s. conflicts_with s tx_access) sets
      then map_option (\<lambda>bs. (batch, sets) # bs) (place idx tx tx_access batches)
      else Some ((batch\<lparr>eb_transactions := eb_transactions batch @ [(idx, tx)]\<rparr>, sets @ [tx_access]) # batches))"

fun schedule_loop :: "(u8 list \<Rightarrow> hash) \<Rightarrow> nat \<Rightarrow> SignedTransaction list \<Rightarrow> (ExecutionBatch \<times> AccessSet list) list \<Rightarrow>
    (ExecutionBatch \<times> AccessSet list) list" where
  "schedule_loop sha256 idx [] batches = batches"
| "schedule_loop sha256 idx (tx # txs) batches =
     (let tx_access = predict_access_set sha256 tx in
      schedule_loop sha256 (Suc idx) txs
        (case place idx tx tx_access batches of
           Some batches' \<Rightarrow> batches'
         | None \<Rightarrow> batches @ [(\<lparr>eb_transactions = [(idx, tx)]\<rparr>, [tx_access])]))"

text \<open>The source keeps the access sets in a second vector of the same length as the batches.\<close>

definition schedule_parallel :: "(u8 list \<Rightarrow> hash) \<Rightarrow> SignedTransaction list \<Rightarrow> ExecutionBatch list" where
  "schedule_parallel sha256 transactions = map fst (schedule_loop sha256 0 transactions [])"

text \<open>The ratio of the statistics is a floating-point number in the source, an exact one here.\<close>

record ScheduleStats =
  total_transactions :: nat
  batch_count :: nat
  max_batch_size :: nat
  parallelism_ratio :: rat

definition schedule_stats :: "ExecutionBatch list \<Rightarrow> ScheduleStats" where
  "schedule_stats batches =
     (let sizes = map (\<lambda>b. length (eb_transactions b)) batches;
          total_size = sum_list sizes
      in \<lparr>total_transactions = total_size, batch_count = length batches, max_batch_size = fold max sizes 0,
          parallelism_ratio = (if batches = [] then 0 else of_nat total_size / of_nat (length batches))\<rparr>)"

subsection \<open>What the scheduler guarantees\<close>

lemma conflicts_sym: "conflicts_with a b \<longleftrightarrow> conflicts_with b a"
  by (auto simp: conflicts_with_def)

text \<open>
  A batch below a bound: its access sets are the predictions for its transactions, no two of them
  conflict, and its transactions are in block order.
\<close>

definition sound_batch :: "(u8 list \<Rightarrow> hash) \<Rightarrow> nat \<Rightarrow> ExecutionBatch \<times> AccessSet list \<Rightarrow> bool" where
  "sound_batch sha256 n = (\<lambda>(batch, sets).
     sets = map (predict_access_set sha256 \<circ> snd) (eb_transactions batch) \<and>
     sorted_wrt (\<lambda>a b. \<not> conflicts_with a b) sets \<and>
     sorted_wrt (<) (map fst (eb_transactions batch)) \<and> (\<forall>x\<in>set (eb_transactions batch). fst x < n))"

lemma sound_batch_mono: "sound_batch sha n b \<Longrightarrow> sound_batch sha (Suc n) b"
  by (auto simp: sound_batch_def)

lemma sound_batch_new: "sound_batch sha (Suc n) (\<lparr>eb_transactions = [(n, tx)]\<rparr>, [predict_access_set sha tx])"
  by (simp add: sound_batch_def)

abbreviation batch_mset :: "(ExecutionBatch \<times> AccessSet list) list \<Rightarrow> (nat \<times> SignedTransaction) multiset" where
  "batch_mset bs \<equiv> mset (concat (map (\<lambda>b. eb_transactions (fst b)) bs))"

lemma place_sound:
  assumes "place n tx (predict_access_set sha tx) bs = Some bs'" "\<forall>b\<in>set bs. sound_batch sha n b"
  shows "(\<forall>b\<in>set bs'. sound_batch sha (Suc n) b) \<and> batch_mset bs' = add_mset (n, tx) (batch_mset bs)"
  using assms
proof (induction n tx "predict_access_set sha tx" bs arbitrary: bs' rule: place.induct)
  case (2 n tx batch sets bs)
  show ?case
  proof (cases "list_ex (\<lambda>s. conflicts_with s (predict_access_set sha tx)) sets")
    case True
    then obtain bs1 where "place n tx (predict_access_set sha tx) bs = Some bs1" "bs' = (batch, sets) # bs1"
      using "2.prems" by auto
    with True 2 show ?thesis by (auto intro: sound_batch_mono)
  next
    case False
    with "2.prems"(2) have "sound_batch sha (Suc n)
        (batch\<lparr>eb_transactions := eb_transactions batch @ [(n, tx)]\<rparr>, sets @ [predict_access_set sha tx])"
      by (auto simp: sound_batch_def list_ex_iff sorted_wrt_append less_SucI)
    moreover have "\<forall>b\<in>set bs. sound_batch sha (Suc n) b"
      using "2.prems"(2) sound_batch_mono by auto
    ultimately show ?thesis
      using False "2.prems"(1) by auto
  qed
qed simp

lemma schedule_loop_sound:
  assumes "\<forall>b\<in>set bs. sound_batch sha n b"
  shows "(\<forall>b\<in>set (schedule_loop sha n txs bs). sound_batch sha (n + length txs) b) \<and>
    batch_mset (schedule_loop sha n txs bs) = batch_mset bs + mset (enumerate n txs)"
  using assms
proof (induction sha n txs bs rule: schedule_loop.induct)
  case (2 sha n tx txs bs)
  define bs' where "bs' = (case place n tx (predict_access_set sha tx) bs of Some bs' \<Rightarrow> bs'
    | None \<Rightarrow> bs @ [(\<lparr>eb_transactions = [(n, tx)]\<rparr>, [predict_access_set sha tx])])"
  have "(\<forall>b\<in>set bs'. sound_batch sha (Suc n) b) \<and> batch_mset bs' = add_mset (n, tx) (batch_mset bs)"
    using 2(2) place_sound [of n tx sha bs]
    by (cases "place n tx (predict_access_set sha tx) bs")
       (auto simp: bs'_def intro: sound_batch_new sound_batch_mono)
  moreover have "schedule_loop sha n (tx # txs) bs = schedule_loop sha (Suc n) txs bs'"
    by (simp add: bs'_def Let_def)
  ultimately show ?case
    using 2(1) [OF refl, folded bs'_def] by simp
qed simp

text \<open>
  C30: the schedule is a partition of the block. Every transaction is in exactly one batch, with its
  position in the block; inside a batch the transactions are in block order and no two of them have
  conflicting predicted access sets.
\<close>

theorem schedule_partitions_block:
  "mset (concat (map eb_transactions (schedule_parallel sha txs))) = mset (enumerate 0 txs) \<and>
   (\<forall>b\<in>set (schedule_parallel sha txs).
      sorted_wrt (\<lambda>(i, t) (j, u). i < j \<and> \<not> conflicts_with (predict_access_set sha t) (predict_access_set sha u))
        (eb_transactions b))"
proof -
  have "sorted_wrt (\<lambda>(i, t) (j, u). i < j \<and> \<not> conflicts_with (predict_access_set sha t) (predict_access_set sha u))
      (eb_transactions (fst b))" if "sound_batch sha n b" for b n
    using that by (auto simp: sound_batch_def sorted_wrt_map case_prod_beta sorted_wrt_iff_nth_less)
  then show ?thesis
    using schedule_loop_sound [of "[]" sha 0 txs] by (auto simp: schedule_parallel_def comp_def)
qed

subsection \<open>Reordering across batches\<close>

definition transfer_tx :: "address \<Rightarrow> address \<Rightarrow> u64 \<Rightarrow> SignedTransaction" where
  "transfer_tx sgnr to amount = \<lparr>stx_transaction = \<lparr>tx_chain_id = ''polay'', tx_nonce = 0, tx_signer = sgnr,
     tx_action = Transfer to amount, tx_max_fee = 1000000, tx_timestamp = 1, tx_session = None, tx_sponsor = None\<rparr>,
     stx_signature = 0, stx_tx_hash = 0, stx_signer_pubkey = []\<rparr>"

lemma transfer_access:
  "predict_access_set sha (transfer_tx a b x) =
     \<lparr>as_reads = {|account_key a, balance_key a, account_key b, balance_key b|},
      as_writes = {|account_key a, balance_key a, account_key b, balance_key b|}\<rparr>"
  by (simp add: predict_access_set_def transfer_tx_def account_access_def)

lemma transfer_conflict:
  "conflicts_with (predict_access_set sha (transfer_tx a b x)) (predict_access_set sha (transfer_tx c d y)) \<longleftrightarrow>
     {a, b} \<inter> {c, d} \<noteq> {}"
  by (auto simp: transfer_access conflicts_with_def key_defs prefix_byte_defs)

text \<open>
  C35: conflicting transactions can change places. When \<open>a\<close> pays \<open>b\<close>, \<open>b\<close> pays \<open>c\<close> and \<open>c\<close> pays \<open>d\<close>, the
  third transfer goes into the first batch, ahead of the second one with which it conflicts, so that
  \<open>c\<close> pays before it is paid.
\<close>

theorem schedule_reorders_conflicts:
  assumes "distinct [a, b, c, d]"
  shows "schedule_parallel sha [transfer_tx a b x, transfer_tx b c y, transfer_tx c d z] =
      [\<lparr>eb_transactions = [(0, transfer_tx a b x), (2, transfer_tx c d z)]\<rparr>, \<lparr>eb_transactions = [(1, transfer_tx b c y)]\<rparr>] \<and>
    conflicts_with (predict_access_set sha (transfer_tx b c y)) (predict_access_set sha (transfer_tx c d z))"
  using assms
  by (auto simp: schedule_parallel_def transfer_conflict Let_def)

theorem schedule_reorders_conflicts_witness:
  "schedule_parallel (\<lambda>_. 0) [transfer_tx 1 2 10, transfer_tx 2 3 20, transfer_tx 3 4 30] =
     [\<lparr>eb_transactions = [(0, transfer_tx 1 2 10), (2, transfer_tx 3 4 30)]\<rparr>, \<lparr>eb_transactions = [(1, transfer_tx 2 3 20)]\<rparr>]"
  using schedule_reorders_conflicts [of 1 2 3 4 "\<lambda>_. 0" 10 20 30] by simp

theorem schedule_partitions_block_witness:
  "\<exists>b1 b2. schedule_parallel (\<lambda>_. 0) [transfer_tx 1 2 10, transfer_tx 3 4 20, transfer_tx 4 1 30] = [b1, b2] \<and>
     mset (eb_transactions b1 @ eb_transactions b2) = mset (enumerate 0 [transfer_tx 1 2 10, transfer_tx 3 4 20, transfer_tx 4 1 30]) \<and>
     sorted_wrt (\<lambda>(i, t) (j, u). i < j) (eb_transactions b1)"
proof -
  let ?txs = "[transfer_tx 1 2 10, transfer_tx 3 4 20, transfer_tx 4 1 30]"
  have run: "schedule_parallel (\<lambda>_. 0) ?txs =
      [\<lparr>eb_transactions = [(0, transfer_tx 1 2 10), (1, transfer_tx 3 4 20)]\<rparr>, \<lparr>eb_transactions = [(2, transfer_tx 4 1 30)]\<rparr>]"
    by (simp add: schedule_parallel_def transfer_conflict Let_def)
  have "sorted_wrt (\<lambda>(i, t) (j, u). i < j) (eb_transactions b)" if "b \<in> set (schedule_parallel (\<lambda>_. 0) ?txs)" for b
    using schedule_partitions_block [of "\<lambda>_. 0" ?txs] that by (auto elim: sorted_wrt_mono_rel [rotated])
  then show ?thesis
    using schedule_partitions_block [of "\<lambda>_. 0" ?txs] unfolding run by (intro exI conjI) (auto simp only: list.set insert_iff refl
      list.map concat.simps append_Nil2 simp_thms)
qed

end
