(* ===== verification/Polay_Snapshot.thy ===== *)
theory Polay_Snapshot
  imports Polay_Merkle
begin

section \<open>Snapshots and state sync (\<^verbatim>\<open>polay-state/src/{snapshot,sync}.rs\<close>)\<close>

text \<open>
  Creation of a snapshot in chunks, verification and application of chunks, and the manager that
  downloads a snapshot. A node that starts from an empty store and receives the chunks of a snapshot in
  any order ends up with the store the snapshot was taken of.
\<close>

subsection \<open>Snapshots\<close>

definition CHUNK_SIZE :: nat where
  "CHUNK_SIZE = 1024 * 1024"

record StateSnapshot =
  sn_height :: u64
  sn_state_root :: hash
  sn_total_chunks :: u32
  sn_chunk_hashes :: "hash list"

record SnapshotChunk =
  ck_height :: u64
  ck_chunk_index :: u32
  ck_total_chunks :: u32
  ck_entries :: "(bytes \<times> bytes) list"
  ck_chunk_hash :: hash

text \<open>A length as a little-endian \<open>u64\<close>.\<close>

definition len_bytes :: "bytes \<Rightarrow> bytes" where
  "len_bytes bs = le_bytes 8 (word_of_nat (length bs) :: u64)"

definition hash_chunk :: "(bytes \<Rightarrow> hash) \<Rightarrow> (bytes \<times> bytes) list \<Rightarrow> hash" where
  "hash_chunk sha256 entries =
     sha256 (le_bytes 8 (word_of_nat (length entries) :: u64) @
       concat (map (\<lambda>(key, v). len_bytes key @ key @ len_bytes v @ v) entries))"

fun split_loop :: "(bytes \<times> bytes) list \<Rightarrow> nat \<Rightarrow> (bytes \<times> bytes) list \<Rightarrow> (bytes \<times> bytes) list list" where
  "split_loop current_chunk current_size [] = (if current_chunk \<noteq> [] then [current_chunk] else [])"
| "split_loop current_chunk current_size ((key, v) # entries) =
     (let entry_size = length key + length v in
      if CHUNK_SIZE < current_size + entry_size \<and> current_chunk \<noteq> []
      then current_chunk # split_loop [(key, v)] entry_size entries
      else split_loop (current_chunk @ [(key, v)]) (current_size + entry_size) entries)"

definition split_into_chunks :: "(bytes \<times> bytes) list \<Rightarrow> (bytes \<times> bytes) list list" where
  "split_into_chunks entries = (if entries = [] then [[]] else split_loop [] 0 entries)"

definition create_snapshot :: "(bytes \<Rightarrow> hash) \<Rightarrow> 's StateStore \<Rightarrow> 's \<Rightarrow> u64 \<Rightarrow> hash \<Rightarrow>
    (StateError, StateSnapshot \<times> SnapshotChunk list) result" where
  "create_snapshot sha256 ops s height state_root =
     (case prefix_scan ops s [] of
        Err e \<Rightarrow> Err e
      | Panic \<Rightarrow> Panic
      | Ok all_entries \<Rightarrow>
          (let raw_chunks = split_into_chunks all_entries;
               total_chunks = word_of_nat (length raw_chunks);
               chunks = map (\<lambda>(idx, entries). \<lparr>ck_height = height, ck_chunk_index = word_of_nat idx,
                 ck_total_chunks = total_chunks, ck_entries = entries, ck_chunk_hash = hash_chunk sha256 entries\<rparr>)
                 (enumerate 0 raw_chunks)
           in Ok (\<lparr>sn_height = height, sn_state_root = state_root, sn_total_chunks = total_chunks,
                   sn_chunk_hashes = map (hash_chunk sha256) raw_chunks\<rparr>, chunks)))"

definition verify_chunk :: "(bytes \<Rightarrow> hash) \<Rightarrow> StateSnapshot \<Rightarrow> SnapshotChunk \<Rightarrow> bool" where
  "verify_chunk sha256 snapshot chunk =
     (let idx = unat (ck_chunk_index chunk);
          computed = hash_chunk sha256 (ck_entries chunk)
      in if length (sn_chunk_hashes snapshot) \<le> idx then False
         else if computed \<noteq> ck_chunk_hash chunk then False
         else sn_chunk_hashes snapshot ! idx = computed)"

fun put_entries :: "'s StateStore \<Rightarrow> (bytes \<times> bytes) list \<Rightarrow> 's \<Rightarrow> (StateError, unit) result \<times> 's" where
  "put_entries ops [] s = (Ok (), s)"
| "put_entries ops ((key, v) # entries) s =
     (case put_raw ops s key v of
        (Ok _, s') \<Rightarrow> put_entries ops entries s'
      | (Err e, s') \<Rightarrow> (Err e, s')
      | (Panic, s') \<Rightarrow> (Panic, s'))"

definition apply_chunk :: "'s StateStore \<Rightarrow> SnapshotChunk \<Rightarrow> 's \<Rightarrow> (StateError, unit) result \<times> 's" where
  "apply_chunk ops chunk s = put_entries ops (ck_entries chunk) s"

definition verify_restored_state :: "(bytes \<Rightarrow> hash) \<Rightarrow> 's StateStore \<Rightarrow> 's \<Rightarrow> hash \<Rightarrow> (StateError, bool) result" where
  "verify_restored_state sha256 ops s expected_root =
     (case compute_state_root sha256 ops s of
        Ok commitment \<Rightarrow> Ok (sc_root commitment = expected_root)
      | Err e \<Rightarrow> Err e
      | Panic \<Rightarrow> Panic)"

subsection \<open>The sync manager\<close>

text \<open>The reason of a failure stands for the text of its message.\<close>

datatype sync_failure = ChunkOutOfRange nat | ChunkFailedVerification nat | WrongSyncState | RootMismatch

datatype SyncAction = RequestSnapshot u64 | RequestChunk u64 u32 | ApplyChunks | SyncComplete | SyncFailed sync_failure

datatype SyncPhase = Idle | RequestingSnapshot | DownloadingChunks | Verifying | SyncDone | SyncBroken sync_failure

record 's StateSyncManager =
  sm_state :: SyncPhase
  sm_store :: 's
  sm_snapshot :: "StateSnapshot option"
  sm_chunks :: "SnapshotChunk option list"
  sm_received :: "bool list"

definition StateSyncManager_new :: "'s \<Rightarrow> 's StateSyncManager" where
  "StateSyncManager_new s = \<lparr>sm_state = Idle, sm_store = s, sm_snapshot = None, sm_chunks = [], sm_received = []\<rparr>"

definition start_sync :: "u64 \<Rightarrow> 's StateSyncManager \<Rightarrow> SyncAction \<times> 's StateSyncManager" where
  "start_sync target_height m = (RequestSnapshot target_height, m\<lparr>sm_state := RequestingSnapshot\<rparr>)"

definition on_snapshot_metadata :: "StateSnapshot \<Rightarrow> 's StateSyncManager \<Rightarrow> SyncAction list \<times> 's StateSyncManager" where
  "on_snapshot_metadata snapshot m =
     (let n = unat (sn_total_chunks snapshot) in
      (map (\<lambda>i. RequestChunk (sn_height snapshot) (word_of_nat i)) [0..<n],
       m\<lparr>sm_received := replicate n False, sm_chunks := replicate n None, sm_snapshot := Some snapshot,
         sm_state := DownloadingChunks\<rparr>))"

definition on_chunk_received ::
  "(bytes \<Rightarrow> hash) \<Rightarrow> SnapshotChunk \<Rightarrow> 's StateSyncManager \<Rightarrow> SyncAction list \<times> 's StateSyncManager" where
  "on_chunk_received sha256 chunk m =
     (if sm_state m \<noteq> DownloadingChunks then ([], m)
      else case sm_snapshot m of
             None \<Rightarrow> ([], m)
           | Some snapshot \<Rightarrow>
               (let idx = unat (ck_chunk_index chunk) in
                if length (sm_received m) \<le> idx
                then ([SyncFailed (ChunkOutOfRange idx)], m\<lparr>sm_state := SyncBroken (ChunkOutOfRange idx)\<rparr>)
                else if \<not> verify_chunk sha256 snapshot chunk
                then ([SyncFailed (ChunkFailedVerification idx)], m\<lparr>sm_state := SyncBroken (ChunkFailedVerification idx)\<rparr>)
                else
                  (let m = m\<lparr>sm_received := (sm_received m)[idx := True], sm_chunks := (sm_chunks m)[idx := Some chunk]\<rparr> in
                   if list_all id (sm_received m)
                   then ([ApplyChunks], m\<lparr>sm_state := Verifying\<rparr>)
                   else ([], m))))"

fun apply_chunks :: "'s StateStore \<Rightarrow> SnapshotChunk list \<Rightarrow> 's \<Rightarrow> (StateError, unit) result \<times> 's" where
  "apply_chunks ops [] s = (Ok (), s)"
| "apply_chunks ops (chunk # chunks) s =
     (case apply_chunk ops chunk s of
        (Ok _, s') \<Rightarrow> apply_chunks ops chunks s'
      | (Err e, s') \<Rightarrow> (Err e, s')
      | (Panic, s') \<Rightarrow> (Panic, s'))"

definition apply_all_chunks ::
  "(bytes \<Rightarrow> hash) \<Rightarrow> 's StateStore \<Rightarrow> 's StateSyncManager \<Rightarrow> (StateError, SyncAction) result \<times> 's StateSyncManager" where
  "apply_all_chunks sha256 ops m =
     (if sm_state m \<noteq> Verifying then (Ok (SyncFailed WrongSyncState), m\<lparr>sm_state := SyncBroken WrongSyncState\<rparr>)
      else case apply_chunks ops (map the (filter (\<lambda>c. c \<noteq> None) (sm_chunks m))) (sm_store m) of
             (Err e, s) \<Rightarrow> (Err e, m\<lparr>sm_store := s\<rparr>)
           | (Panic, s) \<Rightarrow> (Panic, m\<lparr>sm_store := s\<rparr>)
           | (Ok _, s) \<Rightarrow>
               (let m = m\<lparr>sm_store := s\<rparr> in
                case sm_snapshot m of
                  None \<Rightarrow> (Panic, m)
                | Some snapshot \<Rightarrow>
                    (case verify_restored_state sha256 ops s (sn_state_root snapshot) of
                       Err e \<Rightarrow> (Err e, m)
                     | Panic \<Rightarrow> (Panic, m)
                     | Ok valid \<Rightarrow>
                         (if valid then (Ok SyncComplete, m\<lparr>sm_state := SyncDone\<rparr>)
                          else (Ok (SyncFailed RootMismatch), m\<lparr>sm_state := SyncBroken RootMismatch\<rparr>)))))"

definition is_complete :: "'s StateSyncManager \<Rightarrow> bool" where
  "is_complete m \<longleftrightarrow> sm_state m = SyncDone"

subsection \<open>Chunks\<close>

lemma concat_split_loop: "concat (split_loop cur n entries) = cur @ entries"
  by (induction cur n entries rule: split_loop.induct) (auto simp: Let_def)

lemma concat_split: "concat (split_into_chunks entries) = entries"
  by (simp add: split_into_chunks_def concat_split_loop)

lemma split_nonempty: "split_into_chunks entries \<noteq> []"
  using concat_split [of entries] by (cases "entries = []") (auto simp: split_into_chunks_def)

text \<open>No chunk exceeds the limit unless it is a single entry.\<close>

definition chunk_size :: "(bytes \<times> bytes) list \<Rightarrow> nat" where
  "chunk_size entries = (\<Sum>(key, v)\<leftarrow>entries. length key + length v)"

lemma chunk_size_simps [simp]: "chunk_size [] = 0" "chunk_size (xs @ ys) = chunk_size xs + chunk_size ys"
    "chunk_size [(key, v)] = length key + length v"
  by (simp_all add: chunk_size_def)

definition fair_chunk :: "(bytes \<times> bytes) list \<Rightarrow> bool" where
  "fair_chunk c \<longleftrightarrow> chunk_size c \<le> CHUNK_SIZE \<or> length c = 1"

lemma fair_chunk_add:
  "\<not> (CHUNK_SIZE < chunk_size cur + (length key + length v) \<and> cur \<noteq> []) \<Longrightarrow> fair_chunk (cur @ [(key, v)])"
  by (cases "cur = []") (simp_all add: fair_chunk_def)

lemma split_loop_fair:
  "cur = [] \<or> fair_chunk cur \<Longrightarrow> n = chunk_size cur \<Longrightarrow> c \<in> set (split_loop cur n entries) \<Longrightarrow> fair_chunk c"
proof (induction cur n entries rule: split_loop.induct)
  case (2 cur n key v entries)
  show ?case
  proof (cases "CHUNK_SIZE < n + (length key + length v) \<and> cur \<noteq> []")
    case True
    then have "c = cur \<or> c \<in> set (split_loop [(key, v)] (length key + length v) entries)"
      using "2.prems"(3) by (simp add: Let_def)
    moreover have "fair_chunk [(key, v)]" by (simp add: fair_chunk_def)
    ultimately show ?thesis
      using 2(1) [OF refl True] "2.prems"(1) True by auto
  next
    case False
    then have "c \<in> set (split_loop (cur @ [(key, v)]) (n + (length key + length v)) entries)"
      using "2.prems"(3) by (simp only: split_loop.simps Let_def if_False)
    then show ?thesis
      using 2(2) [OF refl False] False "2.prems"(2) fair_chunk_add by simp
  qed
qed (auto split: if_splits)

lemma split_fair: "c \<in> set (split_into_chunks entries) \<Longrightarrow> fair_chunk c"
  using split_loop_fair [of "[]" 0 c entries]
  by (auto simp: split_into_chunks_def split: if_splits) (simp add: fair_chunk_def)

subsection \<open>Applying chunks\<close>

text \<open>The map that writing a list of entries leaves.\<close>

fun load_entries :: "(bytes \<times> bytes) list \<Rightarrow> (bytes \<rightharpoonup> bytes) \<Rightarrow> (bytes \<rightharpoonup> bytes)" where
  "load_entries [] m = m"
| "load_entries ((k, v) # entries) m = load_entries entries (m(k \<mapsto> v))"

lemma load_entries_append: "load_entries (xs @ ys) m = load_entries ys (load_entries xs m)"
  by (induction xs m rule: load_entries.induct) (simp_all del: fun_upd_apply)

lemma load_entries_lookup:
  "distinct (map fst kvs) \<Longrightarrow> load_entries kvs m k = (case map_of kvs k of Some v \<Rightarrow> Some v | None \<Rightarrow> m k)"
proof (induction kvs m rule: load_entries.induct)
  case (2 k' v kvs m)
  then have "map_of kvs k' = None" by (simp add: map_of_eq_None_iff)
  moreover have "load_entries kvs (m(k' \<mapsto> v)) k = (case map_of kvs k of Some v \<Rightarrow> Some v | None \<Rightarrow> (m(k' \<mapsto> v)) k)"
    using 2 by (simp del: fun_upd_apply)
  ultimately show ?case by (cases "map_of kvs k") auto
qed simp

context kv_store
begin

lemma put_entries_ok:
  "\<exists>s'. put_entries ops entries s = (Ok (), s') \<and> contents s' = load_entries entries (contents s)"
proof (induction entries arbitrary: s)
  case (Cons e entries)
  obtain k v where e: "e = (k, v)" by fastforce
  obtain s1 where s1: "put_raw ops s k v = (Ok (), s1)" "contents s1 = (contents s)(k \<mapsto> v)"
    using put_law [of s k v] by (cases "put_raw ops s k v") auto
  obtain s2 where "put_entries ops entries s1 = (Ok (), s2)" "contents s2 = load_entries entries (contents s1)"
    using Cons.IH by blast
  then show ?case
    unfolding e load_entries.simps s1(2) [symmetric] put_entries.simps s1(1) by simp
qed simp

lemma apply_chunks_ok:
  "\<exists>s'. apply_chunks ops chunks s = (Ok (), s') \<and> contents s' = load_entries (concat (map ck_entries chunks)) (contents s)"
proof (induction chunks arbitrary: s)
  case (Cons c chunks)
  obtain s1 where s1: "apply_chunk ops c s = (Ok (), s1)" "contents s1 = load_entries (ck_entries c) (contents s)"
    using put_entries_ok [of "ck_entries c" s] by (auto simp: apply_chunk_def)
  with Cons.IH [of s1] show ?case by (simp add: load_entries_append)
qed simp

text \<open>A full scan holds the whole store.\<close>

lemma full_scan:
  assumes "prefix_scan ops s [] = Ok kvs"
  shows "load_entries kvs Map.empty = contents s"
proof
  fix k
  from scan_law [of s "[]"] assms have kvs: "sorted_wrt (<) (map fst kvs)" "set kvs = {(k, v). contents s k = Some v}"
    by auto
  then have d: "distinct (map fst kvs)" by (simp add: strict_sorted_iff)
  have "map_of kvs k = Some v \<longleftrightarrow> contents s k = Some v" for v
    unfolding map_of_eq_Some_iff [OF d] kvs(2) by simp
  then have "map_of kvs k = contents s k" by (metis not_Some_eq)
  then show "load_entries kvs Map.empty k = contents s k"
    by (simp add: load_entries_lookup [OF d] split: option.split)
qed

end

subsection \<open>Downloading\<close>

text \<open>The chunks that belong to a snapshot.\<close>

definition genuine_chunks :: "(bytes \<Rightarrow> hash) \<Rightarrow> StateSnapshot \<Rightarrow> SnapshotChunk list \<Rightarrow> bool" where
  "genuine_chunks sha256 snap cks \<longleftrightarrow> cks \<noteq> [] \<and> length cks < 2 ^ 32 \<and>
     sn_total_chunks snap = word_of_nat (length cks) \<and> sn_chunk_hashes snap = map (hash_chunk sha256 \<circ> ck_entries) cks \<and>
     (\<forall>i<length cks. ck_chunk_index (cks ! i) = word_of_nat i \<and> ck_chunk_hash (cks ! i) = hash_chunk sha256 (ck_entries (cks ! i)))"

lemma create_genuine:
  assumes "create_snapshot sha ops s h root = Ok (snap, cks)" "length cks < 2 ^ 32"
  shows "genuine_chunks sha snap cks \<and> sn_state_root snap = root \<and> prefix_scan ops s [] = Ok (concat (map ck_entries cks))"
proof -
  obtain entries where scan: "prefix_scan ops s [] = Ok entries"
    using assms(1) by (cases "prefix_scan ops s []") (auto simp: create_snapshot_def)
  have ents: "map ck_entries cks = split_into_chunks entries"
    using assms(1) scan by (auto simp: create_snapshot_def Let_def nth_enumerate_eq intro!: nth_equalityI)
  have "\<forall>i<length cks. ck_chunk_index (cks ! i) = word_of_nat i \<and> ck_chunk_hash (cks ! i) = hash_chunk sha (ck_entries (cks ! i))"
    using assms(1) scan by (auto simp: create_snapshot_def Let_def nth_enumerate_eq)
  moreover have "sn_chunk_hashes snap = map (hash_chunk sha) (map ck_entries cks)" "sn_state_root snap = root"
      "sn_total_chunks snap = word_of_nat (length (map ck_entries cks))"
    unfolding ents using assms(1) scan by (auto simp: create_snapshot_def Let_def)
  moreover have "cks \<noteq> []"
    using ents split_nonempty [of entries] by auto
  ultimately show ?thesis
    using assms(2) scan concat_split [of entries, folded ents] by (simp add: genuine_chunks_def)
qed

text \<open>The manager after the chunks with positions in \<open>D\<close> have arrived.\<close>

definition progress :: "StateSnapshot \<Rightarrow> SnapshotChunk list \<Rightarrow> nat set \<Rightarrow> 's StateSyncManager \<Rightarrow> bool" where
  "progress snap cks D m \<longleftrightarrow>
     sm_state m = (if {..<length cks} \<subseteq> D then Verifying else DownloadingChunks) \<and> sm_snapshot m = Some snap \<and>
     sm_received m = map (\<lambda>i. i \<in> D) [0..<length cks] \<and>
     sm_chunks m = map (\<lambda>i. if i \<in> D then Some (cks ! i) else None) [0..<length cks]"

lemma genuine_index: "genuine_chunks sha snap cks \<Longrightarrow> i < length cks \<Longrightarrow> unat (ck_chunk_index (cks ! i)) = i"
  by (simp add: genuine_chunks_def unat_of_nat)

lemma genuine_verifies: "genuine_chunks sha snap cks \<Longrightarrow> i < length cks \<Longrightarrow> verify_chunk sha snap (cks ! i)"
  using genuine_index [of sha snap cks i] by (simp add: verify_chunk_def genuine_chunks_def)

lemma map_upt_update: "i < n \<Longrightarrow> (map f [0..<n])[i := x] = map (f(i := x)) [0..<n]"
  by (rule nth_equalityI) (auto simp: nth_list_update)

lemma receive_progress:
  assumes gen: "genuine_chunks sha snap cks" and i: "i < length cks" and prog: "progress snap cks D m"
  shows "progress snap cks (insert i D) (snd (on_chunk_received sha (cks ! i) m))"
proof (cases "{..<length cks} \<subseteq> D")
  case True
  with i have "insert i D = D" by auto
  with True prog show ?thesis by (simp add: on_chunk_received_def progress_def)
next
  case False
  define m1 where "m1 = m\<lparr>sm_received := (sm_received m)[i := True], sm_chunks := (sm_chunks m)[i := Some (cks ! i)]\<rparr>"
  have lists: "sm_received m1 = map (\<lambda>j. j \<in> insert i D) [0..<length cks]"
      "sm_chunks m1 = map (\<lambda>j. if j \<in> insert i D then Some (cks ! j) else None) [0..<length cks]"
    using prog i by (auto simp: m1_def progress_def map_upt_update)
  then have all: "list_all id (sm_received m1) \<longleftrightarrow> {..<length cks} \<subseteq> insert i D"
    by (auto simp: list_all_iff)
  have "snd (on_chunk_received sha (cks ! i) m) = (if list_all id (sm_received m1) then m1\<lparr>sm_state := Verifying\<rparr> else m1)"
    using False prog i genuine_index [OF gen i] genuine_verifies [OF gen i]
    by (simp add: on_chunk_received_def progress_def m1_def Let_def)
  then show ?thesis
    using lists all False prog by (auto simp: progress_def m1_def)
qed

lemma genuine_position: "genuine_chunks sha snap cks \<Longrightarrow> i < length cks \<Longrightarrow> j < length cks \<Longrightarrow> cks ! i = cks ! j \<Longrightarrow> i = j"
  using genuine_index by metis

lemma receive_all_progress:
  assumes gen: "genuine_chunks sha snap cks" and "set ds \<subseteq> set cks" "progress snap cks D m"
  shows "progress snap cks (D \<union> {i. i < length cks \<and> cks ! i \<in> set ds}) (fold (\<lambda>d m. snd (on_chunk_received sha d m)) ds m)"
  using assms(2,3)
proof (induction ds arbitrary: D m)
  case (Cons d ds)
  then obtain i where i: "i < length cks" "cks ! i = d" by (auto simp: in_set_conv_nth)
  then have "insert i D \<union> {j. j < length cks \<and> cks ! j \<in> set ds} = D \<union> {j. j < length cks \<and> cks ! j \<in> set (d # ds)}"
    using genuine_position [OF gen] by auto
  with Cons.IH [OF _ receive_progress [OF gen i(1) Cons.prems(2)]] Cons.prems(1) i(2) show ?case
    by simp
qed simp

subsection \<open>State sync\<close>

lemma root_always: "\<exists>c. compute_state_root sha memory_store m = Ok c"
proof -
  have "\<exists>t. collect_entries sha memory_store m ps tree = Ok t" for ps tree
  proof (induction ps arbitrary: tree)
    case (Cons p ps)
    obtain kvs where "prefix_scan memory_store m [p] = Ok kvs" using memory.scan_law by blast
    with Cons show ?case by simp
  qed simp
  then obtain t where "collect_entries sha memory_store m STATE_PREFIXES MerkleTree_new = Ok t" by blast
  then show ?thesis by (simp add: compute_state_root_def)
qed

text \<open>
  C12: state sync. Take a snapshot of a store, with its state root; a node that starts with an empty
  store, is given the snapshot's metadata and then receives its chunks in any order, repetitions
  included, accepts every chunk, applies them, finds the state root confirmed, reports completion and
  holds exactly the original store. (The chunk index has 32 bits.)
\<close>

theorem state_sync_restores:
  assumes root: "compute_state_root sha memory_store m = Ok c"
    and snap: "create_snapshot sha memory_store m h (sc_root c) = Ok (snap, cks)" "length cks < 2 ^ 32"
    and ds: "set ds = set cks"
  shows "let started = snd (on_snapshot_metadata snap (snd (start_sync h (StateSyncManager_new MemoryStore_new))));
             downloaded = fold (\<lambda>d mgr. snd (on_chunk_received sha d mgr)) ds started;
             (res, final) = apply_all_chunks sha memory_store downloaded
         in res = Ok SyncComplete \<and> is_complete final \<and> sm_store final = m"
proof -
  note gen = create_genuine [OF snap]
  define started where "started = snd (on_snapshot_metadata snap (snd (start_sync h (StateSyncManager_new MemoryStore_new))))"
  define mgr where "mgr = fold (\<lambda>d mgr. snd (on_chunk_received sha d mgr)) ds started"
  have store: "sm_store (snd (on_chunk_received sha d x)) = sm_store x" for d and x :: "MemoryStore StateSyncManager"
    by (simp add: on_chunk_received_def Let_def split: option.split)
  have "sm_store (fold (\<lambda>d mgr. snd (on_chunk_received sha d mgr)) ds x) = sm_store x" for x :: "MemoryStore StateSyncManager"
    by (induction ds arbitrary: x) (simp_all add: store)
  then have mem: "sm_store mgr = MemoryStore_new"
    by (simp add: mgr_def started_def on_snapshot_metadata_def start_sync_def StateSyncManager_new_def Let_def)
  have n: "unat (sn_total_chunks snap) = length cks" "cks \<noteq> []"
    using gen by (auto simp: genuine_chunks_def unat_of_nat)
  then have "progress snap cks {} started"
    by (simp add: progress_def started_def on_snapshot_metadata_def start_sync_def Let_def map_replicate_const lessThan_empty_iff)
  from receive_all_progress [OF conjunct1 [OF gen] _ this, of ds] ds
  have "progress snap cks {i. i < length cks \<and> cks ! i \<in> set cks} mgr" by (simp add: mgr_def)
  then have finished: "sm_state mgr = Verifying" "sm_snapshot mgr = Some snap" "sm_chunks mgr = map Some cks"
    by (auto simp: progress_def intro!: nth_equalityI)
  have "map the (filter (\<lambda>c. c \<noteq> None) (map Some cks)) = cks"
    by (simp add: filter_map comp_def)
  moreover obtain s' where s': "apply_chunks memory_store cks MemoryStore_new = (Ok (), s')"
      "memory_contents s' = load_entries (concat (map ck_entries cks)) (memory_contents MemoryStore_new)"
    using memory.apply_chunks_ok by blast
  moreover have "memory_contents MemoryStore_new = Map.empty"
    by (simp add: memory_contents_def MemoryStore_new_def fun_eq_iff)
  then have "s' = m"
    using s'(2) memory.full_scan [of m] gen memory_contents_inject by simp
  ultimately show ?thesis
    using finished mem gen root
    by (simp add: apply_all_chunks_def verify_restored_state_def is_complete_def Let_def flip: mgr_def started_def)
qed

text \<open>A store with one entry, in one chunk.\<close>

definition small_store :: MemoryStore where
  "small_store = \<lparr>mem_data = fmupd (account_key 1) [5, 6] fmempty\<rparr>"

theorem state_sync_restores_witness:
  "\<exists>c snap ck. compute_state_root (\<lambda>_. 9) memory_store small_store = Ok c \<and>
     create_snapshot (\<lambda>_. 9) memory_store small_store 4 (sc_root c) = Ok (snap, [ck]) \<and>
     (let started = snd (on_snapshot_metadata snap (snd (start_sync 4 (StateSyncManager_new MemoryStore_new))));
          downloaded = fold (\<lambda>d mgr. snd (on_chunk_received (\<lambda>_. 9) d mgr)) [ck, ck] started;
          (res, final) = apply_all_chunks (\<lambda>_. 9) memory_store downloaded
      in res = Ok SyncComplete \<and> is_complete final \<and> sm_store final = small_store)"
proof -
  obtain c where c: "compute_state_root (\<lambda>_. 9) memory_store small_store = Ok c"
    using root_always by blast
  have "prefix_scan memory_store small_store [] = Ok [(account_key 1, [5, 6])]"
    by (simp add: store_ops_defs small_store_def sorted_list_of_fmap_def sorted_list_of_fset.rep_eq)
  then obtain snap ck where snap: "create_snapshot (\<lambda>_. 9) memory_store small_store 4 (sc_root c) = Ok (snap, [ck])"
    by (simp add: create_snapshot_def split_into_chunks_def Let_def)
  from state_sync_restores [OF c snap, of "[ck, ck]"] c snap show ?thesis
    by auto
qed

end
