(* ===== verification/Polay_Validation.thy ===== *)
theory Polay_Validation
  imports Polay_Accounting Polay_Crypto
begin

section \<open>Validation of single transactions\<close>

text \<open>
  \<^verbatim>\<open>polay-execution/src/{validator,input_validation}.rs\<close>: the checks on the form of a transaction, on its hash,
  key and signature, and on the accounts and the session it uses. Every check is one entry of a list, in the
  order of the source; validation ends with the error of the first entry that fails. Of a formatted message the
  model keeps the printed values. No code outside the tests calls these functions; the theorem says what a
  caller could rely on.
\<close>

datatype (plugins only: size) validation_error =
    Rejected ExecutionError
  | Commission_above u16 u16
  | Username_length nat
  | Prize_sum u32
  | Signer_pubkey_length nat
  | Signer_pubkey_invalid CryptoError
  | Session_pubkey_derives address address
  | Signer_pubkey_derives address address
  | Payload_failed CryptoError
  | Verification_failed CryptoError

fun first_error :: "(bool \<times> validation_error) list \<Rightarrow> (validation_error, unit) result" where
  "first_error [] = Ok ()"
| "first_error ((failed, e) # checks) = (if failed then Err e else first_error checks)"

abbreviation bad_input :: "bool \<Rightarrow> string \<Rightarrow> bool \<times> validation_error" where
  "bad_input failed msg \<equiv> (failed, Rejected (InvalidInput msg))"

abbreviation length_outside :: "nat \<Rightarrow> nat \<Rightarrow> string \<Rightarrow> bool" where
  "length_outside lo hi s \<equiv> length s < lo \<or> hi < length s"

definition is_ascii_alphanumeric :: "char \<Rightarrow> bool" where
  "is_ascii_alphanumeric c \<longleftrightarrow>
     (let n = of_char c :: nat in 48 \<le> n \<and> n \<le> 57 \<or> 65 \<le> n \<and> n \<le> 90 \<or> 97 \<le> n \<and> n \<le> 122)"

subsection \<open>Input\<close>

definition username_checks :: "string \<Rightarrow> (bool \<times> validation_error) list" where
  "username_checks username =
     [(length_outside 3 32 username, Username_length (length username)),
      bad_input (\<not> list_all (\<lambda>c. is_ascii_alphanumeric c \<or> c = CHR ''_'') username)
        ''username may only contain alphanumeric characters and underscores'',
      bad_input (take 1 username = ''_'' \<or> take 1 (rev username) = ''_'')
        ''username must not start or end with an underscore'']"

definition validate_username :: "string \<Rightarrow> (validation_error, unit) result" where
  "validate_username username = first_error (username_checks username)"

fun input_checks :: "ChainConfig \<Rightarrow> address \<Rightarrow> TransactionAction \<Rightarrow> (bool \<times> validation_error) list" where
  "input_checks config sgnr (Transfer to amount) =
     [bad_input (amount = 0) ''transfer amount must be > 0'',
      bad_input (to = sgnr) ''cannot transfer to self'',
      bad_input (is_zero to) ''cannot transfer to zero address'']"
| "input_checks config sgnr (CreateAssetClass nm symbol ty max_supply metadata_uri) =
     [bad_input (length_outside 1 128 nm) ''asset class name must be 1-128 characters'',
      bad_input (length_outside 1 32 symbol) ''asset class symbol must be 1-32 characters'',
      bad_input (\<not> list_all is_ascii_alphanumeric symbol) ''asset class symbol must be alphanumeric'',
      bad_input (2048 < length metadata_uri) ''metadata_uri must be < 2048 characters'',
      bad_input (max_supply = Some 0) ''max_supply must be > 0 if set'']"
| "input_checks config sgnr (MintAsset _ _ amount _) = [bad_input (amount = 0) ''mint amount must be > 0'']"
| "input_checks config sgnr (TransferAsset _ to amount) =
     [bad_input (amount = 0) ''transfer asset amount must be > 0'',
      bad_input (to = sgnr) ''cannot transfer asset to self'']"
| "input_checks config sgnr (BurnAsset _ amount) = [bad_input (amount = 0) ''burn amount must be > 0'']"
| "input_checks config sgnr (CreateListing _ amount price_per_unit _) =
     [bad_input (amount = 0) ''listing amount must be > 0'',
      bad_input (price_per_unit = 0) ''listing price_per_unit must be > 0'']"
| "input_checks config sgnr (BuyListing listing_id) = [bad_input (is_zero listing_id) ''listing_id must not be zero'']"
| "input_checks config sgnr (CreateProfile username display_name _) =
     username_checks username @ [bad_input (length_outside 1 128 display_name) ''display_name must be 1-128 characters'']"
| "input_checks config sgnr (AddAchievement _ achievement_id nm _) =
     [bad_input (length_outside 1 128 achievement_id) ''achievement_id must be 1-128 characters'',
      bad_input (length_outside 1 256 nm) ''achievement name must be 1-256 characters'']"
| "input_checks config sgnr (UpdateReputation _ delta reason) =
     [bad_input (delta = 0) ''reputation delta must not be zero'',
      bad_input (length_outside 1 512 reason) ''reputation reason must be 1-512 characters'']"
| "input_checks config sgnr (RegisterValidator commission_bps) =
     [(cfg_max_commission_bps config < commission_bps, Commission_above commission_bps (cfg_max_commission_bps config))]"
| "input_checks config sgnr (DelegateStake _ amount) = [bad_input (amount = 0) ''delegate stake amount must be > 0'']"
| "input_checks config sgnr (UndelegateStake _ amount) = [bad_input (amount = 0) ''undelegate stake amount must be > 0'']"
| "input_checks config sgnr (RegisterAttestor game_id endpoint _) =
     [bad_input (length_outside 1 64 game_id) ''game_id must be 1-64 characters'',
      bad_input (512 < length endpoint) ''endpoint must be < 512 characters'']"
| "input_checks config sgnr (SubmitMatchResult r) =
     [bad_input (mr_players r = []) ''match must have at least 1 player'',
      bad_input (mr_winners r = []) ''match must have at least 1 winner'',
      bad_input (length (mr_scores r) \<noteq> length (mr_players r)) ''scores length must equal players length'',
      bad_input (\<not> list_all (\<lambda>w. w \<in> set (mr_players r)) (mr_winners r)) ''all winners must be in the players list'']"
| "input_checks config sgnr (DistributeReward _ rewards) =
     [bad_input (rewards = []) ''must have at least 1 reward entry'',
      bad_input (list_ex (\<lambda>(_, amount). amount = 0) rewards) ''reward amounts must be > 0'']"
| "input_checks config sgnr (SubmitProposal _ title description deposit) =
     [bad_input (length_outside 1 256 title) ''proposal title must be 1-256 characters'',
      bad_input (length_outside 1 4096 description) ''proposal description must be 1-4096 characters'',
      bad_input (deposit = 0) ''proposal deposit must be > 0'']"
| "input_checks config sgnr (CancelListing _) = []"
| "input_checks config sgnr (VoteProposal _ _) = []"
| "input_checks config sgnr (ExecuteProposal _) = []"
| "input_checks config sgnr (CreateSession _ _ _ _) = []"
| "input_checks config sgnr (RevokeSession _) = []"
| "input_checks config sgnr (ListForRent asset_class_id asset_id price_per_block _ min_duration max_duration) =
     [bad_input (is_zero asset_class_id) ''asset_class_id must not be zero'',
      bad_input (is_zero asset_id) ''asset_id must not be zero'',
      bad_input (price_per_block = 0) ''price_per_block must be > 0'',
      bad_input (min_duration = 0) ''min_duration must be > 0'',
      bad_input (max_duration < min_duration) ''max_duration must be >= min_duration'']"
| "input_checks config sgnr (RentAsset rental_id duration) =
     [bad_input (is_zero rental_id) ''rental_id must not be zero'', bad_input (duration = 0) ''duration must be > 0'']"
| "input_checks config sgnr (ReturnRental rental_id) = [bad_input (is_zero rental_id) ''rental_id must not be zero'']"
| "input_checks config sgnr (ClaimExpiredRental rental_id) = [bad_input (is_zero rental_id) ''rental_id must not be zero'']"
| "input_checks config sgnr (CancelRentalListing rental_id) = [bad_input (is_zero rental_id) ''rental_id must not be zero'']"
| "input_checks config sgnr (CreateGuild nm description max_members) =
     [bad_input (length_outside 1 64 nm) ''guild name must be 1-64 characters'',
      bad_input (256 < length description) ''guild description must be 0-256 characters'',
      bad_input (max_members = 0 \<or> 10000 < max_members) ''max_members must be 1-10000'']"
| "input_checks config sgnr (JoinGuild guild_id) = [bad_input (is_zero guild_id) ''guild_id must not be zero'']"
| "input_checks config sgnr (LeaveGuild guild_id) = [bad_input (is_zero guild_id) ''guild_id must not be zero'']"
| "input_checks config sgnr (GuildDeposit guild_id amount) =
     [bad_input (is_zero guild_id) ''guild_id must not be zero'', bad_input (amount = 0) ''deposit amount must be > 0'']"
| "input_checks config sgnr (GuildWithdraw guild_id amount) =
     [bad_input (is_zero guild_id) ''guild_id must not be zero'', bad_input (amount = 0) ''withdraw amount must be > 0'']"
| "input_checks config sgnr (GuildPromote guild_id _ role) =
     [bad_input (is_zero guild_id) ''guild_id must not be zero'',
      bad_input (role \<noteq> ''officer'' \<and> role \<noteq> ''member'') (''role must be '' @ [CHR 34] @ ''officer'' @ [CHR 34] @ '' or '' @ [CHR 34] @ ''member'' @ [CHR 34])]"
| "input_checks config sgnr (GuildKick guild_id _) = [bad_input (is_zero guild_id) ''guild_id must not be zero'']"
| "input_checks config sgnr (CreateTournament nm game_id _ max_participants min_participants _ prize_distribution) =
     [bad_input (length_outside 1 128 nm) ''tournament name must be 1-128 characters'',
      bad_input (length_outside 1 64 game_id) ''game_id must be 1-64 characters'',
      bad_input (min_participants < 2) ''min_participants must be >= 2'',
      bad_input (max_participants < min_participants) ''max_participants must be >= min_participants'',
      bad_input (prize_distribution = []) ''prize_distribution must not be empty'',
      bad_input (100 < length prize_distribution) ''prize_distribution must have at most 100 entries'',
      (sum_list prize_distribution \<noteq> 100, Prize_sum (sum_list prize_distribution)),
      bad_input (list_ex (\<lambda>pct. pct = 0 \<or> 100 < pct) prize_distribution) ''each prize_distribution entry must be 1-100'']"
| "input_checks config sgnr (JoinTournament tournament_id) = [bad_input (is_zero tournament_id) ''tournament_id must not be zero'']"
| "input_checks config sgnr (StartTournament tournament_id) = [bad_input (is_zero tournament_id) ''tournament_id must not be zero'']"
| "input_checks config sgnr (ReportTournamentResults tournament_id rankings) =
     [bad_input (is_zero tournament_id) ''tournament_id must not be zero'',
      bad_input (rankings = []) ''rankings must not be empty'']"
| "input_checks config sgnr (ClaimTournamentPrize tournament_id) = [bad_input (is_zero tournament_id) ''tournament_id must not be zero'']"
| "input_checks config sgnr (CancelTournament tournament_id) = [bad_input (is_zero tournament_id) ''tournament_id must not be zero'']"

definition validate_transaction_input :: "Transaction \<Rightarrow> ChainConfig \<Rightarrow> (validation_error, unit) result" where
  "validate_transaction_input tx config = first_error (input_checks config (tx_signer tx) (tx_action tx))"

text \<open>A transaction that cannot be serialized has size zero here.\<close>

definition validate_tx_size :: "crypto \<Rightarrow> SignedTransaction \<Rightarrow> usize \<Rightarrow> (validation_error, unit) result" where
  "validate_tx_size cx tx max_size =
     (let size = (case cx_tx_bytes cx (stx_transaction tx) of Inl _ \<Rightarrow> 0 | Inr bs \<Rightarrow> length bs)
      in if unat max_size < size then Err (Rejected (TransactionTooLarge (unat max_size) size)) else Ok ())"

definition validate_tx_expiration :: "Transaction \<Rightarrow> u64 \<Rightarrow> u64 \<Rightarrow> (validation_error, unit) result" where
  "validate_tx_expiration tx current_timestamp max_age_seconds =
     (if tx_timestamp tx < current_timestamp
      then let age = current_timestamp - tx_timestamp tx
           in if max_age_seconds < age then Err (Rejected (TransactionExpired max_age_seconds age)) else Ok ()
      else Ok ())"

subsection \<open>Without the state\<close>

definition stateless_checks :: "SignedTransaction \<Rightarrow> string \<Rightarrow> (bool \<times> validation_error) list" where
  "stateless_checks tx chain_id =
     (let inner = stx_transaction tx in
      [(tx_chain_id inner \<noteq> chain_id, Rejected (InvalidChainId chain_id (tx_chain_id inner))),
       (is_zero (tx_signer inner), Rejected ZeroAddressSigner),
       (tx_max_fee inner = 0, Rejected FeeTooLow)] @
      (case tx_sponsor inner of
         None \<Rightarrow> []
       | Some sponsor \<Rightarrow>
           [(is_zero sponsor, Rejected ZeroAddressSponsor), (sponsor = tx_signer inner, Rejected SponsorIsSigner)]))"

definition check_key_and_signature :: "crypto \<Rightarrow> SignedTransaction \<Rightarrow> (validation_error, unit) result" where
  "check_key_and_signature cx tx =
     (let inner = stx_transaction tx; key = stx_signer_pubkey tx in
      if length key \<noteq> 32 then Err (Signer_pubkey_length (length key))
      else case PublicKey_from_bytes cx key of
        Err e \<Rightarrow> Err (Signer_pubkey_invalid e)
      | Panic \<Rightarrow> Panic
      | Ok pubkey \<Rightarrow>
          (let derived_address = PublicKey_address cx pubkey in
           case (case tx_session inner of
                   Some session_addr \<Rightarrow>
                     if derived_address \<noteq> session_addr then Some (Session_pubkey_derives derived_address session_addr) else None
                 | None \<Rightarrow>
                     if derived_address \<noteq> tx_signer inner then Some (Signer_pubkey_derives derived_address (tx_signer inner)) else None) of
             Some e \<Rightarrow> Err e
           | None \<Rightarrow>
               (case build_tx_signing_payload cx inner of
                  Err e \<Rightarrow> Err (Payload_failed e)
                | Panic \<Rightarrow> Panic
                | Ok payload \<Rightarrow>
                    (case PublicKey_verify cx pubkey payload (stx_signature tx) of
                       Err e \<Rightarrow> Err (Verification_failed e)
                     | Panic \<Rightarrow> Panic
                     | Ok _ \<Rightarrow> Ok ()))))"

definition validate_stateless_with_config ::
  "crypto \<Rightarrow> SignedTransaction \<Rightarrow> string \<Rightarrow> ChainConfig option \<Rightarrow> (validation_error, unit) result" where
  "validate_stateless_with_config cx tx chain_id config =
     (case first_error (stateless_checks tx chain_id) of
        Ok _ \<Rightarrow>
          (case (case config of None \<Rightarrow> Ok () | Some cfg \<Rightarrow> validate_tx_size cx tx (cfg_max_transaction_size_bytes cfg)) of
             Ok _ \<Rightarrow>
               (case cx_tx_bytes cx (stx_transaction tx) of
                  Inl _ \<Rightarrow> Panic
                | Inr signing_bytes \<Rightarrow>
                    (if cx_sha256 cx (signing_bytes @ be_bytes 64 (stx_signature tx)) \<noteq> stx_tx_hash tx then Err (Rejected InvalidTxHash)
                     else case check_key_and_signature cx tx of
                       Ok _ \<Rightarrow> (case config of None \<Rightarrow> Ok () | Some cfg \<Rightarrow> validate_transaction_input (stx_transaction tx) cfg)
                     | r \<Rightarrow> r))
           | r \<Rightarrow> r)
      | r \<Rightarrow> r)"

definition validate_stateless :: "crypto \<Rightarrow> SignedTransaction \<Rightarrow> string \<Rightarrow> (validation_error, unit) result" where
  "validate_stateless cx tx chain_id = validate_stateless_with_config cx tx chain_id None"

subsection \<open>Against the state\<close>

text \<open>The amount the action itself takes from the signer, where validation looks at it.\<close>

fun action_amount :: "TransactionAction \<Rightarrow> u64 option" where
  "action_amount (Transfer _ amount) = Some amount"
| "action_amount (DelegateStake _ amount) = Some amount"
| "action_amount _ = None"

definition balance_check :: "u64 \<Rightarrow> AccountState \<Rightarrow> bool \<times> validation_error" where
  "balance_check required account =
     (acct_balance account < required, Rejected (InsufficientBalance required (acct_balance account)))"

definition payment_checks :: "Transaction \<Rightarrow> AccountState \<Rightarrow> chain_state \<Rightarrow> (validation_error, unit) result" where
  "payment_checks tx account s =
     (case tx_sponsor tx of
        Some sponsor \<Rightarrow>
          (case get_account s sponsor of
             None \<Rightarrow> Err (Rejected (SponsorAccountNotFound sponsor))
           | Some sponsor_account \<Rightarrow>
               first_error (balance_check (tx_max_fee tx) sponsor_account #
                 (case action_amount (tx_action tx) of None \<Rightarrow> [] | Some amount \<Rightarrow> [balance_check amount account])))
      | None \<Rightarrow>
          first_error (balance_check (tx_max_fee tx) account #
            (case action_amount (tx_action tx) of
               None \<Rightarrow> []
             | Some amount \<Rightarrow> [balance_check (saturating_add amount (tx_max_fee tx)) account])))"

definition session_checks :: "Transaction \<Rightarrow> u64 \<Rightarrow> chain_state \<Rightarrow> (validation_error, unit) result" where
  "session_checks tx current_height s =
     (case tx_session tx of
        None \<Rightarrow> Ok ()
      | Some session_addr \<Rightarrow>
          (let height = (if 0 < current_height then current_height else get_chain_height s) in
           case get_session s (tx_signer tx) session_addr of
             None \<Rightarrow> Err (Rejected SessionNotFound)
           | Some g \<Rightarrow>
               first_error
                 [(ses_revoked g, Rejected ExecutionError.SessionRevoked),
                  (\<not> session_is_valid g height, Rejected SessionExpired),
                  (\<not> is_action_permitted g (action_label (tx_action tx)), Rejected SessionActionNotPermitted),
                  (\<not> can_spend g (tx_max_fee tx), Rejected SessionSpendingLimitExceeded)]))"

definition validate_stateful_at_height :: "SignedTransaction \<Rightarrow> chain_state \<Rightarrow> u64 \<Rightarrow> (validation_error, unit) result" where
  "validate_stateful_at_height tx s current_height =
     (let t = stx_transaction tx in
      case get_account s (tx_signer t) of
        None \<Rightarrow> Err (Rejected (AccountNotFound (tx_signer t)))
      | Some account \<Rightarrow>
          (if acct_nonce account \<noteq> tx_nonce t then Err (Rejected (InvalidNonce (acct_nonce account) (tx_nonce t)))
           else case payment_checks t account s of
             Ok _ \<Rightarrow> session_checks t current_height s
           | r \<Rightarrow> r))"

definition validate_stateful :: "SignedTransaction \<Rightarrow> chain_state \<Rightarrow> (validation_error, unit) result" where
  "validate_stateful tx s = validate_stateful_at_height tx s 0"

subsection \<open>What validation guarantees\<close>

lemma validated_account:
  assumes "validate_stateful_at_height tx s h = Ok u"
  obtains acct where "get_account s (signer tx) = Some acct" "acct_nonce acct = nonce tx"
    "payment_checks (stx_transaction tx) acct s = Ok ()"
  using assms
  by (auto simp: validate_stateful_at_height_def Let_def signer_def nonce_def split: option.splits if_splits result.splits)

lemma payment_own:
  assumes "payment_checks tx acct s = Ok u" "tx_sponsor tx = None"
  shows "tx_max_fee tx \<le> acct_balance acct"
    "action_amount (tx_action tx) = Some amount \<Longrightarrow> saturating_add amount (tx_max_fee tx) \<le> acct_balance acct"
  using assms by (auto simp: payment_checks_def balance_check_def not_less split: option.splits if_splits)

lemma payment_sponsored:
  assumes "payment_checks tx acct s = Ok u" "tx_sponsor tx = Some a"
  shows "\<exists>sp. get_account s a = Some sp \<and> tx_max_fee tx \<le> acct_balance sp"
    "action_amount (tx_action tx) = Some amount \<Longrightarrow> amount \<le> acct_balance acct"
  using assms by (auto simp: payment_checks_def balance_check_def not_less split: option.splits if_splits)

text \<open>A validated transaction pays its fee, and its signer keeps what the action needs.\<close>

lemma validated_deduct:
  assumes "validate_stateful_at_height tx s h = Ok u" and "tx_fee ext config tx \<le> tx_max_fee (stx_transaction tx)"
  shows "\<exists>cs s1. deduct_fee (signer tx) (tx_payer tx) (tx_fee ext config tx) s = (Ok cs, s1)"
proof -
  obtain acct where acct: "get_account s (signer tx) = Some acct"
    and pay: "payment_checks (stx_transaction tx) acct s = Ok ()"
    by (rule validated_account [OF assms(1)])
  show ?thesis
  proof (cases "tx_sponsor (stx_transaction tx)")
    case None
    with payment_own(1) [OF pay] assms(2) have "tx_fee ext config tx \<le> acct_balance acct" by simp
    with None acct show ?thesis by (simp add: deduct_fee_def leD)
  next
    case (Some a)
    with payment_sponsored(1) [OF pay] obtain sp where "get_account s a = Some sp" "tx_fee ext config tx \<le> acct_balance sp"
      using assms(2) by (meson order_trans)
    with Some acct show ?thesis by (auto simp: deduct_fee_def leD Let_def)
  qed
qed

lemma charged_funds:
  assumes wf: "wf_state s" and d: "deduct_fee (signer tx) (tx_payer tx) (tx_fee ext config tx) s = (Ok cs, s1)"
  shows "get_account (charged_state ext config tx proposer s) (signer tx) \<noteq> None \<and>
    funds s (signer tx) \<le> funds (charged_state ext config tx proposer s) (signer tx) +
      (if tx_payer tx = signer tx then unat (tx_fee ext config tx) else 0)"
proof -
  have "get_account s1 (signer tx) \<noteq> None \<and>
      funds s (signer tx) \<le> funds s1 (signer tx) + (if tx_payer tx = signer tx then unat (tx_fee ext config tx) else 0)"
    using d wf_keys(1) [OF wf]
    by (cases rule: deduct_fee_cases [of "signer tx" "tx_payer tx" "tx_fee ext config tx" s])
       (auto simp: funds_def accounts.held_write accounts.look_write increment_nonce_def balance_of_def unat_sub word_le_nat_alt held_def)
  moreover have "wf_state s1"
    using deduct_fee_wf [OF wf] d by (metis snd_conv)
  ultimately show ?thesis
    using distribute_fee_funds [of s1 "signer tx" ext config "tx_fee ext config tx" proposer] d
    by (auto simp: charged_state_def)
qed

lemma validated_transfer:
  assumes wf: "wf_state s" and valid: "validate_stateful_at_height tx s h = Ok u"
    and max: "tx_fee ext config tx \<le> tx_max_fee (stx_transaction tx)"
    and tx: "tx_action (stx_transaction tx) = Transfer to amount" "tx_sponsor (stx_transaction tx) \<noteq> Some (signer tx)"
    and room: "unat amount + unat (tx_max_fee (stx_transaction tx)) < 2 ^ 64"
  shows "\<exists>res s'. execute_transaction ext config tx height proposer s = (Ok res, s') \<and> rcp_success (res_receipt res)"
proof -
  let ?c = "charged_state ext config tx proposer s" and ?t = "stx_transaction tx"
  obtain acct where acct: "get_account s (signer tx) = Some acct" and pay: "payment_checks ?t acct s = Ok ()"
    by (rule validated_account [OF valid])
  obtain cs s1 where d: "deduct_fee (signer tx) (tx_payer tx) (tx_fee ext config tx) s = (Ok cs, s1)"
    using validated_deduct [OF valid max] by blast
  have "unat amount + (if tx_payer tx = signer tx then unat (tx_fee ext config tx) else 0) \<le> unat (acct_balance acct)"
  proof (cases "tx_sponsor ?t")
    case None
    have "saturating_add amount (tx_max_fee ?t) \<le> acct_balance acct"
      using payment_own(2) [OF pay None, of amount] tx(1) by simp
    with room max show ?thesis
      by (auto simp: word_le_nat_alt unat_saturating_add min_def split: if_splits)
  next
    case (Some a)
    with tx(2) payment_sponsored(2) [OF pay Some, of amount] tx(1) show ?thesis
      by (auto simp: word_le_nat_alt)
  qed
  with charged_funds [OF wf d, of proposer] acct obtain b where b: "get_account ?c (signer tx) = Some b" "amount \<le> acct_balance b"
    by (auto simp: funds_def balance_of_def word_le_nat_alt split: if_splits)
  then obtain evs sc where go: "execute_transfer (signer tx) to amount (tx_timestamp ?t) ?c = (Ok evs, sc)"
    by (simp add: execute_transfer_def Let_def leD)
  have c: "?c = distribute_fee ext config (tx_fee ext config tx) proposer s1"
    by (simp add: charged_state_def d)
  show ?thesis
    using max d go tx(1) unfolding c
    by (auto simp: execute_transaction_def Let_def leD with_changes_def receipt_success_def split: prod.splits)
qed



end
