(* ===== verification/Spec2Isabelle.thy ===== *)
theory Spec2Isabelle
  imports Polay_Node Polay_Scheduler Polay_Snapshot Polay_Validation
begin

text \<open>
  A verification development of the POLAY chain (paths below are relative to \<^verbatim>\<open>src/crates/\<close>).

  \<^bold>\<open>The program.\<close> A POLAY node keeps accounts, assets, markets, stakes, guilds, tournaments, rentals and
  governance proposals in a key-value store. Signed transactions arrive from peers and wait in a pool. A
  proposer drains the pool into a block; the validators agree on a block by a Tendermint-style vote; a
  committed block is executed, its receipts and events are stored, the proposer is paid, and at the end
  of an epoch rewards are paid and the set of validators is chosen again. \<^verbatim>\<open>validator_loop.rs\<close> joins the
  parts: it hands messages to the state machine of the vote, and carries out the actions that it returns.

  \<^bold>\<open>Data and state.\<close>
  \<^item> \<open>Polay_Prelude\<close>: integers at their width (\<open>u64\<close> is a word of 64 bits) with checked, saturating and
    wrapping operations; \<open>result\<close>, whose third constructor \<open>Panic\<close> stands for a panic of the program; lemmas on
    words, lists and finite maps; the collections \<open>unat_simps\<close> and \<open>state_defs\<close>.
  \<^item> \<open>Polay_Types\<close>, \<open>Polay_Events\<close>, \<open>Polay_Config\<close>: \<^verbatim>\<open>polay-types/src\<close> and \<^verbatim>\<open>polay-config/src/lib.rs\<close>. A struct is
    a record and an enum a datatype, with the names of the source and a prefix on the fields.
  \<^item> \<open>Polay_State\<close>: \<open>chain_state\<close> has one finite map per namespace; one definition per getter of
    \<^verbatim>\<open>state_view.rs\<close> and per setter of \<^verbatim>\<open>state_writer.rs\<close>. \<open>wf_state\<close> says that an entry is stored under its own key.
  \<^item> \<open>Polay_Keys\<close>: the byte keys of \<^verbatim>\<open>polay-state/src/keys.rs\<close>. Its theorem justifies the typed maps: logical entries have
    distinct keys, and a prefix scan meets the entries of its owner and no others.
  \<^item> \<open>Polay_Store\<close>: the trait \<open>StateStore\<close>, \<open>MemoryStore\<close> and \<open>OverlayStore\<close>. The locale \<open>kv_store\<close> is the contract of a
    store, a \<open>sublocale\<close> gives it to every overlay, and it is interpreted on \<open>memory_store\<close>.
  \<^item> \<open>Polay_Merkle\<close>, \<open>Polay_Snapshot\<close>: \<^verbatim>\<open>merkle.rs\<close>, \<^verbatim>\<open>snapshot.rs\<close>, \<^verbatim>\<open>sync.rs\<close>: proofs verify, the chunks of a snapshot in any order
    restore the store, and the state root covers twelve of the namespaces only.

  \<^bold>\<open>Execution\<close> (\<^verbatim>\<open>polay-execution/src\<close>).
  \<^item> \<open>Mod_Transfer\<close>, \<open>Mod_Assets\<close>, \<open>Mod_Market\<close>, \<open>Mod_Staking\<close>, \<open>Mod_Identity\<close>, \<open>Mod_Session\<close>, \<open>Mod_Attestation\<close>, \<open>Mod_Rental\<close>,
    \<open>Mod_Guild\<close>, \<open>Mod_Tournament\<close>, \<open>Mod_Governance\<close>: the handlers of \<^verbatim>\<open>modules/*.rs\<close>. A handler takes the state and returns its
    result and the state it leaves, which after an error holds the writes made up to that point.
  \<^item> \<open>Polay_Ledger\<close>: \<open>ledger_total\<close> adds up every native token, in balances and in escrow. The locale \<open>pot\<close> is one place
    that holds tokens; its interpretations (accounts, delegations, guilds, tournaments, rentals, proposals) give the
    effect of each write on the total, from which each module theory proves what it conserves.
  \<^item> \<open>Polay_Executor\<close>: \<^verbatim>\<open>gas.rs\<close> and \<^verbatim>\<open>executor.rs\<close>: fees, session keys, dispatch, receipts, blocks, block rewards.
  \<^item> \<open>Polay_Effects\<close>, \<open>Polay_Accounting\<close>: every handler is a sequence of writes that keep nonces (\<open>module_writes\<close>). From it
    follow the nonce discipline, the burnt share of a fee, the agreement of the recorded supply with the ledger, and
    the gas limit of a block.
  \<^item> \<open>Polay_Validation\<close>: \<^verbatim>\<open>validator.rs\<close> and \<^verbatim>\<open>input_validation.rs\<close>: what passes validation is charged, and is refused afterwards.
  \<^item> \<open>Polay_Scheduler\<close>: \<^verbatim>\<open>access_set.rs\<close> and \<^verbatim>\<open>scheduler.rs\<close>: batches without conflicts, whose order is not that of the block.

  \<^bold>\<open>Consensus and node.\<close>
  \<^item> \<open>Polay_Crypto\<close>: \<^verbatim>\<open>polay-crypto/src\<close> (hashes, signing and verifying) and \<^verbatim>\<open>polay-consensus/src/proposer.rs\<close>.
  \<^item> \<open>Polay_Mempool\<close>: \<^verbatim>\<open>polay-mempool/src/pool.rs\<close>; \<open>reachable_pool\<close> is the set of its histories.
  \<^item> \<open>Polay_Consensus\<close>, \<open>Polay_Agreement\<close>: \<^verbatim>\<open>polay-consensus/src/{state_machine,types,evidence}.rs\<close> handler by handler, and
    runs under arbitrary events (\<open>reachable_machine\<close>). The locale \<open>weighted_quorum\<close> carries the intersection of
    quorums. Shown are accountable agreement within a round, locking, and that a quorum of precommits commits.
    Agreement across rounds is not claimed.
  \<^item> \<open>Polay_Epoch\<close>, \<open>Polay_Genesis\<close>: \<^verbatim>\<open>polay-staking/src/lib.rs\<close>, \<^verbatim>\<open>polay-validator/src/{epoch,chain}.rs\<close>, \<^verbatim>\<open>polay-genesis/src/lib.rs\<close>.
  \<^item> \<open>Polay_Blocks\<close>, \<open>Polay_Node\<close>: \<^verbatim>\<open>polay-validator/src/{block_validator,block_producer,validator_loop}.rs\<close>. \<open>run_step\<close> is one
    turn of the event loop; in every \<open>reachable_node\<close> the stored blocks form a chain and all parts are well-formed.

  \<^bold>\<open>Conventions.\<close>
  \<^item> Plain arithmetic wraps as in a release build; the theorems on sums state the bounds under which nothing wraps.
  \<^item> No definition uses fuel. Loops are structural recursions, except those of the Merkle tree, which end because
    the layer gets shorter (\<open>measure\<close> on its length).
  \<^item> Code outside the repository is a parameter: \<open>externals\<close> (SHA-256, hex, the length of a Borsh encoding), \<open>crypto\<close> (SHA-256,
    Ed25519, Borsh) and \<open>node_externals\<close>, which adds the typed state as raw bytes (\<open>nx_raw\<close>). What a theorem needs of
    them is a hypothesis of it, and its witness meets the hypothesis with concrete functions.
  \<^item> Hash maps are finite maps; where the source iterates over one, a lemma shows that the order is irrelevant or the
    model sorts as the source does.

  \<^bold>\<open>Theorems that record defects.\<close> Some theorems state what the code does where a comment or another part of it expects
  something else.
  \<^item> The executor accepts a transaction twice (\<open>Polay_Accounting\<close>).
  \<^item> Pool and block validator disagree on the hash of a transaction and on the state root of a header (\<open>Polay_Blocks\<close>).
  \<^item> A block is executed when it is proposed and again when it is committed (\<open>Polay_Node\<close>).
  \<^item> A second proposal makes an honest node equivocate (\<open>Polay_Agreement\<close>).
  \<^item> Batches reorder conflicting transactions (\<open>Polay_Scheduler\<close>).
  \<^item> Delegated stake votes twice (\<open>Mod_Governance\<close>), a resubmitted result is paid twice (\<open>Mod_Attestation\<close>), and an early
    return of a rental can mint (\<open>Mod_Rental\<close>).

  \<^bold>\<open>Not modelled.\<close>
  \<^item> \<^verbatim>\<open>polay-execution/src/parallel.rs\<close>: threads over raw overlays. It appears as the parameter \<open>nx_parallel\<close> of block
    production, which the default configuration does not use.
  \<^item> \<^verbatim>\<open>invariants.rs\<close>, which nothing outside the tests calls, and \<^verbatim>\<open>polay-market\<close>, \<^verbatim>\<open>polay-attestation\<close>, \<^verbatim>\<open>polay-identity\<close>, second
    implementations of modules that the chain does not use.
  \<^item> The network, the RPC server, the command line, the wallet, the web applications and the TypeScript SDK: I/O. The
    node takes network events as input and leaves its messages in an outbox.
  \<^item> Logging, timestamps of log lines, serialization formats, and the RocksDB backend, which forwards to its library.
\<close>

end
